(* ===== verification/Boot_Prelude.thy ===== *)
theory Boot_Prelude
  imports Main "HOL-Library.Word" "HOL-Library.Monad_Syntax"
begin

text \<open>
  What every component shares: the machine integers of the C code, the state a C
  function works on, the two predicates in which its contracts are written, and the
  generic lemmas on lists of bytes, memory and words.

  The state has three fields. \<open>ram\<close> is byte-addressed memory. \<open>dev\<close> is the state of
  everything behind the memory-mapped registers; its type is a parameter, since the
  devices are not part of the program, and an \<open>env\<close> says how they answer a volatile
  access. \<open>trace\<close> records the volatile accesses in order, which are the observable
  behaviour of a C program.

  A C function becomes a function from its arguments and the state to an \<open>option\<close>.
  \<open>None\<close> means that the call does not return: a polling loop that never sees its
  condition, or undefined behaviour.
\<close>

unbundle bit_operations_syntax

named_theorems total_rules \<open>total-correctness contracts of the operations\<close>
named_theorems reg_defs \<open>addresses of the memory-mapped registers\<close>
named_theorems frame_rules \<open>what a call that returns leaves unchanged\<close>

section \<open>Machine integers\<close>

type_synonym u8 = "8 word"
type_synonym u16 = "16 word"
type_synonym u32 = "32 word"
type_synonym u64 = "64 word"

text \<open>\<open>uintptr_t\<close> and object pointers of the rv64 (lp64) build.\<close>

type_synonym addr = "64 word"

section \<open>Volatile accesses, devices and the state\<close>

datatype mmio = R8 addr u8 | W8 addr u8 | R32 addr u32 | W32 addr u32

text \<open>
  The devices: how a register access is answered and how it changes them, and what they do on
  their own while the core executes one \<open>nop\<close> of a delay loop.
\<close>

record 'd env =
  rd8 :: "addr \<Rightarrow> 'd \<Rightarrow> u8 \<times> 'd"
  wr8 :: "addr \<Rightarrow> u8 \<Rightarrow> 'd \<Rightarrow> 'd"
  rd32 :: "addr \<Rightarrow> 'd \<Rightarrow> u32 \<times> 'd"
  wr32 :: "addr \<Rightarrow> u32 \<Rightarrow> 'd \<Rightarrow> 'd"
  nop :: "'d \<Rightarrow> 'd"

record 'd cstate =
  ram :: "addr \<Rightarrow> u8"
  dev :: 'd
  trace :: "mmio list"

section \<open>Contracts\<close>

text \<open>
  \<open>tw m Q\<close>: the call \<open>m\<close> returns, with a result that satisfies \<open>Q\<close> (total).
  \<open>ifret m Q\<close>: if the call \<open>m\<close> returns, its result satisfies \<open>Q\<close> (partial; used for
  safety facts that hold against any device).
\<close>

definition tw :: "'a option \<Rightarrow> ('a \<Rightarrow> bool) \<Rightarrow> bool" where
  "tw m Q \<longleftrightarrow> (\<exists>x. m = Some x \<and> Q x)"

definition ifret :: "'a option \<Rightarrow> ('a \<Rightarrow> bool) \<Rightarrow> bool" where
  "ifret m Q \<longleftrightarrow> (\<forall>x. m = Some x \<longrightarrow> Q x)"

lemma tw_simps [simp]: "tw (Some x) Q = Q x" "tw None Q = False"
  by (auto simp: tw_def)

lemma ifret_simps [simp]: "ifret (Some x) Q = Q x" "ifret None Q"
  by (auto simp: ifret_def)

lemma tw_bind: "tw m Q \<Longrightarrow> (\<And>x. Q x \<Longrightarrow> tw (f x) R) \<Longrightarrow> tw (m \<bind> f) R"
  by (auto simp: tw_def)

lemma tw_bind2:
  "tw m Q \<Longrightarrow> (\<And>x y. Q (x, y) \<Longrightarrow> tw (f x y) R) \<Longrightarrow> tw (m \<bind> (\<lambda>(x, y). f x y)) R"
  by (auto simp: tw_def)

lemma tw_weaken: "tw m Q \<Longrightarrow> (\<And>x. Q x \<Longrightarrow> R x) \<Longrightarrow> tw m R"
  by (auto simp: tw_def)

lemma twE: "tw m Q \<Longrightarrow> (\<And>x. m = Some x \<Longrightarrow> Q x \<Longrightarrow> P) \<Longrightarrow> P"
  by (auto simp: tw_def)

lemma twI: "m = Some x \<Longrightarrow> Q x \<Longrightarrow> tw m Q"
  by (auto simp: tw_def)

lemma ifret_bind: "ifret m Q \<Longrightarrow> (\<And>x. Q x \<Longrightarrow> ifret (f x) R) \<Longrightarrow> ifret (m \<bind> f) R"
  by (cases m) auto

lemma ifret_bind2:
  "ifret m Q \<Longrightarrow> (\<And>x y. Q (x, y) \<Longrightarrow> ifret (f x y) R) \<Longrightarrow> ifret (m \<bind> (\<lambda>(x, y). f x y)) R"
  by (cases m) auto

lemma ifret_weaken: "ifret m Q \<Longrightarrow> (\<And>x. Q x \<Longrightarrow> R x) \<Longrightarrow> ifret m R"
  by (auto simp: ifret_def)

lemma ifret_conj: "ifret m P \<Longrightarrow> ifret m Q \<Longrightarrow> ifret m (\<lambda>x. P x \<and> Q x)"
  by (auto simp: ifret_def)

lemma ifretI: "(\<And>x. m = Some x \<Longrightarrow> Q x) \<Longrightarrow> ifret m Q"
  by (auto simp: ifret_def)

lemma ifretD: "ifret m Q \<Longrightarrow> m = Some x \<Longrightarrow> Q x"
  by (auto simp: ifret_def)

section \<open>Strings\<close>

text \<open>
  A C string literal is the list of its characters; the end of the list stands for the
  terminating NUL. \<open>cstr_bytes\<close> are the bytes a reader sees before the first NUL.
\<close>

abbreviation CRLF :: string where "CRLF \<equiv> [CHR 0x0D, CHR 0x0A]"
abbreviation TAB :: string where "TAB \<equiv> [CHR 0x09]"

definition cstr_bytes :: "string \<Rightarrow> u8 list" where
  "cstr_bytes str = map of_char (takeWhile (\<lambda>c. c \<noteq> CHR 0x00) str)"

lemma cstr_bytes_simps:
  "cstr_bytes [] = []"
  "cstr_bytes (c # cs) = (if c = CHR 0x00 then [] else of_char c # cstr_bytes cs)"
  by (simp_all add: cstr_bytes_def)

section \<open>Memory\<close>

definition ram_bytes :: "(addr \<Rightarrow> u8) \<Rightarrow> addr \<Rightarrow> nat \<Rightarrow> u8 list" where
  "ram_bytes m a n = map (\<lambda>i. m (a + of_nat i)) [0..<n]"

definition store_bytes :: "addr \<Rightarrow> u8 list \<Rightarrow> (addr \<Rightarrow> u8) \<Rightarrow> (addr \<Rightarrow> u8)" where
  "store_bytes a bs m = (\<lambda>x. if unat (x - a) < length bs then bs ! unat (x - a) else m x)"

text \<open>The addresses of an object of \<open>n\<close> bytes at \<open>a\<close>.\<close>

definition in_obj :: "addr \<Rightarrow> nat \<Rightarrow> addr \<Rightarrow> bool" where
  "in_obj a n x \<longleftrightarrow> unat (x - a) < n"

definition disjoint_obj :: "addr \<Rightarrow> nat \<Rightarrow> addr \<Rightarrow> nat \<Rightarrow> bool" where
  "disjoint_obj a n b k \<longleftrightarrow> (\<forall>x. \<not> (in_obj a n x \<and> in_obj b k x))"

lemma length_ram_bytes [simp]: "length (ram_bytes m a n) = n"
  by (simp add: ram_bytes_def)

lemma nth_ram_bytes [simp]: "i < n \<Longrightarrow> ram_bytes m a n ! i = m (a + of_nat i)"
  by (simp add: ram_bytes_def)

lemma store_bytes_Nil [simp]: "store_bytes a [] m = m"
  by (simp add: store_bytes_def)

lemma store_bytes_outside: "\<not> in_obj a (length bs) x \<Longrightarrow> store_bytes a bs m x = m x"
  by (simp add: store_bytes_def in_obj_def)

lemma store_bytes_at:
  "i < length bs \<Longrightarrow> length bs \<le> 2 ^ 64 \<Longrightarrow> store_bytes a bs m (a + of_nat i) = bs ! i"
  by (simp add: store_bytes_def unat_of_nat)

lemma ram_bytes_store_same:
  assumes "length bs \<le> 2 ^ 64"
  shows "ram_bytes (store_bytes a bs m) a (length bs) = bs"
  by (rule nth_equalityI) (use assms in \<open>simp_all add: store_bytes_at\<close>)

lemma ram_bytes_cong:
  "(\<And>i. i < n \<Longrightarrow> m (a + of_nat i) = m' (a + of_nat i)) \<Longrightarrow> ram_bytes m a n = ram_bytes m' a n"
  by (simp add: ram_bytes_def)

lemma in_obj_base: "i < n \<Longrightarrow> n \<le> 2 ^ 64 \<Longrightarrow> in_obj a n (a + of_nat i)"
  by (simp add: in_obj_def unat_of_nat)

lemma in_obj_mono: "in_obj a n x \<Longrightarrow> n \<le> k \<Longrightarrow> in_obj a k x"
  by (simp add: in_obj_def)

lemma disjoint_obj_sym: "disjoint_obj a n b k \<Longrightarrow> disjoint_obj b k a n"
  by (auto simp: disjoint_obj_def)

lemma disjoint_obj_mono:
  "disjoint_obj a n b k \<Longrightarrow> n' \<le> n \<Longrightarrow> k' \<le> k \<Longrightarrow> disjoint_obj a n' b k'"
  by (auto simp: disjoint_obj_def in_obj_def) (meson less_le_trans)

lemma in_obj_shift:
  assumes "in_obj (b + of_nat j) k x"
  shows "in_obj b (j + k) x"
proof -
  have "x - b = (x - (b + of_nat j)) + of_nat j" by simp
  then have "unat (x - b) \<le> unat (x - (b + of_nat j)) + unat (of_nat j :: addr)"
    by (metis unat_word_ariths(1) mod_less_eq_dividend)
  also have "unat (of_nat j :: addr) \<le> j" by (simp add: unat_of_nat)
  finally show ?thesis using assms by (simp add: in_obj_def)
qed

lemma disjoint_obj_shift:
  "disjoint_obj a n b k \<Longrightarrow> j + k' \<le> k \<Longrightarrow> disjoint_obj a n (b + of_nat j) k'"
  unfolding disjoint_obj_def by (meson in_obj_mono in_obj_shift)

text \<open>Objects that lie one after the other without wrapping around do not overlap.\<close>

lemma in_obj_range:
  assumes "in_obj a n x" and "unat a + n \<le> 2 ^ 64"
  shows "unat a \<le> unat x \<and> unat x < unat a + n"
proof -
  have d: "unat (x - a) < n" using assms(1) by (simp add: in_obj_def)
  have "unat x = unat (a + (x - a))" by simp
  also have "\<dots> = unat a + unat (x - a)"
    using d assms(2) by (simp only: unat_word_ariths(1)) (simp only: len_bit0 len_bit1 len_num1, simp)
  finally show ?thesis using d by simp
qed

lemma disjoint_objI:
  assumes "unat a + n \<le> unat b" and "unat b + k \<le> 2 ^ 64"
  shows "disjoint_obj a n b k"
proof -
  have "unat a + n \<le> 2 ^ 64" using assms by simp
  with assms show ?thesis by (fastforce simp: disjoint_obj_def dest!: in_obj_range)
qed

lemma ram_bytes_store_disjoint:
  assumes "disjoint_obj a n b (length bs)" and "n \<le> 2 ^ 64"
  shows "ram_bytes (store_bytes b bs m) a n = ram_bytes m a n"
proof (rule ram_bytes_cong)
  fix i assume "i < n"
  then have "in_obj a n (a + of_nat i)" using assms(2) by (rule in_obj_base)
  then have "\<not> in_obj b (length bs) (a + of_nat i)"
    using assms(1) by (auto simp: disjoint_obj_def)
  then show "store_bytes b bs m (a + of_nat i) = m (a + of_nat i)"
    by (rule store_bytes_outside)
qed

text \<open>Storing two adjacent blocks one after the other is storing their concatenation.\<close>

lemma store_bytes_append:
  assumes "length xs + length ys \<le> 2 ^ 64"
  shows "store_bytes (a + of_nat (length xs)) ys (store_bytes a xs m) = store_bytes a (xs @ ys) m"
proof
  fix x
  define k where "k = unat (x - a)"
  define e where "e = unat (x - (a + of_nat (length xs)))"
  have k64: "k < 2 ^ 64" unfolding k_def by (rule less_le_trans [OF unsigned_less]) simp
  have e: "e = unat (of_nat k - of_nat (length xs) :: addr)"
    by (simp add: k_def e_def diff_diff_eq)
  have "if k < length xs then length ys \<le> e else e = k - length xs"
  proof (cases "k < length xs")
    case True
    have "(of_nat k - of_nat (length xs) :: addr) = of_nat (2 ^ 64 + k - length xs)"
      using True assms by simp
    moreover have "2 ^ 64 + k - length xs < 2 ^ 64" using True assms by linarith
    ultimately have "e = 2 ^ 64 + k - length xs"
      by (simp add: e unat_of_nat)
    then show ?thesis using True assms by simp
  next
    case False
    then have "(of_nat k - of_nat (length xs) :: addr) = of_nat (k - length xs)"
      by simp
    then have "e = unat (of_nat (k - length xs) :: addr)" by (simp only: e)
    then show ?thesis using False k64 by (simp add: unat_of_nat del: of_nat_diff)
  qed
  then show "store_bytes (a + of_nat (length xs)) ys (store_bytes a xs m) x
      = store_bytes a (xs @ ys) m x"
    unfolding store_bytes_def k_def [symmetric] e_def [symmetric] by (auto simp: nth_append split: if_splits)
qed

lemma store_bytes_snoc:
  assumes "length bs < 2 ^ 64"
  shows "(store_bytes a bs m)(a + of_nat (length bs) := b) = store_bytes a (bs @ [b]) m"
proof -
  have "(store_bytes a bs m)(a + of_nat (length bs) := b)
      = store_bytes (a + of_nat (length bs)) [b] (store_bytes a bs m)"
    by (auto simp: store_bytes_def fun_eq_iff unat_eq_zero)
  also have "\<dots> = store_bytes a (bs @ [b]) m"
    by (rule store_bytes_append) (use assms in simp)
  finally show ?thesis .
qed

lemma ram_bytes_add: "ram_bytes m a (j + k) = ram_bytes m a j @ ram_bytes m (a + of_nat j) k"
  by (rule nth_equalityI) (auto simp: nth_append ram_bytes_def add.assoc)

text \<open>A counter below a bound does not wrap around.\<close>

lemma unat_next: "w < v \<Longrightarrow> unat (w + 1) = unat w + 1" for w v :: "'a::len word"
proof -
  assume "w < v"
  moreover have "unat v < 2 ^ LENGTH('a)" by (rule unsigned_less)
  ultimately have "unat w + 1 < 2 ^ LENGTH('a)" by (simp only: word_less_nat_alt)
  then show "unat (w + 1) = unat w + 1" by (simp add: unat_word_ariths(1))
qed

section \<open>What is written\<close>

text \<open>\<open>touches os m m'\<close>: between \<open>m\<close> and \<open>m'\<close> only the objects \<open>os\<close> were written.\<close>

definition touches :: "(addr \<times> nat) list \<Rightarrow> (addr \<Rightarrow> u8) \<Rightarrow> (addr \<Rightarrow> u8) \<Rightarrow> bool" where
  "touches os m m' \<longleftrightarrow> (\<forall>x. m' x = m x \<or> (\<exists>(a, n) \<in> set os. in_obj a n x))"

lemma touches_refl [simp]: "touches os m m"
  by (simp add: touches_def)

lemma touches_mono: "touches os m m' \<Longrightarrow> set os \<subseteq> set os' \<Longrightarrow> touches os' m m'"
  by (fastforce simp: touches_def)

lemma touches_trans: "touches os m m1 \<Longrightarrow> touches os m1 m2 \<Longrightarrow> touches os m m2"
  unfolding touches_def by metis

lemma touches_store: "(a, length bs) \<in> set os \<Longrightarrow> touches os m (store_bytes a bs m)"
  using store_bytes_outside [of a bs _ m] by (auto simp: touches_def)

section \<open>The stack\<close>

text \<open>
  The start code sets the stack pointer to \<open>STACK_TOP\<close> (\<open>startup.S\<close>); the frames of the program
  occupy the addresses from some \<open>low\<close> up to it. \<open>stack_layout low os dest n\<close>: the local arrays
  \<open>os\<close> are in there, apart from each other, and the \<open>n\<close> bytes at \<open>dest\<close> are not.
\<close>

definition STACK_TOP :: addr where "STACK_TOP = 0x84000000"

fun apart :: "(addr \<times> nat) list \<Rightarrow> bool" where
  "apart [] = True"
| "apart ((a, n) # os) = (list_all (\<lambda>(b, k). disjoint_obj a n b k) os \<and> apart os)"

definition stack_layout :: "addr \<Rightarrow> (addr \<times> nat) list \<Rightarrow> addr \<Rightarrow> nat \<Rightarrow> bool" where
  "stack_layout low os dest n \<longleftrightarrow>
     list_all (\<lambda>(a, k). low \<le> a \<and> unat a + k \<le> unat STACK_TOP) os \<and> apart os \<and>
     disjoint_obj dest n low (unat STACK_TOP - unat low)"

lemma on_stack:
  assumes "low \<le> a" "unat a + k \<le> unat STACK_TOP" "in_obj a k x"
  shows "in_obj low (unat STACK_TOP - unat low) x"
proof -
  have "unat STACK_TOP \<le> 2 ^ 64" using unsigned_less [of STACK_TOP, where 'a = nat] by simp
  then have "unat a \<le> unat x" "unat x < unat a + k" using in_obj_range [OF assms(3)] assms(2) by auto
  moreover from this assms(1) have "unat (x - low) = unat x - unat low"
    by (intro unat_sub) (auto simp: word_le_nat_alt)
  ultimately show ?thesis using assms(1,2) by (auto simp: in_obj_def word_le_nat_alt)
qed

lemma stack_layoutD:
  "stack_layout low os dest n \<Longrightarrow> (a, k) \<in> set os \<Longrightarrow> disjoint_obj a k dest n"
  using on_stack [of low a k] by (fastforce simp: stack_layout_def disjoint_obj_def list_all_iff)

text \<open>
  \<open>frames_kept low os m m'\<close>: on the stack only the arrays \<open>os\<close> were written. So it is when the
  program writes nothing but them and an image that lies elsewhere.
\<close>

definition frames_kept :: "addr \<Rightarrow> (addr \<times> nat) list \<Rightarrow> (addr \<Rightarrow> u8) \<Rightarrow> (addr \<Rightarrow> u8) \<Rightarrow> bool" where
  "frames_kept low os m m' \<longleftrightarrow> (\<forall>x. in_obj low (unat STACK_TOP - unat low) x \<longrightarrow>
     m' x = m x \<or> (\<exists>(a, k) \<in> set os. in_obj a k x))"

lemma stack_frames_kept:
  "stack_layout low os dest n \<Longrightarrow> touches ((dest, n) # os) m m' \<Longrightarrow> frames_kept low os m m'"
  by (auto simp: stack_layout_def touches_def disjoint_obj_def frames_kept_def)

section \<open>Sending a sequence of bytes\<close>

text \<open>
  \<open>emit put bs\<close> hands the bytes \<open>bs\<close> to a byte sink one after the other. Every printing
  function of the program is equal to an \<open>emit\<close>, so a block of printing calls composes
  by \<open>emit_append\<close>.
\<close>

fun emit :: "(u8 \<Rightarrow> 's \<Rightarrow> 's option) \<Rightarrow> u8 list \<Rightarrow> 's \<Rightarrow> 's option" where
  "emit put [] s = Some s"
| "emit put (b # bs) s = put b s \<bind> emit put bs"

lemma emit_append: "emit put (xs @ ys) s = emit put xs s \<bind> emit put ys"
proof (induction xs arbitrary: s)
  case Nil
  show ?case by simp
next
  case (Cons b xs)
  then show ?case by (cases "put b s") simp_all
qed

lemma emit_seq: "emit put xs s \<bind> (\<lambda>s. emit put ys s) = emit put (xs @ ys) s"
  by (simp add: emit_append)

lemma emit_seq_then:
  "emit put xs s \<bind> (\<lambda>s. emit put ys s \<bind> k) = emit put (xs @ ys) s \<bind> k"
  by (simp add: emit_append)

text \<open>
  The interface of a serial port: a byte sink that always accepts, appends the byte to
  what has been sent and leaves the rest of the state (\<open>frame\<close>) alone.
\<close>

locale serial_port =
  fixes put :: "u8 \<Rightarrow> 's \<Rightarrow> 's option"
    and ok :: "'s \<Rightarrow> bool"
    and out :: "'s \<Rightarrow> u8 list"
    and frame :: "'s \<Rightarrow> 'f"
  assumes put_total:
    "ok s \<Longrightarrow> tw (put b s) (\<lambda>s'. ok s' \<and> out s' = out s @ [b] \<and> frame s' = frame s)"
begin

lemma emit_total:
  "ok s \<Longrightarrow> tw (emit put bs s) (\<lambda>s'. ok s' \<and> out s' = out s @ bs \<and> frame s' = frame s)"
proof (induction bs arbitrary: s)
  case Nil
  then show ?case by simp
next
  case (Cons b bs)
  show ?case unfolding emit.simps
  proof (rule tw_bind [OF put_total [OF Cons.prems]])
    fix s1 assume s1: "ok s1 \<and> out s1 = out s @ [b] \<and> frame s1 = frame s"
    show "tw (emit put bs s1) (\<lambda>s'. ok s' \<and> out s' = out s @ b # bs \<and> frame s' = frame s)"
      using Cons.IH [of s1] s1 by (auto elim: tw_weaken)
  qed
qed

lemma emit_then:
  assumes "ok s"
    and "\<And>s'. ok s' \<Longrightarrow> out s' = out s @ bs \<Longrightarrow> frame s' = frame s \<Longrightarrow> tw (k s') Q"
  shows "tw (emit put bs s \<bind> k) Q"
  using emit_total [OF assms(1)] assms(2) by (blast intro: tw_bind)

end

section \<open>Exchanging bytes over a full-duplex link\<close>

text \<open>
  \<open>xfer txrx bs\<close> sends the bytes \<open>bs\<close> over a full-duplex link and collects the byte that
  comes back for each. \<open>xchg exch bs\<close> is the same exchange seen from the other end: a
  card with state \<open>c\<close> answers byte \<open>b\<close> with \<open>fst (exch b c)\<close> and moves to
  \<open>snd (exch b c)\<close>.
\<close>

fun xfer :: "(u8 \<Rightarrow> 's \<Rightarrow> (u8 \<times> 's) option) \<Rightarrow> u8 list \<Rightarrow> 's \<Rightarrow> (u8 list \<times> 's) option" where
  "xfer txrx [] s = Some ([], s)"
| "xfer txrx (b # bs) s = do {
     (r, s) \<leftarrow> txrx b s;
     (rs, s) \<leftarrow> xfer txrx bs s;
     Some (r # rs, s)
   }"

fun xchg :: "(u8 \<Rightarrow> 'c \<Rightarrow> u8 \<times> 'c) \<Rightarrow> u8 list \<Rightarrow> 'c \<Rightarrow> u8 list \<times> 'c" where
  "xchg exch [] c = ([], c)"
| "xchg exch (b # bs) c =
     (let (r, c) = exch b c; (rs, c) = xchg exch bs c in (r # rs, c))"

lemma length_xchg [simp]: "length (fst (xchg exch bs c)) = length bs"
  by (induction bs arbitrary: c) (simp_all add: split_beta Let_def)

lemma xchg_append:
  "xchg exch (xs @ ys) c =
     (fst (xchg exch xs c) @ fst (xchg exch ys (snd (xchg exch xs c))),
      snd (xchg exch ys (snd (xchg exch xs c))))"
  by (induction xs arbitrary: c) (simp_all add: split_beta Let_def)

text \<open>The interface of a byte link to a card, and what a sequence of bytes does on it.\<close>

locale byte_link =
  fixes txrx :: "u8 \<Rightarrow> 's \<Rightarrow> (u8 \<times> 's) option"
    and exch :: "u8 \<Rightarrow> 'c \<Rightarrow> u8 \<times> 'c"
    and ok :: "'s \<Rightarrow> bool"
    and card :: "'s \<Rightarrow> 'c"
    and frame :: "'s \<Rightarrow> 'f"
  assumes txrx_total:
    "ok s \<Longrightarrow> tw (txrx b s) (\<lambda>(r, s'). r = fst (exch b (card s)) \<and> ok s' \<and>
        card s' = snd (exch b (card s)) \<and> frame s' = frame s)"
begin

lemma xfer_total:
  "ok s \<Longrightarrow> tw (xfer txrx bs s) (\<lambda>(rs, s'). rs = fst (xchg exch bs (card s)) \<and> ok s' \<and>
      card s' = snd (xchg exch bs (card s)) \<and> frame s' = frame s)"
proof (induction bs arbitrary: s)
  case Nil
  then show ?case by simp
next
  case (Cons b bs)
  from txrx_total [OF Cons.prems] obtain s1 where
    t: "txrx b s = Some (fst (exch b (card s)), s1)"
    and s1: "ok s1" "card s1 = snd (exch b (card s))" "frame s1 = frame s"
    by (auto elim!: twE)
  from Cons.IH [OF s1(1)] s1 t show ?case
    by (auto simp: split_beta Let_def elim!: twE)
qed

lemma xfer_then:
  assumes "ok s"
    and "\<And>s'. ok s' \<Longrightarrow> card s' = snd (xchg exch bs (card s)) \<Longrightarrow> frame s' = frame s \<Longrightarrow>
      tw (k (fst (xchg exch bs (card s))) s') Q"
  shows "tw (xfer txrx bs s \<bind> (\<lambda>(rs, s'). k rs s')) Q"
  using xfer_total [OF assms(1), of bs] assms(2) by (auto elim!: twE)

end

end
