(* ===== verification/Console_Spec.thy ===== *)
theory Console_Spec
  imports Boot_Prelude
begin

text \<open>
  The specification side of the serial console, shared by both boot ROMs: the register
  file of a 16550 UART as its data sheet describes it, driven by the recorded accesses;
  the pacing discipline of a polled transmitter and the interface of a port that keeps it;
  the byte-wide register accessors and the busy-wait loop both copies of \<open>uart.c\<close> use, with
  the proof that waiting and then writing is such a port; and hexadecimal and decimal text
  with the parsers that invert them.
\<close>

section \<open>The 16550 register file\<close>

text \<open>
  \<open>base\<close> is the address of the first register and \<open>stride\<close> the distance between
  registers. Bit 7 of the line control register (DLAB) redirects the first two registers
  to the divisor latch.
\<close>

record uart16550 =
  lcr :: u8
  dll :: u8
  dlm :: u8
  ier :: u8
  fcr :: u8
  mcr :: u8
  sent :: "u8 list"

definition uart_reset :: uart16550 where
  "uart_reset = \<lparr>lcr = 0, dll = 0, dlm = 0, ier = 0, fcr = 0, mcr = 0, sent = []\<rparr>"

definition dlab :: "uart16550 \<Rightarrow> bool" where
  "dlab u \<longleftrightarrow> bit (lcr u) 7"

definition uart_write :: "addr \<Rightarrow> addr \<Rightarrow> addr \<Rightarrow> u8 \<Rightarrow> uart16550 \<Rightarrow> uart16550" where
  "uart_write base stride a v u =
     (if a = base then (if dlab u then u\<lparr>dll := v\<rparr> else u\<lparr>sent := sent u @ [v]\<rparr>)
      else if a = base + stride then (if dlab u then u\<lparr>dlm := v\<rparr> else u\<lparr>ier := v\<rparr>)
      else if a = base + 2 * stride then u\<lparr>fcr := v\<rparr>
      else if a = base + 3 * stride then u\<lparr>lcr := v\<rparr>
      else if a = base + 4 * stride then u\<lparr>mcr := v\<rparr>
      else u)"

fun uart_step :: "addr \<Rightarrow> addr \<Rightarrow> uart16550 \<Rightarrow> mmio \<Rightarrow> uart16550" where
  "uart_step base stride u (W8 a v) = uart_write base stride a v u"
| "uart_step base stride u _ = u"

definition uart_of :: "addr \<Rightarrow> addr \<Rightarrow> mmio list \<Rightarrow> uart16550" where
  "uart_of base stride tr = foldl (uart_step base stride) uart_reset tr"

lemma uart_of_Nil [simp]: "uart_of base stride [] = uart_reset"
  by (simp add: uart_of_def)

lemma uart_of_append [simp]:
  "uart_of base stride (tr @ es) = foldl (uart_step base stride) (uart_of base stride tr) es"
  by (simp add: uart_of_def)

lemma uart_step_reads: "\<forall>e \<in> set es. \<exists>a v. e = R8 a v \<Longrightarrow> foldl (uart_step base stride) u es = u"
  by (induction es arbitrary: u) auto

section \<open>Pacing\<close>

text \<open>
  \<open>paced thr lsr ready tr\<close>: in the accesses \<open>tr\<close> every write to the transmit register
  \<open>thr\<close> comes right after a read of the line status register \<open>lsr\<close> that showed the
  transmitter empty; \<open>ready\<close> says whether the access before \<open>tr\<close> was such a read.
\<close>

fun paced :: "addr \<Rightarrow> addr \<Rightarrow> bool \<Rightarrow> mmio list \<Rightarrow> bool" where
  "paced thr lsr ready [] = True"
| "paced thr lsr ready (R8 a v # es) = paced thr lsr (a = lsr \<and> v AND 0x20 \<noteq> 0) es"
| "paced thr lsr ready (W8 a b # es) = ((a = thr \<longrightarrow> ready) \<and> paced thr lsr False es)"
| "paced thr lsr ready (_ # es) = paced thr lsr False es"

lemma paced_mono: "paced thr lsr False es \<Longrightarrow> paced thr lsr ready es"
  by (cases "(thr, lsr, ready, es)" rule: paced.cases) auto

lemma paced_append: "paced thr lsr r xs \<Longrightarrow> paced thr lsr False ys \<Longrightarrow> paced thr lsr r (xs @ ys)"
  by (induction thr lsr r xs rule: paced.induct) (auto simp: paced_mono)

fun writes_to :: "addr \<Rightarrow> mmio list \<Rightarrow> u8 list" where
  "writes_to thr [] = []"
| "writes_to thr (W8 a b # es) = (if a = thr then b # writes_to thr es else writes_to thr es)"
| "writes_to thr (_ # es) = writes_to thr es"

lemma writes_to_append [simp]: "writes_to thr (xs @ ys) = writes_to thr xs @ writes_to thr ys"
  by (induction thr xs rule: writes_to.induct) auto

section \<open>A run of console output\<close>

text \<open>The 32-bit accesses of a trace; the console uses only 8-bit ones.\<close>

fun bus32 :: "mmio list \<Rightarrow> mmio list" where
  "bus32 [] = []"
| "bus32 (R8 a v # es) = bus32 es"
| "bus32 (W8 a v # es) = bus32 es"
| "bus32 (e # es) = e # bus32 es"

lemma bus32_append [simp]: "bus32 (xs @ ys) = bus32 xs @ bus32 ys"
  by (induction xs rule: bus32.induct) auto

definition tx_only :: "addr \<Rightarrow> addr \<Rightarrow> mmio list \<Rightarrow> bool" where
  "tx_only thr lsr tr \<longleftrightarrow> (\<forall>e \<in> set tr. (\<exists>v. e = R8 lsr v) \<or> (\<exists>b. e = W8 thr b))"

lemma tx_only_bus32: "tx_only thr lsr tr \<Longrightarrow> bus32 tr = []"
  by (induction tr rule: bus32.induct) (auto simp: tx_only_def)

lemma tx_only_uart:
  "tx_only base lsr tr \<Longrightarrow> \<not> dlab u \<Longrightarrow>
   foldl (uart_step base stride) u tr = u\<lparr>sent := sent u @ writes_to base tr\<rparr>"
proof (induction tr arbitrary: u)
  case Nil
  then show ?case by simp
next
  case (Cons e tr)
  then have IH: "\<And>u. \<not> dlab u \<Longrightarrow>
      foldl (uart_step base stride) u tr = u\<lparr>sent := sent u @ writes_to base tr\<rparr>"
    by (simp add: tx_only_def)
  from Cons.prems show ?case
    by (cases e) (auto simp: tx_only_def uart_write_def IH dlab_def)
qed

text \<open>
  \<open>console_run thr lsr bs s s'\<close>: between \<open>s\<close> and \<open>s'\<close> exactly the bytes \<open>bs\<close> were
  written to the transmit register, each after the transmitter was seen empty, and
  nothing but that register and the line status register was accessed.
\<close>

definition console_run :: "addr \<Rightarrow> addr \<Rightarrow> u8 list \<Rightarrow> 'd cstate \<Rightarrow> 'd cstate \<Rightarrow> bool" where
  "console_run thr lsr bs s s' \<longleftrightarrow> ram s' = ram s \<and>
     (\<exists>tr. trace s' = trace s @ tr \<and> tx_only thr lsr tr \<and> paced thr lsr False tr \<and>
        writes_to thr tr = bs)"

lemma console_run_refl: "console_run thr lsr [] s s"
  by (auto simp: console_run_def tx_only_def)

lemma console_run_trans:
  assumes "console_run thr lsr xs s s1" and "console_run thr lsr ys s1 s2"
  shows "console_run thr lsr (xs @ ys) s s2"
proof -
  from assms obtain t1 t2 where
    "trace s1 = trace s @ t1" "tx_only thr lsr t1" "paced thr lsr False t1" "writes_to thr t1 = xs"
    "trace s2 = trace s1 @ t2" "tx_only thr lsr t2" "paced thr lsr False t2" "writes_to thr t2 = ys"
    unfolding console_run_def by blast
  then show ?thesis
    using assms unfolding console_run_def
    by (intro conjI exI [of _ "t1 @ t2"]) (auto simp: tx_only_def intro: paced_append)
qed

section \<open>What the console code relies on\<close>

text \<open>
  \<open>uart_live\<close>: whatever its state, the UART reports an empty transmitter after finitely
  many reads of the line status register. \<open>uart_quiet\<close>: 8-bit accesses (the console's) do
  not disturb the part \<open>view\<close> of the devices.
\<close>

definition poll :: "addr \<Rightarrow> 'd env \<Rightarrow> nat \<Rightarrow> 'd \<Rightarrow> 'd" where
  "poll lsr env n = ((\<lambda>d. snd (rd8 env lsr d)) ^^ n)"

definition uart_live :: "addr \<Rightarrow> 'd env \<Rightarrow> bool" where
  "uart_live lsr env \<longleftrightarrow> (\<forall>d. \<exists>n. fst (rd8 env lsr (poll lsr env n d)) AND 0x20 \<noteq> 0)"

definition uart_quiet :: "'d env \<Rightarrow> ('d \<Rightarrow> 'v) \<Rightarrow> bool" where
  "uart_quiet env view \<longleftrightarrow> (\<forall>a d. view (snd (rd8 env a d)) = view d) \<and>
     (\<forall>a b d. view (wr8 env a b d) = view d)"

definition console_ok ::
    "addr \<Rightarrow> addr \<Rightarrow> addr \<Rightarrow> 'd env \<Rightarrow> ('d \<Rightarrow> 'v) \<Rightarrow> 'd cstate \<Rightarrow> bool" where
  "console_ok base stride lsr env view s \<longleftrightarrow> uart_live lsr env \<and> uart_quiet env view \<and>
     \<not> dlab (uart_of base stride (trace s))"

text \<open>
  A port driven by polling: the bytes it takes go out paced, it returns when the UART is
  live, and it respects \<open>uart_quiet\<close>. Such a port is a serial port.
\<close>

locale polled_port =
  fixes put :: "u8 \<Rightarrow> 'd cstate \<Rightarrow> 'd cstate option"
    and env :: "'d env"
    and base stride lsr :: addr
    and view :: "'d \<Rightarrow> 'v"
  assumes put_run: "ifret (put b s) (console_run base lsr [b] s)"
    and put_returns: "uart_live lsr env \<Longrightarrow> \<exists>s'. put b s = Some s'"
    and put_view: "uart_quiet env view \<Longrightarrow> ifret (put b s) (\<lambda>s'. view (dev s') = view (dev s))"
begin

lemma emit_run: "ifret (emit put bs s) (console_run base lsr bs s)"
proof (induction bs arbitrary: s)
  case Nil
  show ?case by (simp add: console_run_refl)
next
  case (Cons b bs)
  show ?case unfolding emit.simps
  proof (rule ifret_bind [OF put_run])
    fix s1 assume "console_run base lsr [b] s s1"
    from console_run_trans [OF this] show "ifret (emit put bs s1) (console_run base lsr (b # bs) s)"
      by (intro ifret_weaken [OF Cons.IH]) simp
  qed
qed

end

sublocale polled_port \<subseteq> serial_port put "console_ok base stride lsr env view"
  "\<lambda>s. sent (uart_of base stride (trace s))" "\<lambda>s. (ram s, view (dev s), bus32 (trace s))"
proof unfold_locales
  fix s b assume ok: "console_ok base stride lsr env view s"
  from ok put_returns obtain s' where s': "put b s = Some s'" by (auto simp: console_ok_def)
  from ifretD [OF put_run s'] obtain tr where
    tr: "trace s' = trace s @ tr" "tx_only base lsr tr" "writes_to base tr = [b]"
    and ram: "ram s' = ram s"
    unfolding console_run_def by blast
  have "uart_of base stride (trace s')
      = (uart_of base stride (trace s))\<lparr>sent := sent (uart_of base stride (trace s)) @ [b]\<rparr>"
    using ok tr by (simp add: tx_only_uart console_ok_def)
  moreover have "view (dev s') = view (dev s)"
    using ok by (auto intro: ifretD [OF put_view s'] simp: console_ok_def)
  ultimately show "tw (put b s) (\<lambda>s'. console_ok base stride lsr env view s' \<and>
      sent (uart_of base stride (trace s')) = sent (uart_of base stride (trace s)) @ [b] \<and>
      (ram s', view (dev s'), bus32 (trace s')) = (ram s, view (dev s), bus32 (trace s)))"
    using ok s' tr ram by (simp add: console_ok_def dlab_def tx_only_bus32)
qed

section \<open>Register access and busy waiting\<close>

text \<open>The 8-bit accessors that both copies of \<open>uart.c\<close> define.\<close>

definition write_reg_u8 :: "'d env \<Rightarrow> addr \<Rightarrow> u8 \<Rightarrow> 'd cstate \<Rightarrow> 'd cstate" where
  "write_reg_u8 env addr value s =
     s\<lparr>dev := wr8 env addr value (dev s), trace := trace s @ [W8 addr value]\<rparr>"

definition read_reg_u8 :: "'d env \<Rightarrow> addr \<Rightarrow> 'd cstate \<Rightarrow> u8 \<times> 'd cstate" where
  "read_reg_u8 env addr s =
     (let (v, d) = rd8 env addr (dev s) in (v, s\<lparr>dev := d, trace := trace s @ [R8 addr v]\<rparr>))"

text \<open>\<open>while (cond()) {};\<close> where evaluating the condition has side effects.\<close>

partial_function (option) spin :: "('s \<Rightarrow> bool \<times> 's) \<Rightarrow> 's \<Rightarrow> 's option" where
  "spin cond s = (let (b, s') = cond s in if b then spin cond s' else Some s')"

text \<open>Waiting for the transmitter and then writing one byte, at any register addresses.\<close>

definition lsr_busy :: "'d env \<Rightarrow> addr \<Rightarrow> 'd cstate \<Rightarrow> bool \<times> 'd cstate" where
  "lsr_busy env lsr s = (let (v, s) = read_reg_u8 env lsr s in ((ucast v :: u32) AND 0x20 = 0, s))"

definition polled_put :: "'d env \<Rightarrow> addr \<Rightarrow> addr \<Rightarrow> u8 \<Rightarrow> 'd cstate \<Rightarrow> 'd cstate option" where
  "polled_put env thr lsr b s = do {
     s \<leftarrow> spin (\<lambda>s. let (v, s) = read_reg_u8 env lsr s in ((ucast v :: u32) AND 0x20 = 0, s)) s;
     Some (write_reg_u8 env thr b s)
   }"

lemma read_reg_u8_unfold:
  "read_reg_u8 env a s = (fst (rd8 env a (dev s)),
     s\<lparr>dev := snd (rd8 env a (dev s)), trace := trace s @ [R8 a (fst (rd8 env a (dev s)))]\<rparr>)"
  by (simp add: read_reg_u8_def split_beta Let_def)

lemma ucast_and_0x20: "((ucast (v :: u8) :: u32) AND 0x20 = 0) = (v AND 0x20 = 0)"
  using and_exp_eq_0_iff_not_bit [of "ucast v :: u32" 5] and_exp_eq_0_iff_not_bit [of v 5]
  by (simp add: bit_ucast_iff)

lemma lsr_busy_unfold:
  "lsr_busy env lsr s = (fst (rd8 env lsr (dev s)) AND 0x20 = 0,
     s\<lparr>dev := snd (rd8 env lsr (dev s)), trace := trace s @ [R8 lsr (fst (rd8 env lsr (dev s)))]\<rparr>)"
  by (simp add: lsr_busy_def read_reg_u8_unfold ucast_and_0x20)

text \<open>A wait that returns has polled the line status register until it showed bit 5.\<close>

definition polled :: "addr \<Rightarrow> 'd env \<Rightarrow> 'd cstate \<Rightarrow> 'd cstate \<Rightarrow> bool" where
  "polled lsr env s s' \<longleftrightarrow> (\<exists>n. dev s' = poll lsr env n (dev s)) \<and> ram s' = ram s \<and>
     (\<exists>tr v. trace s' = trace s @ tr @ [R8 lsr v] \<and> v AND 0x20 \<noteq> 0 \<and>
        (\<forall>e \<in> set tr. \<exists>v. e = R8 lsr v))"

lemma poll_Suc: "poll lsr env (Suc n) d = poll lsr env n (snd (rd8 env lsr d))"
  by (simp add: poll_def funpow_Suc_right del: funpow.simps)

lemma polled_once:
  assumes "v AND 0x20 \<noteq> 0" "v = fst (rd8 env lsr (dev s))"
  shows "polled lsr env s (s\<lparr>dev := snd (rd8 env lsr (dev s)), trace := trace s @ [R8 lsr v]\<rparr>)"
  unfolding polled_def using assms
  by (intro conjI exI [of _ "Suc 0"] exI [of _ "[]"] exI [of _ v]) (auto simp: poll_def)

lemma polled_again:
  assumes "polled lsr env (s\<lparr>dev := snd (rd8 env lsr (dev s)), trace := trace s @ [R8 lsr v]\<rparr>) s'"
  shows "polled lsr env s s'"
proof -
  from assms obtain n where "dev s' = poll lsr env (Suc n) (dev s)" by (auto simp: polled_def poll_Suc)
  moreover from assms obtain tr w where
    "trace s' = trace s @ (R8 lsr v # tr) @ [R8 lsr w]" "w AND 0x20 \<noteq> 0" "\<forall>e \<in> set tr. \<exists>v. e = R8 lsr v"
    by (auto simp: polled_def)
  moreover from assms have "ram s' = ram s" by (simp add: polled_def)
  ultimately show ?thesis unfolding polled_def
    by (intro conjI exI [of _ "Suc n"] exI [of _ "R8 lsr v # tr"] exI [of _ w]) auto
qed

lemma lsr_wait_polled: "ifret (spin (lsr_busy env lsr) s) (polled lsr env s)"
proof (rule ifretI)
  fix s' assume some: "spin (lsr_busy env lsr) s = Some s'"
  show "polled lsr env s s'"
  proof (rule spin.raw_induct [where P = "\<lambda>cond s s'. cond = lsr_busy env lsr \<longrightarrow> polled lsr env s s'",
        OF _ some, THEN mp, OF _ refl], intro impI, goal_cases)
    case (1 f cond s s')
    then show ?case
      by (auto simp: lsr_busy_unfold split: if_splits intro: polled_again intro!: polled_once)
  qed
qed

lemma lsr_wait_returns:
  "fst (rd8 env lsr (poll lsr env n (dev s))) AND 0x20 \<noteq> 0 \<Longrightarrow> \<exists>s'. spin (lsr_busy env lsr) s = Some s'"
proof (induction n arbitrary: s)
  case 0
  then show ?case by (subst spin.simps) (simp add: lsr_busy_unfold poll_def)
next
  case (Suc n)
  let ?s1 = "s\<lparr>dev := snd (rd8 env lsr (dev s)), trace := trace s @ [R8 lsr (fst (rd8 env lsr (dev s)))]\<rparr>"
  from Suc.prems have "\<exists>s'. spin (lsr_busy env lsr) ?s1 = Some s'" by (intro Suc.IH) (simp add: poll_Suc)
  then show ?case by (subst spin.simps) (simp add: lsr_busy_unfold)
qed

lemma poll_view: "uart_quiet env view \<Longrightarrow> view (poll lsr env n d) = view d"
  by (induction n arbitrary: d) (simp_all add: poll_def uart_quiet_def)

lemma status_reads_quiet:
  "\<forall>e \<in> set tr. \<exists>v. e = R8 lsr v \<Longrightarrow> v AND 0x20 \<noteq> 0 \<Longrightarrow>
   paced thr lsr r (tr @ [R8 lsr v, W8 thr b]) \<and> writes_to thr (tr @ [R8 lsr v, W8 thr b]) = [b]"
  by (induction tr arbitrary: r) auto

lemma polled_put_port: "polled_port (polled_put env base lsr) env base lsr view"
  for env :: "'d env" and view :: "'d \<Rightarrow> 'v"
proof unfold_locales
  have put: "polled_put env base lsr b s = spin (lsr_busy env lsr) s \<bind> (\<lambda>s. Some (write_reg_u8 env base b s))" for b s
    by (simp add: polled_put_def lsr_busy_def [abs_def])
  fix b and s :: "'d cstate"
  show "ifret (polled_put env base lsr b s) (console_run base lsr [b] s)"
    unfolding put
  proof (rule ifret_bind [OF lsr_wait_polled])
    fix s1 assume "polled lsr env s s1"
    then obtain tr v where p: "trace s1 = trace s @ tr @ [R8 lsr v]" "v AND 0x20 \<noteq> 0"
      "\<forall>e \<in> set tr. \<exists>v. e = R8 lsr v" "ram s1 = ram s"
      by (auto simp: polled_def)
    let ?tr = "tr @ [R8 lsr v, W8 base b]"
    have "tx_only base lsr ?tr" using p(3) by (auto simp: tx_only_def)
    with status_reads_quiet [OF p(3,2)] p
    show "ifret (Some (write_reg_u8 env base b s1)) (console_run base lsr [b] s)"
      by (auto simp: write_reg_u8_def console_run_def intro!: exI [of _ ?tr])
  qed
  show "\<exists>s'. polled_put env base lsr b s = Some s'" if "uart_live lsr env"
  proof -
    from that obtain n where "fst (rd8 env lsr (poll lsr env n (dev s))) AND 0x20 \<noteq> 0"
      unfolding uart_live_def by blast
    from lsr_wait_returns [OF this] show ?thesis by (auto simp: put)
  qed
  show "ifret (polled_put env base lsr b s) (\<lambda>s'. view (dev s') = view (dev s))" if q: "uart_quiet env view"
    unfolding put
  proof (rule ifret_bind [OF lsr_wait_polled])
    fix s1 assume "polled lsr env s s1"
    then have "view (dev s1) = view (dev s)" by (auto simp: polled_def poll_view [OF q])
    then show "ifret (Some (write_reg_u8 env base b s1)) (\<lambda>s'. view (dev s') = view (dev s))"
      using q by (simp add: write_reg_u8_def uart_quiet_def)
  qed
qed

section \<open>Hexadecimal text\<close>

definition hex_char :: "nat \<Rightarrow> u8" where
  "hex_char n = (if n < 10 then of_nat (48 + n) else of_nat (55 + n))"

definition hex2 :: "u8 \<Rightarrow> u8 list" where
  "hex2 b = [hex_char (unat b div 16), hex_char (unat b mod 16)]"

text \<open>The low \<open>n\<close> bytes of a word, most significant first, two digits each.\<close>

primrec hex_be :: "nat \<Rightarrow> 'a::len word \<Rightarrow> u8 list" where
  "hex_be 0 w = []"
| "hex_be (Suc n) w = hex2 (ucast (drop_bit (8 * n) w)) @ hex_be n w"

definition digit_val :: "u8 \<Rightarrow> nat" where
  "digit_val c = (if unat c < 58 then unat c - 48 else unat c - 55)"

definition parse_radix :: "nat \<Rightarrow> u8 list \<Rightarrow> nat" where
  "parse_radix r cs = foldl (\<lambda>n c. r * n + digit_val c) 0 cs"

lemma length_hex_be [simp]: "length (hex_be n w) = 2 * n"
  by (induction n) (simp_all add: hex2_def)

lemma digit_val_hex_char: "n < 16 \<Longrightarrow> digit_val (hex_char n) = n"
  by (auto simp: digit_val_def hex_char_def unat_of_nat simp del: of_nat_add)

lemma parse_radix_append:
  "parse_radix r (xs @ ys) = parse_radix r xs * r ^ length ys + parse_radix r ys"
proof (induction ys rule: rev_induct)
  case Nil
  show ?case by (simp add: parse_radix_def)
next
  case (snoc y ys)
  then show ?case by (simp add: parse_radix_def algebra_simps flip: append_assoc)
qed

lemma parse_hex2: "parse_radix 16 (hex2 b) = unat b"
proof -
  have "unat b < 256" using unsigned_less [of b, where 'a = nat] by simp
  then show ?thesis by (simp add: parse_radix_def hex2_def digit_val_hex_char)
qed

lemma parse_hex_be: "parse_radix 16 (hex_be n w) = unat w mod 256 ^ n"
proof (induction n)
  case 0
  show ?case by (simp add: parse_radix_def)
next
  case (Suc n)
  have "unat (ucast (drop_bit (8 * n) w) :: u8) = unat w div 256 ^ n mod 256"
    by (simp add: unsigned_ucast_eq unsigned_drop_bit_eq)
      (simp add: take_bit_eq_mod drop_bit_eq_div power_mult)
  moreover have "(16::nat) ^ (2 * n) = 256 ^ n" by (simp add: power_mult)
  ultimately have "parse_radix 16 (hex_be (Suc n) w)
      = unat w div 256 ^ n mod 256 * 256 ^ n + unat w mod 256 ^ n"
    using Suc by (simp add: parse_radix_append parse_hex2)
  also have "\<dots> = unat w mod (256 ^ n * 256)"
    by (simp add: mod_mult2_eq)
  finally show ?case by (simp add: mult.commute)
qed

text \<open>A full-width dump loses nothing.\<close>

lemma parse_hex_be_full: "unat w < 256 ^ n \<Longrightarrow> parse_radix 16 (hex_be n w) = unat w"
  by (simp add: parse_hex_be)

end
