(* ===== verification/Bench.thy ===== *)
theory Bench
  imports Console_Spec
begin

text \<open>
  A concrete board to evaluate the model on: a UART that is always ready, an SPI master that
  shifts one byte while the core executes a \<open>nop\<close> or waits for the bus, unless bit 8 of its
  control register inhibits it, and behind it a card with state \<open>'c\<close> that answers each byte by
  a function \<open>exch\<close>. It shows that the assumptions the contracts make about the devices can be
  met. \<open>script_exch\<close> is the simplest card: it plays back a list of answers and then stays at
  \<open>0xFF\<close>.
\<close>

record 'c bench =
  b_sel :: bool
  b_inh :: bool
  b_tx :: "u8 list"
  b_rx :: "u8 list"
  b_card :: 'c

definition bench_tick :: "(u8 \<Rightarrow> 'c \<Rightarrow> u8 \<times> 'c) \<Rightarrow> 'c bench \<Rightarrow> 'c bench" where
  "bench_tick exch d =
     (case b_tx d of
        [] \<Rightarrow> d
      | b # bs \<Rightarrow>
          if b_inh d \<or> \<not> b_sel d then d
          else d\<lparr>b_tx := bs, b_rx := b_rx d @ [fst (exch b (b_card d))], b_card := snd (exch b (b_card d))\<rparr>)"

definition bench_wr32 ::
    "(u8 \<Rightarrow> 'c \<Rightarrow> u8 \<times> 'c) \<Rightarrow> addr \<Rightarrow> u32 \<Rightarrow> 'c bench \<Rightarrow> 'c bench" where
  "bench_wr32 exch a v d =
     (if a = 0x20000040 \<and> v = 0x0a then d\<lparr>b_sel := False, b_inh := True, b_tx := [], b_rx := []\<rparr>
      else if a = 0x20000070 then d\<lparr>b_sel := \<not> bit v 0\<rparr>
      else if a = 0x20000060 then
        d\<lparr>b_inh := bit v 8, b_tx := (if bit v 5 then [] else b_tx d), b_rx := (if bit v 6 then [] else b_rx d)\<rparr>
      else if a = 0x20000068 then
        (let d = bench_tick exch d in d\<lparr>b_tx := b_tx d @ [ucast v]\<rparr>)
      else d)"

definition bench_rd32 :: "addr \<Rightarrow> 'c bench \<Rightarrow> u32 \<times> 'c bench" where
  "bench_rd32 a d =
     (if a = 0x20000064 then (if b_rx d = [] then 1 else 0, d)
      else if a = 0x2000006c then
        (case b_rx d of [] \<Rightarrow> (0, d) | r # rs \<Rightarrow> (ucast r, d\<lparr>b_rx := rs\<rparr>))
      else (0, d))"

definition bench_env :: "(u8 \<Rightarrow> 'c \<Rightarrow> u8 \<times> 'c) \<Rightarrow> 'c bench env" where
  "bench_env exch = \<lparr>rd8 = (\<lambda>a d. (0x60, d)), wr8 = (\<lambda>a v d. d),
     rd32 = bench_rd32, wr32 = bench_wr32 exch, nop = bench_tick exch\<rparr>"

fun script_exch :: "u8 \<Rightarrow> u8 list \<Rightarrow> u8 \<times> u8 list" where
  "script_exch b [] = (0xFF, [])"
| "script_exch b (r # rs) = (r, rs)"

definition bench_dev :: "'c \<Rightarrow> 'c bench" where
  "bench_dev c = \<lparr>b_sel = False, b_inh = False, b_tx = [], b_rx = [], b_card = c\<rparr>"

definition bench_state :: "'c \<Rightarrow> 'c bench cstate" where
  "bench_state c = \<lparr>ram = (\<lambda>_. 0), dev = bench_dev c, trace = []\<rparr>"

lemma bench_env_sel [simp]:
  "rd8 (bench_env exch) a d = (0x60, d)" "wr8 (bench_env exch) a v d = d"
  "rd32 (bench_env exch) = bench_rd32" "wr32 (bench_env exch) = bench_wr32 exch"
  "nop (bench_env exch) = bench_tick exch"
  by (simp_all add: bench_env_def)

lemma bench_uart_live: "uart_live lsr (bench_env exch)"
  by (simp add: uart_live_def)

lemma bench_uart_quiet: "uart_quiet (bench_env exch) view"
  by (simp add: uart_quiet_def)

lemma bench_console_ok: "console_ok base stride lsr (bench_env exch) view (bench_state c)"
  by (simp add: console_ok_def bench_uart_live bench_uart_quiet bench_state_def uart_reset_def dlab_def)

end
