(* ===== verification/Uart.thy ===== *)
theory Uart
  imports Bench
begin

text \<open>
  \<open>corev_apu/fpga/src/bootrom/src/uart.c\<close> and \<open>uart.h\<close>: the polled driver of the
  16550-compatible UART of the FPGA SoC and the text output built on it. Registers are
  four bytes apart at \<open>UART_BASE\<close>. Every printing function is shown equal to an
  \<open>emit\<close> of the bytes it prints through \<open>write_serial\<close>.
\<close>

section \<open>Registers\<close>

definition UART_BASE :: addr where [reg_defs]: "UART_BASE = 0x10000000"
definition UART_THR :: addr where [reg_defs]: "UART_THR = UART_BASE + 0"
definition UART_INTERRUPT_ENABLE :: addr where [reg_defs]: "UART_INTERRUPT_ENABLE = UART_BASE + 4"
definition UART_FIFO_CONTROL :: addr where [reg_defs]: "UART_FIFO_CONTROL = UART_BASE + 8"
definition UART_LINE_CONTROL :: addr where [reg_defs]: "UART_LINE_CONTROL = UART_BASE + 12"
definition UART_MODEM_CONTROL :: addr where [reg_defs]: "UART_MODEM_CONTROL = UART_BASE + 16"
definition UART_LINE_STATUS :: addr where [reg_defs]: "UART_LINE_STATUS = UART_BASE + 20"
definition UART_DLAB_LSB :: addr where [reg_defs]: "UART_DLAB_LSB = UART_BASE + 0"
definition UART_DLAB_MSB :: addr where [reg_defs]: "UART_DLAB_MSB = UART_BASE + 4"

lemma UART_THR_base [simp]: "UART_THR = UART_BASE" "UART_DLAB_LSB = UART_BASE"
  by (simp_all add: UART_THR_def UART_DLAB_LSB_def)

section \<open>The transmitter\<close>

text \<open>The result is an \<open>int\<close>.\<close>

definition is_transmit_empty :: "'d env \<Rightarrow> 'd cstate \<Rightarrow> u32 \<times> 'd cstate" where
  "is_transmit_empty env s =
     (let (v, s) = read_reg_u8 env UART_LINE_STATUS s in (ucast v AND 0x20, s))"

text \<open>\<open>while (is_transmit_empty() == 0) {};\<close>\<close>

definition wait_transmit_empty :: "'d env \<Rightarrow> 'd cstate \<Rightarrow> 'd cstate option" where
  "wait_transmit_empty env =
     spin (\<lambda>s. let (v, s) = is_transmit_empty env s in (v = 0, s))"

text \<open>\<open>char\<close> is unsigned on RISC-V.\<close>

definition write_serial :: "'d env \<Rightarrow> u8 \<Rightarrow> 'd cstate \<Rightarrow> 'd cstate option" where
  "write_serial env a s = do {
     s \<leftarrow> wait_transmit_empty env s;
     Some (write_reg_u8 env UART_THR a s)
   }"

text \<open>Dividing by zero is undefined in C; there the model does not return.\<close>

definition init_uart :: "'d env \<Rightarrow> u32 \<Rightarrow> u32 \<Rightarrow> 'd cstate \<Rightarrow> 'd cstate option" where
  "init_uart env freq baud s =
     (if push_bit 4 baud = 0 then None
      else
        (let divisor = freq div push_bit 4 baud;
             s = write_reg_u8 env UART_INTERRUPT_ENABLE 0x00 s;
             s = write_reg_u8 env UART_LINE_CONTROL 0x80 s;
             s = write_reg_u8 env UART_DLAB_LSB (ucast divisor) s;
             s = write_reg_u8 env UART_DLAB_MSB (ucast (drop_bit 8 divisor AND 0xFF)) s;
             s = write_reg_u8 env UART_LINE_CONTROL 0x03 s;
             s = write_reg_u8 env UART_FIFO_CONTROL 0xC7 s;
             s = write_reg_u8 env UART_MODEM_CONTROL 0x20 s
         in Some s))"

section \<open>Text output\<close>

fun print_uart :: "'d env \<Rightarrow> string \<Rightarrow> 'd cstate \<Rightarrow> 'd cstate option" where
  "print_uart env [] s = Some s"
| "print_uart env (cur # rest) s =
     (if cur \<noteq> CHR 0x00 then do {
        s \<leftarrow> write_serial env (of_char cur) s;
        print_uart env rest s
      } else Some s)"

definition bin_to_hex_table :: "u8 list" where
  "bin_to_hex_table = map of_char ''0123456789ABCDEF''"

text \<open>The pair \<open>(res[0], res[1])\<close>.\<close>

definition bin_to_hex :: "u8 \<Rightarrow> u8 \<times> u8" where
  "bin_to_hex inp =
     (bin_to_hex_table ! unat (drop_bit 4 inp AND 0xf), bin_to_hex_table ! unat (inp AND 0xf))"

definition print_uart_byte :: "'d env \<Rightarrow> u8 \<Rightarrow> 'd cstate \<Rightarrow> 'd cstate option" where
  "print_uart_byte env byte s =
     (let (hex0, hex1) = bin_to_hex byte in do {
        s \<leftarrow> write_serial env hex0 s;
        write_serial env hex1 s
      })"

text \<open>\<open>for (i = 3; i > -1; i--)\<close>: the argument is \<open>i + 1\<close>.\<close>

primrec print_uart_int_loop :: "'d env \<Rightarrow> u32 \<Rightarrow> nat \<Rightarrow> 'd cstate \<Rightarrow> 'd cstate option" where
  "print_uart_int_loop env addr 0 s = Some s"
| "print_uart_int_loop env addr (Suc i) s =
     (let cur = ucast (drop_bit (i * 8) addr AND 0xff); (hex0, hex1) = bin_to_hex cur in do {
        s \<leftarrow> write_serial env hex0 s;
        s \<leftarrow> write_serial env hex1 s;
        print_uart_int_loop env addr i s
      })"

definition print_uart_int :: "'d env \<Rightarrow> u32 \<Rightarrow> 'd cstate \<Rightarrow> 'd cstate option" where
  "print_uart_int env addr s = print_uart_int_loop env addr 4 s"

primrec print_uart_addr_loop :: "'d env \<Rightarrow> u64 \<Rightarrow> nat \<Rightarrow> 'd cstate \<Rightarrow> 'd cstate option" where
  "print_uart_addr_loop env addr 0 s = Some s"
| "print_uart_addr_loop env addr (Suc i) s =
     (let cur = ucast (drop_bit (i * 8) addr AND 0xff); (hex0, hex1) = bin_to_hex cur in do {
        s \<leftarrow> write_serial env hex0 s;
        s \<leftarrow> write_serial env hex1 s;
        print_uart_addr_loop env addr i s
      })"

definition print_uart_addr :: "'d env \<Rightarrow> u64 \<Rightarrow> 'd cstate \<Rightarrow> 'd cstate option" where
  "print_uart_addr env addr s = print_uart_addr_loop env addr 8 s"

section \<open>The driver is a polled port\<close>

lemma write_serial_put: "write_serial env = polled_put env UART_BASE UART_LINE_STATUS"
  unfolding polled_put_def write_serial_def [abs_def] wait_transmit_empty_def is_transmit_empty_def [abs_def]
  by (simp add: split_beta Let_def)

interpretation fpga: polled_port "write_serial env" env UART_BASE 4 UART_LINE_STATUS view
  for env :: "'d env" and view :: "'d \<Rightarrow> 'v"
  unfolding write_serial_put by (rule polled_put_port)

section \<open>Printing is emitting\<close>

lemma print_uart_emit: "print_uart env str s = emit (write_serial env) (cstr_bytes str) s"
  by (induction env str s rule: print_uart.induct)
    (auto simp: cstr_bytes_simps intro!: Option.bind_cong)

lemma bin_to_hex_table_nth: "n < 16 \<Longrightarrow> bin_to_hex_table ! n = hex_char n"
proof -
  have "\<forall>n \<in> set [0..<16]. bin_to_hex_table ! n = hex_char n" by code_simp
  then show "n < 16 \<Longrightarrow> bin_to_hex_table ! n = hex_char n" by simp
qed

lemma low_nibble: "unat (b AND 0xf) = unat b mod 16" for b :: u8
proof -
  have "b AND 0xf = take_bit 4 b" by (simp add: take_bit_eq_mask mask_eq_exp_minus_1)
  then have "unat (b AND 0xf) = take_bit 4 (unat b)" by (simp only: unsigned_take_bit_eq)
  then show ?thesis by (simp add: take_bit_eq_mod)
qed

lemma high_nibble: "unat (drop_bit 4 b AND 0xf) = unat b div 16" for b :: u8
proof -
  have b: "unat b < 256" using unsigned_less [of b, where 'a = nat] by simp
  then have "take_bit 8 (unat b) = unat b" by (simp add: take_bit_nat_eq_self)
  then have "unat (drop_bit 4 b) = unat b div 16"
    by (simp only: unsigned_drop_bit_eq) (simp add: drop_bit_eq_div)
  with b show ?thesis by (simp add: low_nibble)
qed

lemma bin_to_hex_eq: "bin_to_hex b = (hex_char (unat b div 16), hex_char (unat b mod 16))"
proof -
  have "unat b < 256" using unsigned_less [of b, where 'a = nat] by simp
  then show ?thesis
    unfolding bin_to_hex_def high_nibble unfolding low_nibble by (simp add: bin_to_hex_table_nth)
qed

lemma print_uart_byte_emit: "print_uart_byte env b s = emit (write_serial env) (hex2 b) s"
  by (simp add: print_uart_byte_def bin_to_hex_eq hex2_def cong: Option.bind_cong)

lemma ucast_and_0xff: "ucast (w AND 0xff) = (ucast w :: u8)" for w :: "'a::len word"
proof -
  have "w AND 0xff = take_bit 8 w" by (simp add: take_bit_eq_mask mask_numeral)
  then show ?thesis by (auto intro!: bit_word_eqI simp: bit_simps dest: bit_imp_le_length)
qed

lemma print_uart_int_emit: "print_uart_int env w s = emit (write_serial env) (hex_be 4 w) s"
proof -
  have "print_uart_int_loop env w n s = emit (write_serial env) (hex_be n w) s" for n
    by (induction n arbitrary: s)
      (simp_all add: ucast_and_0xff bin_to_hex_eq hex2_def Let_def mult.commute cong: Option.bind_cong)
  then show ?thesis by (simp only: print_uart_int_def)
qed

lemma print_uart_addr_emit: "print_uart_addr env w s = emit (write_serial env) (hex_be 8 w) s"
proof -
  have "print_uart_addr_loop env w n s = emit (write_serial env) (hex_be n w) s" for n
    by (induction n arbitrary: s)
      (simp_all add: ucast_and_0xff bin_to_hex_eq hex2_def Let_def mult.commute cong: Option.bind_cong)
  then show ?thesis by (simp only: print_uart_addr_def)
qed

lemmas print_emit = print_uart_emit print_uart_byte_emit print_uart_int_emit print_uart_addr_emit

section \<open>Properties\<close>

abbreviation console :: "'d cstate \<Rightarrow> uart16550" where
  "console s \<equiv> uart_of UART_BASE 4 (trace s)"

abbreviation uart_ready :: "'d env \<Rightarrow> ('d \<Rightarrow> 'v) \<Rightarrow> 'd cstate \<Rightarrow> bool" where
  "uart_ready env view \<equiv> console_ok UART_BASE 4 UART_LINE_STATUS env view"

lemma init_uart_trace:
  assumes "push_bit 4 baud \<noteq> 0"
  shows "tw (init_uart env freq baud s) (\<lambda>s'. ram s' = ram s \<and> trace s' = trace s @
     [W8 UART_INTERRUPT_ENABLE 0, W8 UART_LINE_CONTROL 0x80,
      W8 UART_DLAB_LSB (ucast (freq div push_bit 4 baud)),
      W8 UART_DLAB_MSB (ucast (drop_bit 8 (freq div push_bit 4 baud))),
      W8 UART_LINE_CONTROL 3, W8 UART_FIFO_CONTROL 0xC7, W8 UART_MODEM_CONTROL 0x20])"
  using assms by (simp add: init_uart_def Let_def write_reg_u8_def ucast_and_0xff)

lemma init_uart_view:
  assumes "uart_quiet env view"
  shows "ifret (init_uart env freq baud s) (\<lambda>s'. view (dev s') = view (dev s))"
  using assms by (simp add: init_uart_def Let_def write_reg_u8_def uart_quiet_def)

lemma unat_push_bit_4: "16 * unat w < 2 ^ 32 \<Longrightarrow> unat (push_bit 4 w) = 16 * unat w" for w :: u32
  by (simp only: unsigned_push_bit_eq) (simp add: push_bit_eq_mult mult.commute take_bit_nat_eq_self)

lemma bytes_of_divisor:
  "unat (ucast w :: u8) + 256 * unat (ucast (drop_bit 8 w) :: u8) = unat w mod 65536" for w :: u32
proof -
  have "unat (ucast w :: u8) = unat w mod 256"
    by (simp add: unsigned_ucast_eq take_bit_eq_mod)
  moreover have "unat (ucast (drop_bit 8 w) :: u8) = unat w div 256 mod 256"
    using unsigned_less [of w, where 'a = nat]
    by (simp add: unsigned_ucast_eq unsigned_drop_bit_eq) (simp add: take_bit_eq_mod drop_bit_eq_div)
  moreover have "unat w mod 65536 = 256 * (unat w div 256 mod 256) + unat w mod 256"
    using mod_mult2_eq [of "unat w" 256 256] by simp
  ultimately show ?thesis by simp
qed

text \<open>
  \<open>init_uart\<close> on a UART whose divisor latch is not selected leaves it in
  8-bit mode without parity, with interrupts off, the FIFOs enabled, autoflow on, the
  latch deselected again and loaded with \<open>freq / (16 * baud)\<close> (its low 16 bits), and sends
  nothing. The hypotheses are that sixteen times the baud rate is not zero and does not
  overflow 32 bits.
\<close>

theorem init_uart_config:
  assumes "baud \<noteq> 0" and "16 * unat baud < 2 ^ 32" and "\<not> dlab (console s)"
  shows "tw (init_uart env freq baud s) (\<lambda>s'.
    lcr (console s') = 3 \<and> \<not> dlab (console s') \<and> ier (console s') = 0 \<and>
    fcr (console s') = 0xC7 \<and> mcr (console s') = 0x20 \<and>
    unat (dll (console s')) + 256 * unat (dlm (console s'))
      = unat freq div (16 * unat baud) mod 65536 \<and>
    sent (console s') = sent (console s) \<and> ram s' = ram s)"
proof -
  have "unat baud \<noteq> 0" using assms(1) by (simp add: unat_eq_zero)
  then have "unat (push_bit 4 baud) \<noteq> 0" using unat_push_bit_4 [OF assms(2)] by simp
  then have nz: "push_bit 4 baud \<noteq> 0" by (auto simp only: unsigned_0)
  have d: "unat freq div (16 * unat baud) = unat (freq div push_bit 4 baud)"
    using unat_push_bit_4 [OF assms(2)] by (simp add: unat_div)
  have "\<not> bit (3 :: u8) 7" "bit (0x80 :: u8) 7" by simp_all
  then show ?thesis
    using assms(3)
    by (intro tw_weaken [OF init_uart_trace [OF nz]])
      (auto simp: uart_write_def dlab_def d bytes_of_divisor [symmetric] reg_defs)
qed

theorem init_uart_config_witness:
  "tw (init_uart (bench_env script_exch) 50000000 115200 (bench_state [])) (\<lambda>s'.
    lcr (console s') = 3 \<and> \<not> dlab (console s') \<and> ier (console s') = 0 \<and>
    fcr (console s') = 0xC7 \<and> mcr (console s') = 0x20 \<and>
    unat (dll (console s')) + 256 * unat (dlm (console s'))
      = unat (50000000 :: u32) div (16 * unat (115200 :: u32)) mod 65536 \<and>
    sent (console s') = sent (console (bench_state [] :: u8 list bench cstate)) \<and>
    ram s' = ram (bench_state [] :: u8 list bench cstate))"
  by (rule init_uart_config) (simp_all add: bench_state_def uart_reset_def dlab_def)

text \<open>
  With a UART that keeps becoming ready, \<open>print_uart\<close> returns, and it has sent
  exactly the bytes of the string up to its terminator, in order, without touching memory
  or the other devices.
\<close>

theorem print_uart_sends:
  assumes "uart_ready env view s"
  shows "tw (print_uart env str s) (\<lambda>s'. sent (console s') = sent (console s) @ cstr_bytes str \<and>
     ram s' = ram s \<and> view (dev s') = view (dev s) \<and> uart_ready env view s')"
  unfolding print_uart_emit
  by (rule tw_weaken [OF fpga.emit_total [OF assms]]) auto

theorem print_uart_sends_witness:
  "tw (print_uart (bench_env script_exch) (''ok'' @ [CHR 0x00] @ ''no'') (bench_state []))
     (\<lambda>s'. sent (console s') = sent (console (bench_state [] :: u8 list bench cstate)) @
         cstr_bytes (''ok'' @ [CHR 0x00] @ ''no'') \<and>
       ram s' = ram (bench_state [] :: u8 list bench cstate) \<and>
       b_card (dev s') = b_card (dev (bench_state [] :: u8 list bench cstate)) \<and>
       uart_ready (bench_env script_exch) b_card s') \<and>
   cstr_bytes (''ok'' @ [CHR 0x00] @ ''no'') = [0x6f, 0x6b]"
  using print_uart_sends [OF bench_console_ok, where str = "''ok'' @ [CHR 0x00] @ ''no''"]
  by (simp add: cstr_bytes_simps)

text \<open>
  Claim C32: whatever the devices do, a print that returns has written to the transmit
  register exactly the bytes it was given, each one right after a read of the line status
  register that showed the transmitter empty, and has accessed nothing else. This covers
  strings, bytes, 32-bit and 64-bit values.
\<close>

theorem printing_is_paced:
  "ifret (print_uart env str s) (console_run UART_THR UART_LINE_STATUS (cstr_bytes str) s) \<and>
   ifret (print_uart_byte env b s) (console_run UART_THR UART_LINE_STATUS (hex2 b) s) \<and>
   ifret (print_uart_int env w s) (console_run UART_THR UART_LINE_STATUS (hex_be 4 w) s) \<and>
   ifret (print_uart_addr env x s) (console_run UART_THR UART_LINE_STATUS (hex_be 8 x) s)"
  using fpga.emit_run [of env] by (simp add: print_emit)

text \<open>
  The text that \<open>print_uart_addr\<close> and \<open>print_uart_int\<close> send is sixteen,
  respectively eight, hexadecimal digits, and reading it back gives the number printed.
\<close>

theorem print_hex_roundtrip:
  assumes "uart_ready env view s"
  shows "tw (print_uart_addr env x s) (\<lambda>s'. \<exists>txt. sent (console s') = sent (console s) @ txt \<and>
      length txt = 16 \<and> parse_radix 16 txt = unat x) \<and>
    tw (print_uart_int env w s) (\<lambda>s'. \<exists>txt. sent (console s') = sent (console s) @ txt \<and>
      length txt = 8 \<and> parse_radix 16 txt = unat w)"
proof -
  have "unat x < 256 ^ 8" "unat w < 256 ^ 4"
    using unsigned_less [of x, where 'a = nat] unsigned_less [of w, where 'a = nat] by simp_all
  then show ?thesis unfolding print_emit
    by (auto intro!: tw_weaken [OF fpga.emit_total [OF assms]] simp: parse_hex_be_full)
qed

theorem print_hex_roundtrip_witness:
  "tw (print_uart_addr (bench_env script_exch) 0xBEEF (bench_state [])) (\<lambda>s'. \<exists>txt.
      sent (console s') = sent (console (bench_state [] :: u8 list bench cstate)) @ txt \<and>
      length txt = 16 \<and> parse_radix 16 txt = unat (0xBEEF :: u64)) \<and>
    tw (print_uart_int (bench_env script_exch) 7 (bench_state [])) (\<lambda>s'. \<exists>txt.
      sent (console s') = sent (console (bench_state [] :: u8 list bench cstate)) @ txt \<and>
      length txt = 8 \<and> parse_radix 16 txt = unat (7 :: u32))"
  by (rule print_hex_roundtrip [OF bench_console_ok [where view = b_card]])

end
