(* ===== verification/Spi.thy ===== *)
theory Spi
  imports Uart
begin

text \<open>
  \<open>corev_apu/fpga/src/bootrom/src/spi.c\<close> and \<open>spi.h\<close>: the driver of the AXI Quad SPI
  core. The core itself is a vendor block; what the driver relies on is stated over a view of the
  core, as \<open>quad_spi\<close> (what its registers do) and \<open>spi_timing\<close> (the delay loops are long
  enough). The driver is shown to be a \<open>byte_link\<close> to the card behind the core.
\<close>

section \<open>Registers\<close>

definition SPI_BASE :: addr where [reg_defs]: "SPI_BASE = 0x20000000"
definition SPI_RESET_REG :: addr where [reg_defs]: "SPI_RESET_REG = SPI_BASE + 0x40"
definition SPI_CONTROL_REG :: addr where [reg_defs]: "SPI_CONTROL_REG = SPI_BASE + 0x60"
definition SPI_STATUS_REG :: addr where [reg_defs]: "SPI_STATUS_REG = SPI_BASE + 0x64"
definition SPI_TRANSMIT_REG :: addr where [reg_defs]: "SPI_TRANSMIT_REG = SPI_BASE + 0x68"
definition SPI_RECEIVE_REG :: addr where [reg_defs]: "SPI_RECEIVE_REG = SPI_BASE + 0x6C"
definition SPI_SLAVE_SELECT_REG :: addr where [reg_defs]: "SPI_SLAVE_SELECT_REG = SPI_BASE + 0x70"

section \<open>Operations\<close>

definition write_reg :: "'d env \<Rightarrow> addr \<Rightarrow> u32 \<Rightarrow> 'd cstate \<Rightarrow> 'd cstate" where
  "write_reg env addr value s =
     s\<lparr>dev := wr32 env addr value (dev s), trace := trace s @ [W32 addr value]\<rparr>"

definition read_reg :: "'d env \<Rightarrow> addr \<Rightarrow> 'd cstate \<Rightarrow> u32 \<times> 'd cstate" where
  "read_reg env addr s =
     (let (v, d) = rd32 env addr (dev s) in (v, s\<lparr>dev := d, trace := trace s @ [R32 addr v]\<rparr>))"

text \<open>
  The loops of \<open>nop\<close> instructions only let time pass: the program's state stays as it is, the devices
  go on.
\<close>

definition nops :: "'d env \<Rightarrow> nat \<Rightarrow> 'd cstate \<Rightarrow> 'd cstate" where
  "nops env n s = s\<lparr>dev := (nop env ^^ n) (dev s)\<rparr>"

definition spi_init :: "'d env \<Rightarrow> 'd cstate \<Rightarrow> 'd cstate option" where
  "spi_init env s = do {
     s \<leftarrow> print_uart env (''init SPI'' @ CRLF) s;
     let s = write_reg env SPI_RESET_REG 0x0a s;
     let s = nops env 10 s;
     let s = write_reg env SPI_CONTROL_REG 0x104 s;
     let (status, s) = read_reg env SPI_STATUS_REG s;
     s \<leftarrow> print_uart env ''status: 0x'' s;
     s \<leftarrow> print_uart_addr env (ucast status) s;
     s \<leftarrow> print_uart env CRLF s;
     let s = write_reg env SPI_CONTROL_REG 0x166 s;
     let (status, s) = read_reg env SPI_STATUS_REG s;
     s \<leftarrow> print_uart env ''status: 0x'' s;
     s \<leftarrow> print_uart_addr env (ucast status) s;
     s \<leftarrow> print_uart env CRLF s;
     let s = write_reg env SPI_CONTROL_REG 0x06 s;
     print_uart env (''SPI initialized!'' @ CRLF) s
   }"

text \<open>Reading the status register until the receive FIFO is not empty.\<close>

partial_function (option) spi_wait_rx :: "'d env \<Rightarrow> 'd cstate \<Rightarrow> 'd cstate option" where
  "spi_wait_rx env s =
     (let (status, s') = read_reg env SPI_STATUS_REG s in
      if status AND 0x1 = 0x1 then spi_wait_rx env s' else Some s')"

definition spi_txrx :: "'d env \<Rightarrow> u8 \<Rightarrow> 'd cstate \<Rightarrow> (u8 \<times> 'd cstate) option" where
  "spi_txrx env byte s = do {
     let s = write_reg env SPI_SLAVE_SELECT_REG 0xfffffffe s;
     let s = write_reg env SPI_TRANSMIT_REG (ucast byte) s;
     let s = nops env 100 s;
     let s = write_reg env SPI_CONTROL_REG 0x106 s;
     s \<leftarrow> spi_wait_rx env s;
     let (result, s) = read_reg env SPI_RECEIVE_REG s;
     let (status, s) = read_reg env SPI_STATUS_REG s;
     s \<leftarrow> (if status AND 0x1 \<noteq> 0x1 then do {
             s \<leftarrow> print_uart env ''rx fifo not empty?? '' s;
             let (status, s) = read_reg env SPI_STATUS_REG s;
             s \<leftarrow> print_uart_addr env (ucast status) s;
             print_uart env CRLF s
           } else Some s);
     let s = write_reg env SPI_SLAVE_SELECT_REG 0xffffffff s;
     let s = write_reg env SPI_CONTROL_REG 0x06 s;
     Some (ucast result, s)
   }"

text \<open>\<open>for (int i = 0; i < len; i++)\<close> over the transmit register.\<close>

function spi_tx_loop :: "'d env \<Rightarrow> addr \<Rightarrow> nat \<Rightarrow> nat \<Rightarrow> 'd cstate \<Rightarrow> 'd cstate" where
  "spi_tx_loop env bytes i len s =
     (if i < len then
        spi_tx_loop env bytes (i + 1) len
          (write_reg env SPI_TRANSMIT_REG (ucast (ram s (bytes + of_nat i)) AND 0xff) s)
      else s)"
  by pat_completeness auto
termination
  by (relation "measure (\<lambda>(env, bytes, i, len, s). len - i)") auto

text \<open>\<open>for (int i = 0; i < len;)\<close>: \<open>i\<close> advances only when the FIFO had a byte.\<close>

partial_function (option) spi_rx_loop ::
    "'d env \<Rightarrow> addr \<Rightarrow> nat \<Rightarrow> nat \<Rightarrow> 'd cstate \<Rightarrow> 'd cstate option" where
  "spi_rx_loop env ret i len s =
     (if i < len then
        (let (status, s) = read_reg env SPI_STATUS_REG s in
         if status AND 0x1 \<noteq> 0x1 then
           (let (v, s) = read_reg env SPI_RECEIVE_REG s in
            spi_rx_loop env ret (i + 1) len (s\<lparr>ram := (ram s)(ret + of_nat i := ucast v)\<rparr>))
         else spi_rx_loop env ret i len s)
      else Some s)"

definition spi_write_bytes ::
    "'d env \<Rightarrow> addr \<Rightarrow> u32 \<Rightarrow> addr \<Rightarrow> 'd cstate \<Rightarrow> (int \<times> 'd cstate) option" where
  "spi_write_bytes env bytes len ret s =
     (if len > 256 then Some (- 1, s)
      else do {
        let s = write_reg env SPI_SLAVE_SELECT_REG 0xfffffffe s;
        let s = spi_tx_loop env bytes 0 (unat len) s;
        let s = nops env 50 s;
        let s = write_reg env SPI_CONTROL_REG 0x106 s;
        s \<leftarrow> spi_wait_rx env s;
        s \<leftarrow> spi_rx_loop env ret 0 (unat len) s;
        let s = write_reg env SPI_SLAVE_SELECT_REG 0xffffffff s;
        let s = write_reg env SPI_CONTROL_REG 0x06 s;
        Some (0, s)
      })"

declare spi_tx_loop.simps [simp del]

section \<open>What the driver relies on\<close>

text \<open>
  A view of the SPI core: whether the card is selected (\<open>vsel\<close>), whether the master is
  inhibited (\<open>vinh\<close>, bit 8 of the control register), the bytes that wait in the transmit FIFO or
  are being shifted (\<open>vtx\<close>), the answers in the receive FIFO (\<open>vrx\<close>), and the card (\<open>vcard\<close>).
  \<open>spi_part\<close> is what the core comes to once every byte of \<open>vtx\<close> has been exchanged: it stays the
  same while a transfer proceeds.
\<close>

record ('d, 'c) spi_view =
  vsel :: "'d \<Rightarrow> bool"
  vinh :: "'d \<Rightarrow> bool"
  vtx :: "'d \<Rightarrow> u8 list"
  vrx :: "'d \<Rightarrow> u8 list"
  vcard :: "'d \<Rightarrow> 'c"

definition spi_core :: "('d, 'c) spi_view \<Rightarrow> 'd \<Rightarrow> bool \<times> bool \<times> u8 list \<times> u8 list \<times> 'c" where
  "spi_core V d = (vsel V d, vinh V d, vtx V d, vrx V d, vcard V d)"

definition spi_part ::
    "('d, 'c) spi_view \<Rightarrow> (u8 \<Rightarrow> 'c \<Rightarrow> u8 \<times> 'c) \<Rightarrow> 'd \<Rightarrow> bool \<times> bool \<times> u8 list \<times> 'c" where
  "spi_part V exch d =
     (let (answers, c) = xchg exch (vtx V d) (vcard V d) in (vsel V d, vinh V d, vrx V d @ answers, c))"

definition spi_idle :: "('d, 'c) spi_view \<Rightarrow> 'd \<Rightarrow> bool" where
  "spi_idle V d \<longleftrightarrow> vtx V d = [] \<and> vrx V d = []"

text \<open>
  What the product guide of the core documents and the driver relies on. The software reset
  empties both FIFOs, deselects the card and leaves the master inhibited. With nothing left to
  send, a write to the slave select register selects or deselects the card, and a write to the
  control register sets the inhibit bit to its bit 8 and empties the receive FIFO if its bit 6 is
  set. A byte written to the transmit FIFO (depth 256) while the card is selected and the
  master is not inhibited is exchanged with the card after those before it; time that
  passes in a \<open>nop\<close> only lets a transfer proceed. With nothing left to send, bit 0 of the status
  register says that the receive FIFO is empty, and the receive register takes the first answer.
  Nothing is said of setting the inhibit bit while bytes are still being sent, which the guide calls
  unpredictable.
\<close>

definition quad_spi :: "'d env \<Rightarrow> ('d, 'c) spi_view \<Rightarrow> (u8 \<Rightarrow> 'c \<Rightarrow> u8 \<times> 'c) \<Rightarrow> bool" where
  "quad_spi env V exch \<longleftrightarrow>
     (\<forall>d. \<exists>c. spi_core V (wr32 env SPI_RESET_REG 0x0a d) = (False, True, [], [], c) \<and>
        (vtx V d = [] \<longrightarrow> c = vcard V d)) \<and>
     (\<forall>d v. v \<in> {0xfffffffe, 0xffffffff} \<longrightarrow> vtx V d = [] \<longrightarrow>
        spi_core V (wr32 env SPI_SLAVE_SELECT_REG v d) = (v = 0xfffffffe, vinh V d, [], vrx V d, vcard V d)) \<and>
     (\<forall>d v. v \<in> {0x104, 0x166, 0x106, 0x06} \<longrightarrow> vtx V d = [] \<longrightarrow>
        spi_core V (wr32 env SPI_CONTROL_REG v d) =
          (vsel V d, bit v 8, [], (if bit v 6 then [] else vrx V d), vcard V d)) \<and>
     (\<forall>d v. vsel V d \<longrightarrow> \<not> vinh V d \<longrightarrow> length (vtx V d) + length (vrx V d) < 256 \<longrightarrow>
        spi_part V exch (wr32 env SPI_TRANSMIT_REG v d) =
          (let (sel, inh, q, c) = spi_part V exch d; (r, c) = exch (ucast v) c in (sel, inh, q @ [r], c))) \<and>
     (\<forall>d. spi_part V exch (nop env d) = spi_part V exch d) \<and>
     (\<forall>d. vtx V d = [] \<longrightarrow> spi_core V (snd (rd32 env SPI_STATUS_REG d)) = spi_core V d \<and>
        (fst (rd32 env SPI_STATUS_REG d) AND 1 = 1 \<longleftrightarrow> vrx V d = [])) \<and>
     (\<forall>d r rs. vtx V d = [] \<longrightarrow> vrx V d = r # rs \<longrightarrow>
        fst (rd32 env SPI_RECEIVE_REG d) = ucast r \<and>
        spi_core V (snd (rd32 env SPI_RECEIVE_REG d)) = (vsel V d, vinh V d, [], rs, vcard V d))"

text \<open>
  The driver sets the inhibit bit after a delay without looking whether the transfer is over, so it
  also relies on the speed of the board: 100 \<open>nop\<close>s after one byte, and 50 after \<open>n\<close> bytes
  written back to back, everything has been sent. (On this board the core is built with
  \<open>c_sck_ratio: 4\<close> and clocked like the processor, 32 clock cycles for a byte.)
\<close>

definition transmit_all :: "'d env \<Rightarrow> u32 list \<Rightarrow> 'd \<Rightarrow> 'd" where
  "transmit_all env vs d = fold (wr32 env SPI_TRANSMIT_REG) vs d"

definition spi_timing :: "'d env \<Rightarrow> ('d, 'c) spi_view \<Rightarrow> nat \<Rightarrow> bool" where
  "spi_timing env V n \<longleftrightarrow>
     (\<forall>d v. vsel V d \<longrightarrow> \<not> vinh V d \<longrightarrow> spi_idle V d \<longrightarrow>
        vtx V ((nop env ^^ 100) (transmit_all env [v] d)) = []) \<and>
     (\<forall>d vs. vsel V d \<longrightarrow> \<not> vinh V d \<longrightarrow> spi_idle V d \<longrightarrow> length vs \<le> n \<longrightarrow>
        vtx V ((nop env ^^ 50) (transmit_all env vs d)) = [])"

text \<open>Between two calls the core is idle and enabled; \<open>sd.c\<close> sends blocks of 64 bytes.\<close>

definition spi_ok ::
    "'d env \<Rightarrow> ('d, 'c) spi_view \<Rightarrow> (u8 \<Rightarrow> 'c \<Rightarrow> u8 \<times> 'c) \<Rightarrow> 'd cstate \<Rightarrow> bool" where
  "spi_ok env V exch s \<longleftrightarrow>
     uart_ready env (spi_part V exch) s \<and> quad_spi env V exch \<and> spi_timing env V 64 \<and>
     spi_idle V (dev s) \<and> \<not> vinh V (dev s)"

section \<open>Consequences for single accesses\<close>

lemma read_reg_unfold:
  "read_reg env a s = (fst (rd32 env a (dev s)),
     s\<lparr>dev := snd (rd32 env a (dev s)), trace := trace s @ [R32 a (fst (rd32 env a (dev s)))]\<rparr>)"
  by (simp add: read_reg_def split_beta Let_def)

lemma write_reg_sel [simp]:
  "ram (write_reg env a v s) = ram s" "dev (write_reg env a v s) = wr32 env a v (dev s)"
  "trace (write_reg env a v s) = trace s @ [W32 a v]"
  by (simp_all add: write_reg_def)

lemma nops_sel [simp]:
  "ram (nops env n s) = ram s" "dev (nops env n s) = (nop env ^^ n) (dev s)" "trace (nops env n s) = trace s"
  by (simp_all add: nops_def)

text \<open>What the 32-bit accesses and the delays keep: memory and the console.\<close>

definition kept :: "'d cstate \<Rightarrow> (addr \<Rightarrow> u8) \<times> uart16550" where
  "kept s = (ram s, console s)"

lemma kept_write_reg [simp]: "kept (write_reg env a v s) = kept s"
  by (simp add: kept_def)

lemma kept_nops [simp]: "kept (nops env n s) = kept s"
  by (simp add: kept_def)

lemma kept_read_reg [simp]: "kept (snd (read_reg env a s)) = kept s"
  by (simp add: kept_def read_reg_unfold)

lemma kept_extend [simp]:
  "kept (s\<lparr>dev := d, trace := trace s @ [R32 a v]\<rparr>) = kept s"
  "kept (s\<lparr>dev := d, trace := trace s @ [W32 a v]\<rparr>) = kept s"
  by (simp_all add: kept_def)

lemma kept_ready: "uart_ready env view s \<Longrightarrow> kept s' = kept s \<Longrightarrow> uart_ready env view s'"
  by (simp add: console_ok_def kept_def)

lemma quad_spi_reset:
  "quad_spi env V exch \<Longrightarrow> \<exists>c. spi_core V (wr32 env SPI_RESET_REG 0x0a d) = (False, True, [], [], c) \<and>
     (vtx V d = [] \<longrightarrow> c = vcard V d)"
  unfolding quad_spi_def by blast

lemma quad_spi_select:
  "quad_spi env V exch \<Longrightarrow> v \<in> {0xfffffffe, 0xffffffff} \<Longrightarrow> vtx V d = [] \<Longrightarrow>
   spi_core V (wr32 env SPI_SLAVE_SELECT_REG v d) = (v = 0xfffffffe, vinh V d, [], vrx V d, vcard V d)"
  unfolding quad_spi_def by blast

lemma quad_spi_control:
  "quad_spi env V exch \<Longrightarrow> v \<in> {0x104, 0x166, 0x106, 0x06} \<Longrightarrow> vtx V d = [] \<Longrightarrow>
   spi_core V (wr32 env SPI_CONTROL_REG v d) =
     (vsel V d, bit v 8, [], (if bit v 6 then [] else vrx V d), vcard V d)"
  unfolding quad_spi_def by blast

lemma quad_spi_transmit:
  "quad_spi env V exch \<Longrightarrow> vsel V d \<Longrightarrow> \<not> vinh V d \<Longrightarrow> length (vtx V d) + length (vrx V d) < 256 \<Longrightarrow>
   spi_part V exch d = (sel, inh, q, c) \<Longrightarrow>
   spi_part V exch (wr32 env SPI_TRANSMIT_REG v d) =
     (sel, inh, q @ [fst (exch (ucast v) c)], snd (exch (ucast v) c))"
  unfolding quad_spi_def by (simp add: split_beta)

lemma quad_spi_nops:
  "quad_spi env V exch \<Longrightarrow> spi_part V exch ((nop env ^^ n) d) = spi_part V exch d"
  by (induction n) (simp_all add: quad_spi_def)

lemma quad_spi_status:
  assumes "quad_spi env V exch" "vtx V d = []"
  shows "spi_core V (snd (rd32 env SPI_STATUS_REG d)) = spi_core V d"
    and "fst (rd32 env SPI_STATUS_REG d) AND 1 = 1 \<longleftrightarrow> vrx V d = []"
  using assms unfolding quad_spi_def by blast+

lemma quad_spi_receive:
  assumes "quad_spi env V exch" "vtx V d = []" "vrx V d = r # rs"
  shows "fst (rd32 env SPI_RECEIVE_REG d) = ucast r"
    and "spi_core V (snd (rd32 env SPI_RECEIVE_REG d)) = (vsel V d, vinh V d, [], rs, vcard V d)"
  using assms unfolding quad_spi_def by blast+

lemma spi_coreD:
  "spi_core V d = (a, b, ts, rs, c) \<Longrightarrow>
   vsel V d = a \<and> vinh V d = b \<and> vtx V d = ts \<and> vrx V d = rs \<and> vcard V d = c"
  by (simp add: spi_core_def)

lemma spi_partD:
  "spi_part V exch d = (a, b, q, c) \<Longrightarrow>
   vsel V d = a \<and> vinh V d = b \<and> length (vtx V d) + length (vrx V d) = length q"
  by (auto simp: spi_part_def split_beta Let_def)

text \<open>Once everything is sent, the outcome is the state of the core.\<close>

lemma spi_part_sent: "vtx V d = [] \<Longrightarrow> spi_part V exch d = (vsel V d, vinh V d, vrx V d, vcard V d)"
  by (simp add: spi_part_def)

lemma spi_part_core:
  "spi_part V exch d = (a, b, q, c) \<Longrightarrow> vtx V d = [] \<Longrightarrow> spi_core V d = (a, b, [], q, c)"
  by (simp add: spi_part_sent spi_core_def)

lemma spi_core_part: "spi_core V d = (a, b, [], q, c) \<Longrightarrow> spi_part V exch d = (a, b, q, c)"
  by (simp add: spi_part_sent spi_core_def)

lemma spi_part_idle: "spi_part V exch d = (a, b, [], c) \<longleftrightarrow> spi_core V d = (a, b, [], [], c)"
  using spi_partD [of V exch d a b "[]" c] spi_part_core [of V exch d a b "[]" c] spi_core_part [of V d a b "[]" c exch]
  by auto

text \<open>So what leaves the outcome of an idle core alone leaves the core itself alone.\<close>

lemma spi_idle_keep:
  assumes "spi_part V exch d' = spi_part V exch d" "spi_idle V d"
  shows "spi_idle V d' \<and> vinh V d' = vinh V d \<and> vcard V d' = vcard V d"
proof -
  have "spi_part V exch d' = (vsel V d, vinh V d, [], vcard V d)"
    using assms by (simp add: spi_idle_def spi_part_sent)
  then show ?thesis by (auto simp: spi_part_idle spi_idle_def dest!: spi_coreD)
qed

section \<open>One byte\<close>

lemma ucast_ucast_byte [simp]: "ucast (ucast (b :: u8) :: u32) = b"
  by (rule bit_word_eqI) (auto simp: bit_simps dest: bit_imp_le_length)

lemma control_bits [simp]:
  "bit (0x104 :: u32) 8" "bit (0x166 :: u32) 8" "bit (0x106 :: u32) 8" "\<not> bit (0x06 :: u32) 8"
  "\<not> bit (0x104 :: u32) 6" "bit (0x166 :: u32) 6" "\<not> bit (0x106 :: u32) 6" "\<not> bit (0x06 :: u32) 6"
  by code_simp+

lemma spi_wait_rx_once:
  "fst (rd32 env SPI_STATUS_REG (dev s)) AND 1 \<noteq> 1 \<Longrightarrow>
   spi_wait_rx env s = Some (snd (read_reg env SPI_STATUS_REG s))"
  by (subst spi_wait_rx.simps) (simp add: read_reg_unfold)

text \<open>After the delay the byte has been sent, and inhibiting the master loses nothing.\<close>

lemma spi_send_byte:
  fixes byte :: u8
  assumes q: "quad_spi env V exch" and t: "spi_timing env V n"
    and e: "spi_idle V (dev s)" "\<not> vinh V (dev s)"
  defines "s4 \<equiv> write_reg env SPI_CONTROL_REG 0x106 (nops env 100 (write_reg env SPI_TRANSMIT_REG (ucast byte)
       (write_reg env SPI_SLAVE_SELECT_REG 0xfffffffe s)))"
  shows "spi_core V (dev s4) = (True, True, [], [fst (exch byte (vcard V (dev s)))],
       snd (exch byte (vcard V (dev s)))) \<and> kept s4 = kept s"
proof -
  let ?d1 = "wr32 env SPI_SLAVE_SELECT_REG 0xfffffffe (dev s)"
  let ?d3 = "(nop env ^^ 100) (wr32 env SPI_TRANSMIT_REG (ucast byte) ?d1)"
  have 1: "spi_core V ?d1 = (True, False, [], [], vcard V (dev s))"
    using quad_spi_select [OF q, of "0xfffffffe" "dev s"] e by (simp add: spi_idle_def)
  have "spi_part V exch ?d3 = (True, False, [fst (exch byte (vcard V (dev s)))], snd (exch byte (vcard V (dev s))))"
    using quad_spi_transmit [OF q _ _ _ spi_core_part [OF 1], of "ucast byte"] spi_coreD [OF 1]
    by (simp add: quad_spi_nops [OF q])
  moreover have "vtx V ?d3 = []"
    using t spi_coreD [OF 1] by (auto simp: spi_timing_def transmit_all_def spi_idle_def)
  ultimately have 3: "spi_core V ?d3 = (True, False, [], [fst (exch byte (vcard V (dev s)))],
      snd (exch byte (vcard V (dev s))))" by (rule spi_part_core)
  show ?thesis
    using quad_spi_control [OF q, of "0x106" ?d3] spi_coreD [OF 3] by (simp add: s4_def)
qed

lemma spi_release:
  fixes s :: "'d cstate"
  assumes q: "quad_spi env V exch" and c: "spi_core V (dev s) = (sel, inh, [], rs, c)"
  defines "s2 \<equiv> write_reg env SPI_CONTROL_REG 0x06 (write_reg env SPI_SLAVE_SELECT_REG 0xffffffff s)"
  shows "spi_core V (dev s2) = (False, False, [], rs, c) \<and> kept s2 = kept s"
proof -
  let ?d1 = "wr32 env SPI_SLAVE_SELECT_REG 0xffffffff (dev s)"
  have "spi_core V ?d1 = (False, inh, [], rs, c)"
    using quad_spi_select [OF q, of "0xffffffff" "dev s"] spi_coreD [OF c] by simp
  from spi_coreD [OF this] show ?thesis
    using quad_spi_control [OF q, of "0x06" ?d1] by (simp add: s2_def)
qed

lemma spi_exchange:
  fixes byte :: u8
  assumes q: "quad_spi env V exch" and t: "spi_timing env V n" and e: "spi_idle V (dev s)" "\<not> vinh V (dev s)"
  obtains s5 where
    "spi_wait_rx env (write_reg env SPI_CONTROL_REG 0x106 (nops env 100 (write_reg env SPI_TRANSMIT_REG (ucast byte)
       (write_reg env SPI_SLAVE_SELECT_REG 0xfffffffe s)))) = Some s5"
    "fst (read_reg env SPI_RECEIVE_REG s5) = ucast (fst (exch byte (vcard V (dev s))))"
    "fst (read_reg env SPI_STATUS_REG (snd (read_reg env SPI_RECEIVE_REG s5))) AND 1 = 1"
    "spi_core V (dev (snd (read_reg env SPI_STATUS_REG (snd (read_reg env SPI_RECEIVE_REG s5))))) =
       (True, True, [], [], snd (exch byte (vcard V (dev s))))"
    "kept (snd (read_reg env SPI_STATUS_REG (snd (read_reg env SPI_RECEIVE_REG s5)))) = kept s"
proof -
  let ?r = "fst (exch byte (vcard V (dev s)))" and ?c = "snd (exch byte (vcard V (dev s)))"
  define s4 where "s4 = write_reg env SPI_CONTROL_REG 0x106 (nops env 100
       (write_reg env SPI_TRANSMIT_REG (ucast byte) (write_reg env SPI_SLAVE_SELECT_REG 0xfffffffe s)))"
  have s4: "spi_core V (dev s4) = (True, True, [], [?r], ?c)" "kept s4 = kept s"
    using spi_send_byte [OF q t e, of byte] by (auto simp: s4_def)
  define s5 where "s5 = snd (read_reg env SPI_STATUS_REG s4)"
  have s5: "spi_wait_rx env s4 = Some s5" "spi_core V (dev s5) = (True, True, [], [?r], ?c)" "kept s5 = kept s"
    using quad_spi_status [OF q, of "dev s4"] spi_coreD [OF s4(1)] s4
    by (simp_all add: s5_def read_reg_unfold spi_wait_rx_once)
  define s6 where "s6 = snd (read_reg env SPI_RECEIVE_REG s5)"
  have s6: "fst (read_reg env SPI_RECEIVE_REG s5) = ucast ?r" "spi_core V (dev s6) = (True, True, [], [], ?c)"
      "kept s6 = kept s"
    using quad_spi_receive [OF q, of "dev s5" ?r "[]"] spi_coreD [OF s5(2)] s5(3)
    by (simp_all add: s6_def read_reg_unfold)
  have s7: "fst (read_reg env SPI_STATUS_REG s6) AND 1 = 1"
      "spi_core V (dev (snd (read_reg env SPI_STATUS_REG s6))) = (True, True, [], [], ?c)"
      "kept (snd (read_reg env SPI_STATUS_REG s6)) = kept s"
    using quad_spi_status [OF q, of "dev s6"] spi_coreD [OF s6(2)] s6(2,3) by (auto simp: read_reg_unfold)
  show ?thesis
    by (rule that [OF s5(1) [unfolded s4_def] s6(1)]) (use s7 in \<open>simp_all add: s6_def\<close>)
qed

lemma spi_txrx_total:
  assumes ok: "spi_ok env V exch s"
  shows "tw (spi_txrx env byte s) (\<lambda>(r, s'). r = fst (exch byte (vcard V (dev s))) \<and>
     spi_ok env V exch s' \<and> vcard V (dev s') = snd (exch byte (vcard V (dev s))) \<and> kept s' = kept s)"
proof -
  let ?r = "fst (exch byte (vcard V (dev s)))" and ?c = "snd (exch byte (vcard V (dev s)))"
  from ok have q: "quad_spi env V exch" and t: "spi_timing env V 64"
    and e: "spi_idle V (dev s)" "\<not> vinh V (dev s)" by (simp_all add: spi_ok_def)
  obtain s5 where s5: "spi_wait_rx env (write_reg env SPI_CONTROL_REG 0x106 (nops env 100 (write_reg env SPI_TRANSMIT_REG (ucast byte)
       (write_reg env SPI_SLAVE_SELECT_REG 0xfffffffe s)))) = Some s5"
    and r: "fst (read_reg env SPI_RECEIVE_REG s5) = ucast ?r"
    and st: "fst (read_reg env SPI_STATUS_REG (snd (read_reg env SPI_RECEIVE_REG s5))) AND 1 = 1"
    and s7: "spi_core V (dev (snd (read_reg env SPI_STATUS_REG (snd (read_reg env SPI_RECEIVE_REG s5))))) = (True, True, [], [], ?c)"
      "kept (snd (read_reg env SPI_STATUS_REG (snd (read_reg env SPI_RECEIVE_REG s5)))) = kept s"
    by (rule spi_exchange [OF q t e])
  define s7 where "s7 = snd (read_reg env SPI_STATUS_REG (snd (read_reg env SPI_RECEIVE_REG s5)))"
  define s9 where "s9 = write_reg env SPI_CONTROL_REG 0x06 (write_reg env SPI_SLAVE_SELECT_REG 0xffffffff s7)"
  have "spi_txrx env byte s = Some (?r, s9)"
    unfolding spi_txrx_def Let_def s5 using r st by (simp add: split_beta s7_def s9_def)
  moreover have "spi_core V (dev s9) = (False, False, [], [], ?c)" "kept s9 = kept s"
    using spi_release [OF q s7(1)] s7(2) by (simp_all add: s9_def s7_def)
  ultimately show ?thesis
    using ok by (auto simp: spi_ok_def spi_idle_def dest!: spi_coreD intro!: twI elim!: kept_ready)
qed

text \<open>The SPI driver is a byte link to the card.\<close>

interpretation spi: byte_link "spi_txrx env" exch "spi_ok env V exch" "\<lambda>s. vcard V (dev s)" kept
  for env :: "'d env" and V :: "('d, 'c) spi_view" and exch :: "u8 \<Rightarrow> 'c \<Rightarrow> u8 \<times> 'c"
  by unfold_locales (rule tw_weaken [OF spi_txrx_total], auto)

section \<open>A block of bytes\<close>

lemma spi_tx_loop_transmits:
  "dev (spi_tx_loop env bytes i len s) =
     transmit_all env (map (\<lambda>j. ucast (ram s (bytes + of_nat j)) AND 0xff) [i..<len]) (dev s) \<and>
   kept (spi_tx_loop env bytes i len s) = kept s"
proof (induction env bytes i len s rule: spi_tx_loop.induct)
  case (1 env bytes i len s)
  show ?case
  proof (cases "i < len")
    case True
    with "1.IH" [OF True] show ?thesis
      by (simp add: spi_tx_loop.simps [of env bytes i len s] upt_conv_Cons transmit_all_def)
  next
    case False
    then show ?thesis by (simp add: spi_tx_loop.simps transmit_all_def)
  qed
qed

lemma transmit_all_part:
  assumes "quad_spi env V exch"
  shows "spi_part V exch d = (True, False, q, c) \<Longrightarrow> length q + length vs \<le> 256 \<Longrightarrow>
    spi_part V exch (transmit_all env vs d) =
      (True, False, q @ fst (xchg exch (map ucast vs) c), snd (xchg exch (map ucast vs) c))"
proof (induction vs arbitrary: d q c)
  case Nil
  then show ?case by (simp add: transmit_all_def)
next
  case (Cons v vs)
  have "spi_part V exch (wr32 env SPI_TRANSMIT_REG v d) =
      (True, False, q @ [fst (exch (ucast v) c)], snd (exch (ucast v) c))"
    using quad_spi_transmit [OF assms _ _ _ Cons.prems(1), of v] spi_partD [OF Cons.prems(1)] Cons.prems(2) by simp
  from Cons.IH [OF this] Cons.prems(2) show ?case by (simp add: transmit_all_def split_beta Let_def)
qed

lemma spi_send_block:
  assumes q: "quad_spi env V exch" and t: "spi_timing env V (length bs)"
    and e: "spi_idle V (dev s)" "\<not> vinh V (dev s)" and n: "length bs \<le> 256"
    and bs: "bs = map (\<lambda>j. ram s (bytes + of_nat j)) [0..<len]"
  defines "s4 \<equiv> write_reg env SPI_CONTROL_REG 0x106 (nops env 50 (spi_tx_loop env bytes 0 len
       (write_reg env SPI_SLAVE_SELECT_REG 0xfffffffe s)))"
  shows "spi_core V (dev s4) = (True, True, [], xchg exch bs (vcard V (dev s))) \<and> kept s4 = kept s"
proof -
  let ?d1 = "wr32 env SPI_SLAVE_SELECT_REG 0xfffffffe (dev s)"
  let ?vs = "map (\<lambda>b. ucast b AND 0xff :: u32) bs"
  let ?d3 = "(nop env ^^ 50) (transmit_all env ?vs ?d1)"
  have 1: "spi_core V ?d1 = (True, False, [], [], vcard V (dev s))"
    using quad_spi_select [OF q, of "0xfffffffe" "dev s"] e by (simp add: spi_idle_def)
  have "map ucast ?vs = bs" by (simp add: o_def ucast_and_0xff)
  with transmit_all_part [OF q spi_core_part [OF 1], of ?vs] n
  have "spi_part V exch ?d3 = (True, False, fst (xchg exch bs (vcard V (dev s))), snd (xchg exch bs (vcard V (dev s))))"
    by (simp add: quad_spi_nops [OF q])
  moreover have "vtx V ?d3 = []"
    using t spi_coreD [OF 1] by (auto simp: spi_timing_def spi_idle_def)
  ultimately have 3: "spi_core V ?d3 = (True, False, [], xchg exch bs (vcard V (dev s)))"
    by (simp add: spi_part_sent spi_core_def)
  have "dev s4 = wr32 env SPI_CONTROL_REG 0x106 ?d3" "kept s4 = kept s"
    using spi_tx_loop_transmits [of env bytes 0 len "write_reg env SPI_SLAVE_SELECT_REG 0xfffffffe s"]
    by (simp_all add: s4_def bs o_def)
  then show ?thesis
    using quad_spi_control [OF q, of "0x106" ?d3] 3 by (simp add: spi_core_def prod_eq_iff)
qed

lemma spi_rx_loop_step:
  assumes q: "quad_spi env V exch" and i: "i < len" and c: "spi_core V (dev s) = (sel, inh, [], r # rs, c)"
  shows "\<exists>s1. spi_rx_loop env ret i len s = spi_rx_loop env ret (i + 1) len s1 \<and>
     spi_core V (dev s1) = (sel, inh, [], rs, c) \<and>
     ram s1 = (ram s)(ret + of_nat i := r) \<and> console s1 = console s"
proof -
  let ?d = "snd (rd32 env SPI_STATUS_REG (dev s))"
  have st: "fst (rd32 env SPI_STATUS_REG (dev s)) AND 1 \<noteq> 1" "spi_core V ?d = (sel, inh, [], r # rs, c)"
    using quad_spi_status [OF q, of "dev s"] c spi_coreD [OF c] by simp_all
  from quad_spi_receive [OF q, of ?d r rs] spi_coreD [OF st(2)] show ?thesis
    using st(1) i by (subst spi_rx_loop.simps) (auto simp: read_reg_unfold)
qed

lemma store_bytes_Cons:
  assumes "length bs < 2 ^ 64"
  shows "store_bytes (a + 1) bs (m(a := b)) = store_bytes a (b # bs) m"
proof -
  have "m(a := b) = store_bytes a [b] m"
    by (auto simp: store_bytes_def fun_eq_iff unat_eq_zero)
  then show ?thesis using store_bytes_append [of "[b]" bs a m] assms by simp
qed

lemma spi_rx_loop_total:
  assumes q: "quad_spi env V exch"
  shows "spi_core V (dev s) = (sel, inh, [], rs, c) \<Longrightarrow> i + length rs = len \<Longrightarrow> length rs < 2 ^ 64 \<Longrightarrow>
    tw (spi_rx_loop env ret i len s) (\<lambda>s'. spi_core V (dev s') = (sel, inh, [], [], c) \<and>
      ram s' = store_bytes (ret + of_nat i) rs (ram s) \<and> console s' = console s)"
proof (induction rs arbitrary: s i)
  case Nil
  then show ?case by (subst spi_rx_loop.simps) simp
next
  case (Cons r rs)
  have i: "i < len" using Cons.prems(2) by simp
  from spi_rx_loop_step [OF q i Cons.prems(1), of ret] obtain s1 where
    s1: "spi_rx_loop env ret i len s = spi_rx_loop env ret (i + 1) len s1"
      "spi_core V (dev s1) = (sel, inh, [], rs, c)"
      "ram s1 = (ram s)(ret + of_nat i := r)" "console s1 = console s"
    by blast
  have "tw (spi_rx_loop env ret (i + 1) len s1) (\<lambda>s'. spi_core V (dev s') = (sel, inh, [], [], c) \<and>
      ram s' = store_bytes (ret + of_nat (i + 1)) rs (ram s1) \<and> console s' = console s1)"
    by (rule Cons.IH [OF s1(2)]) (use Cons.prems in simp_all)
  moreover have "store_bytes (ret + of_nat (i + 1)) rs (ram s1) = store_bytes (ret + of_nat i) (r # rs) (ram s)"
    using store_bytes_Cons [of rs "ret + of_nat i" "ram s" r] Cons.prems(3) s1(3)
    by (simp add: add.assoc add.commute [of 1])
  ultimately show ?case
    using s1(1,4) by (simp add: tw_def)
qed

lemma length_xchg_ram: "length (fst (xchg exch (ram_bytes m a n) c)) = n"
  by simp

lemma spi_write_bytes_total:
  fixes bytes :: addr
  assumes ok: "spi_ok env V exch s" and t: "spi_timing env V (unat len)" and len: "0 < len" "len \<le> 256"
  defines "bs \<equiv> ram_bytes (ram s) bytes (unat len)" and "c \<equiv> vcard V (dev s)"
  shows "tw (spi_write_bytes env bytes len ret s) (\<lambda>(rc, s'). rc = 0 \<and> spi_ok env V exch s' \<and>
     vcard V (dev s') = snd (xchg exch bs c) \<and>
     ram s' = store_bytes ret (fst (xchg exch bs c)) (ram s) \<and> console s' = console s)"
proof -
  from ok have q: "quad_spi env V exch" and e: "spi_idle V (dev s)" "\<not> vinh V (dev s)"
    by (simp_all add: spi_ok_def)
  have n: "0 < unat len" "unat len \<le> 256"
    using len by (simp_all add: word_less_nat_alt word_le_nat_alt)
  have bs: "length bs = unat len" "bs = map (\<lambda>j. ram s (bytes + of_nat j)) [0..<unat len]"
    by (simp_all add: bs_def ram_bytes_def)
  obtain rs c' where x: "xchg exch bs c = (rs, c')" by (cases "xchg exch bs c")
  have rs: "length rs = unat len" using length_xchg [of exch bs c] by (simp add: x bs(1))
  define s4 where "s4 = write_reg env SPI_CONTROL_REG 0x106 (nops env 50 (spi_tx_loop env bytes 0 (unat len)
       (write_reg env SPI_SLAVE_SELECT_REG 0xfffffffe s)))"
  have s4: "spi_core V (dev s4) = (True, True, [], rs, c')" "kept s4 = kept s"
    using spi_send_block [OF q _ e, of bs bytes "unat len"] t n bs x by (simp_all add: s4_def c_def)
  define s5 where "s5 = snd (read_reg env SPI_STATUS_REG s4)"
  have s5: "spi_wait_rx env s4 = Some s5" "spi_core V (dev s5) = (True, True, [], rs, c')" "kept s5 = kept s"
    using quad_spi_status [OF q, of "dev s4"] spi_coreD [OF s4(1)] s4 n rs
    by (auto simp: s5_def read_reg_unfold spi_wait_rx_once)
  obtain s6 where s6: "spi_rx_loop env ret 0 (unat len) s5 = Some s6"
      "spi_core V (dev s6) = (True, True, [], [], c')"
      "ram s6 = store_bytes ret rs (ram s5)" "console s6 = console s5"
    using spi_rx_loop_total [OF q s5(2), of 0 "unat len" ret] n rs by (auto elim!: twE)
  define s8 where "s8 = write_reg env SPI_CONTROL_REG 0x06 (write_reg env SPI_SLAVE_SELECT_REG 0xffffffff s6)"
  have s8: "spi_core V (dev s8) = (False, False, [], [], c')" "kept s8 = kept s6"
    using spi_release [OF q s6(2)] by (simp_all add: s8_def)
  have "spi_write_bytes env bytes len ret s = Some (0, s8)"
    using len s5(1) s6(1) by (simp add: spi_write_bytes_def Let_def s8_def s4_def not_less)
  then show ?thesis
    using ok s6 s8 s5(3) spi_coreD [OF s8(1)]
    by (auto simp: x spi_ok_def spi_idle_def console_ok_def kept_def intro!: twI)
qed

section \<open>Initialisation\<close>

text \<open>The core after its reset and until it is enabled.\<close>

lemma spi_reset_keep:
  assumes q: "quad_spi env V exch" and c: "spi_core V d = (False, True, [], [], c)"
  shows "spi_core V ((nop env ^^ n) d) = (False, True, [], [], c)"
    and "spi_core V (wr32 env SPI_CONTROL_REG 0x104 d) = (False, True, [], [], c)"
    and "spi_core V (wr32 env SPI_CONTROL_REG 0x166 d) = (False, True, [], [], c)"
    and "spi_core V (snd (rd32 env SPI_STATUS_REG d)) = (False, True, [], [], c)"
    and "spi_part V exch d' = spi_part V exch d \<Longrightarrow> spi_core V d' = (False, True, [], [], c)"
proof -
  note part = spi_part_idle [of V exch _ False True c]
  show "spi_core V ((nop env ^^ n) d) = (False, True, [], [], c)"
    using c by (simp add: quad_spi_nops [OF q] flip: part)
  show "spi_core V d' = (False, True, [], [], c)" if "spi_part V exch d' = spi_part V exch d"
    using c that by (simp flip: part)
  show "spi_core V (wr32 env SPI_CONTROL_REG 0x104 d) = (False, True, [], [], c)"
    "spi_core V (wr32 env SPI_CONTROL_REG 0x166 d) = (False, True, [], [], c)"
    "spi_core V (snd (rd32 env SPI_STATUS_REG d)) = (False, True, [], [], c)"
    using quad_spi_control [OF q, of "0x104" d] quad_spi_control [OF q, of "0x166" d]
      quad_spi_status [OF q, of d] c spi_coreD [OF c] by simp_all
qed

lemma spi_init_total:
  assumes u: "uart_ready env (spi_part V exch) s" and q: "quad_spi env V exch" and t: "spi_timing env V 64"
  shows "tw (spi_init env s) (\<lambda>s'. spi_ok env V exch s' \<and> ram s' = ram s \<and>
     (spi_idle V (dev s) \<longrightarrow> vcard V (dev s') = vcard V (dev s)) \<and>
     (\<exists>txt. sent (console s') = sent (console s) @ txt))"
proof -
  note emit_ok = fpga.emit_total [where view = "spi_part V exch"] and keep = spi_reset_keep [OF q]
  define went where "went s' \<longleftrightarrow> uart_ready env (spi_part V exch) s' \<and> ram s' = ram s \<and>
    (\<exists>txt. sent (console s') = sent (console s) @ txt)" for s'
  have emits: "tw (emit (write_serial env) bs s1) (\<lambda>s'. went s' \<and> spi_part V exch (dev s') = spi_part V exch (dev s1))"
    if "went s1" for bs s1
    using that unfolding went_def by (intro tw_weaken [OF emit_ok [of env s1 bs]]) auto
  have went: "went s'" if "went s1" "kept s' = kept s1" for s1 s'
    using that kept_ready [of env "spi_part V exch" s1 s'] by (auto simp: went_def kept_def)
  have fin: "spi_core V (wr32 env SPI_CONTROL_REG 0x06 d) = (False, False, [], [], c)"
    if "spi_core V d = (False, True, [], [], c)" for c d
    using quad_spi_control [OF q, of "0x06" d] spi_coreD [OF that] by simp
  show ?thesis
    unfolding spi_init_def print_emit emit_seq_then Let_def read_reg_unfold prod.case
  proof (rule tw_bind [OF emits], goal_cases)
    case 1
    show ?case using u by (simp add: went_def)
  next
    case (2 s1)
    obtain c where c: "spi_core V (wr32 env SPI_RESET_REG 0x0a (dev s1)) = (False, True, [], [], c)"
      "vtx V (dev s1) = [] \<longrightarrow> c = vcard V (dev s1)" using quad_spi_reset [OF q] by blast
    have card: "spi_idle V (dev s) \<longrightarrow> c = vcard V (dev s)"
      using 2 c(2) spi_idle_keep [of V exch "dev s1" "dev s"] by (auto simp: spi_idle_def)
    define P where "P s' \<longleftrightarrow> went s' \<and> spi_core V (dev s') = (False, True, [], [], c)" for s'
    have P: "tw (emit (write_serial env) bs s') P"
      if "kept s' = kept s2" "went s2" "spi_core V (dev s') = (False, True, [], [], c)" for bs s2 s'
      unfolding P_def by (rule tw_weaken [OF emits [OF went [OF that(2,1)]]]) (use keep(5) [OF that(3)] in blast)
    show ?case
    proof (rule tw_bind [OF P [of _ s1]], goal_cases)
      case (4 s2)
      show ?case
      proof (rule tw_bind [OF P [of _ s2]], goal_cases)
        case (4 s3)
        let ?s4 = "write_reg env SPI_CONTROL_REG 0x06 s3"
        have s4: "went ?s4" "spi_core V (dev ?s4) = (False, False, [], [], c)"
          using 4 went [of s3 ?s4] fin [of "dev s3" c] by (simp_all add: P_def)
        show ?case
        proof (rule tw_weaken [OF emits [OF s4(1)]])
          fix s' assume s': "went s' \<and> spi_part V exch (dev s') = spi_part V exch (dev ?s4)"
          then have "spi_core V (dev s') = (False, False, [], [], c)"
            using s4(2) by (simp flip: spi_part_idle [of V exch])
          with s' card q t show "spi_ok env V exch s' \<and> ram s' = ram s \<and>
              (spi_idle V (dev s) \<longrightarrow> vcard V (dev s') = vcard V (dev s)) \<and>
              (\<exists>txt. sent (console s') = sent (console s) @ txt)"
            by (auto simp: spi_ok_def went_def spi_core_def spi_idle_def)
        qed
      qed (use 4 in \<open>simp_all add: P_def keep(1-4) kept_def\<close>)
    qed (use 2 c in \<open>simp_all add: keep(1-4) kept_def\<close>)
  qed
qed

section \<open>What a call that returns leaves alone, whatever the devices do\<close>

lemma emit_ram [frame_rules]: "ifret (emit (write_serial env) bs s) (\<lambda>s'. ram s' = ram s)"
  by (rule ifret_weaken [OF fpga.emit_run]) (simp add: console_run_def)

lemma spi_wait_rx_ram [frame_rules]: "ifret (spi_wait_rx env s) (\<lambda>s'. ram s' = ram s)"
proof -
  have "ram s' = ram s" if "spi_wait_rx env s = Some s'" for s'
  proof (rule spi_wait_rx.raw_induct [where P = "\<lambda>env s s'. ram s' = ram s", OF _ that], goal_cases)
    case (1 f env s s')
    from 1(2) show ?case
      by (auto simp: read_reg_unfold split: if_splits dest!: 1(1))
  qed
  then show ?thesis by (rule ifretI)
qed

lemma spi_tx_loop_ram [simp]: "ram (spi_tx_loop env bytes i len s) = ram s"
  by (induction env bytes i len s rule: spi_tx_loop.induct) (simp add: spi_tx_loop.simps)

lemma spi_txrx_ram [frame_rules]: "ifret (spi_txrx env byte s) (\<lambda>(r, s'). ram s' = ram s)"
  unfolding spi_txrx_def print_emit Let_def read_reg_unfold prod.case
  by (rule ifret_bind [OF spi_wait_rx_ram], rule ifret_bind [where Q = "\<lambda>s'. ram s' = ram s"])
    (auto intro!: ifret_bind [OF emit_ram] ifret_weaken [OF emit_ram])

lemma spi_rx_loop_ram [frame_rules]:
  "ifret (spi_rx_loop env ret i len s)
     (\<lambda>s'. \<forall>x. (\<forall>j. i \<le> j \<longrightarrow> j < len \<longrightarrow> x \<noteq> ret + of_nat j) \<longrightarrow> ram s' x = ram s x)"
proof -
  have "\<forall>x. (\<forall>j. i \<le> j \<longrightarrow> j < len \<longrightarrow> x \<noteq> ret + of_nat j) \<longrightarrow> ram s' x = ram s x"
    if "spi_rx_loop env ret i len s = Some s'" for s'
  proof (rule spi_rx_loop.raw_induct [where P = "\<lambda>env ret i len s s'.
      \<forall>x. (\<forall>j. i \<le> j \<longrightarrow> j < len \<longrightarrow> x \<noteq> ret + of_nat j) \<longrightarrow> ram s' x = ram s x", OF _ that],
      goal_cases)
    case (1 f env ret i len s s')
    from 1(2) show ?case
      by (auto simp: read_reg_unfold Let_def split: if_splits dest!: 1(1))
  qed
  then show ?thesis by (simp add: ifret_def)
qed

lemma spi_write_bytes_ram [frame_rules]:
  "ifret (spi_write_bytes env bytes len ret s)
     (\<lambda>(rc, s'). \<forall>x. \<not> in_obj ret (unat len) x \<longrightarrow> ram s' x = ram s x)"
proof -
  have out: "\<not> in_obj ret (unat len) x \<Longrightarrow> j < unat len \<Longrightarrow> x \<noteq> ret + of_nat j" for x j
    using in_obj_base [of j "unat len" ret] unsigned_less [of len, where 'a = nat] by auto
  show ?thesis
    unfolding spi_write_bytes_def Let_def
    using out by (auto intro!: ifret_bind [OF spi_wait_rx_ram] ifret_bind [OF spi_rx_loop_ram])
qed

section \<open>The bus protocol of one exchange\<close>

text \<open>Accesses that neither select the card nor queue a byte nor reconfigure the core.\<close>

fun inert :: "mmio \<Rightarrow> bool" where
  "inert (W32 a v) = False"
| "inert e = True"

definition passive_run :: "'d cstate \<Rightarrow> 'd cstate \<Rightarrow> bool" where
  "passive_run s s' \<longleftrightarrow> (\<exists>tr. trace s' = trace s @ tr \<and> (\<forall>e \<in> set tr. inert e))"

lemma passive_run_refl: "passive_run s s"
  by (simp add: passive_run_def)

lemma passive_run_trans: "passive_run s s1 \<Longrightarrow> passive_run s1 s2 \<Longrightarrow> passive_run s s2"
  by (force simp: passive_run_def)

lemma passive_run_read:
  "passive_run s s' \<Longrightarrow> passive_run s (s'\<lparr>dev := d, trace := trace s' @ [R32 a v]\<rparr>)"
  "passive_run s s' \<Longrightarrow> passive_run s (s'\<lparr>dev := d, trace := trace s' @ [R32 a v, R32 b w]\<rparr>)"
  by (force simp: passive_run_def)+

lemma passive_emit: "ifret (emit (write_serial env) bs s) (passive_run s)"
proof (rule ifret_weaken [OF fpga.emit_run])
  fix s' assume "console_run UART_BASE UART_LINE_STATUS bs s s'"
  then show "passive_run s s'"
    by (fastforce simp: console_run_def tx_only_def passive_run_def)
qed

lemma passive_wait: "ifret (spi_wait_rx env s) (passive_run s)"
proof -
  have "passive_run s s'" if "spi_wait_rx env s = Some s'" for s'
  proof (rule spi_wait_rx.raw_induct [where P = "\<lambda>env s s'. passive_run s s'", OF _ that], goal_cases)
    case (1 f env s s')
    from 1(2) show ?case
      by (auto simp: read_reg_unfold split: if_splits dest!: 1(1)
          intro: passive_run_trans [OF passive_run_read(1) [OF passive_run_refl]]
            passive_run_read [OF passive_run_refl])
  qed
  then show ?thesis by (rule ifretI)
qed

section \<open>Properties\<close>

definition bench_view :: "('c bench, 'c) spi_view" where
  "bench_view = \<lparr>vsel = b_sel, vinh = b_inh, vtx = b_tx, vrx = b_rx, vcard = b_card\<rparr>"

lemma bench_quad_spi: "quad_spi (bench_env exch) bench_view exch"
  unfolding quad_spi_def
  by (intro conjI allI impI)
    (auto simp: bench_view_def spi_part_def spi_core_def bench_wr32_def bench_rd32_def bench_tick_def reg_defs
      xchg_append split_beta Let_def split: list.splits if_splits)

text \<open>The bench sends a byte during every access and every \<open>nop\<close>, so at most one is left to send.\<close>

lemma bench_transmit_all:
  "b_sel d \<Longrightarrow> \<not> b_inh d \<Longrightarrow> length (b_tx d) \<le> 1 \<Longrightarrow>
   b_sel (transmit_all (bench_env exch) vs d) \<and> \<not> b_inh (transmit_all (bench_env exch) vs d) \<and>
   length (b_tx (transmit_all (bench_env exch) vs d)) \<le> 1"
proof (induction vs arbitrary: d)
  case Nil
  then show ?case by (simp add: transmit_all_def)
next
  case (Cons v vs)
  have "b_sel (bench_wr32 exch SPI_TRANSMIT_REG v d)" "\<not> b_inh (bench_wr32 exch SPI_TRANSMIT_REG v d)"
    "length (b_tx (bench_wr32 exch SPI_TRANSMIT_REG v d)) \<le> 1"
    using Cons.prems by (auto simp: bench_wr32_def bench_tick_def reg_defs Let_def split: list.splits)
  from Cons.IH [OF this] show ?case by (simp add: transmit_all_def)
qed

lemma bench_nops_sent:
  "b_sel d \<Longrightarrow> \<not> b_inh d \<Longrightarrow> length (b_tx d) \<le> 1 \<Longrightarrow> b_tx ((bench_tick exch ^^ Suc n) d) = []"
  by (induction n) (auto simp: bench_tick_def split: list.splits)

lemma bench_spi_timing: "spi_timing (bench_env exch) bench_view n"
proof -
  have "b_tx ((bench_tick exch ^^ k) (transmit_all (bench_env exch) vs d)) = []"
    if "b_sel d" "\<not> b_inh d" "b_tx d = []" "0 < k" for d vs k
    using bench_transmit_all [of d exch vs] bench_nops_sent [where n = "k - 1" and exch = exch and d = "transmit_all (bench_env exch) vs d"] that
    by simp
  then show ?thesis by (simp add: spi_timing_def bench_view_def spi_idle_def)
qed

lemma bench_idle [simp]: "spi_idle bench_view (dev (bench_state c))" "\<not> vinh bench_view (dev (bench_state c))"
  "vcard bench_view (dev (bench_state c)) = c" "ram (bench_state c) = (\<lambda>_. 0)"
  by (simp_all add: spi_idle_def bench_view_def bench_state_def bench_dev_def)

lemma bench_spi_ok: "spi_ok (bench_env exch) bench_view exch (bench_state c)"
  by (simp add: spi_ok_def bench_console_ok bench_quad_spi bench_spi_timing)

text \<open>
  Against any device, an exchange that returns has selected the card, queued
  exactly the given byte, inhibited the master, and then only polled, read and possibly
  printed a warning before it deselected the card and enabled the master again; it has not
  changed memory.
\<close>

theorem spi_txrx_bracket:
  "ifret (spi_txrx env byte s) (\<lambda>(r, s'). ram s' = ram s \<and>
     (\<exists>tr. trace s' = trace s @ [W32 SPI_SLAVE_SELECT_REG 0xfffffffe, W32 SPI_TRANSMIT_REG (ucast byte),
          W32 SPI_CONTROL_REG 0x106] @ tr @
          [W32 SPI_SLAVE_SELECT_REG 0xffffffff, W32 SPI_CONTROL_REG 0x06] \<and>
        list_all inert tr))"
proof -
  let ?s3 = "write_reg env SPI_CONTROL_REG 0x106 (nops env 100 (write_reg env SPI_TRANSMIT_REG (ucast byte)
       (write_reg env SPI_SLAVE_SELECT_REG 0xfffffffe s)))"
  have emits: "passive_run ?s3 s1 \<Longrightarrow>
      ifret (emit (write_serial env) bs s1) (passive_run ?s3)" for bs s1
    by (rule ifret_weaken [OF passive_emit]) (rule passive_run_trans)
  have run: "ifret (spi_txrx env byte s) (\<lambda>(r, s'). \<exists>s7. passive_run ?s3 s7 \<and>
      s' = write_reg env SPI_CONTROL_REG 0x06 (write_reg env SPI_SLAVE_SELECT_REG 0xffffffff s7))"
    unfolding spi_txrx_def print_emit Let_def read_reg_unfold prod.case
    by (rule ifret_bind [OF passive_wait], rule ifret_bind [where Q = "passive_run ?s3"])
      (auto intro!: ifret_bind [OF emits] emits passive_run_read)
  show ?thesis
  proof (rule ifret_weaken [OF ifret_conj [OF spi_txrx_ram run]], unfold split_paired_all prod.case)
    fix r s' assume "ram s' = ram s \<and> (\<exists>s7. passive_run ?s3 s7 \<and>
      s' = write_reg env SPI_CONTROL_REG 0x06 (write_reg env SPI_SLAVE_SELECT_REG 0xffffffff s7))"
    then obtain s7 tr where "ram s' = ram s" "trace s7 = trace ?s3 @ tr" "\<forall>e \<in> set tr. inert e"
      "s' = write_reg env SPI_CONTROL_REG 0x06 (write_reg env SPI_SLAVE_SELECT_REG 0xffffffff s7)"
      unfolding passive_run_def by blast
    then show "ram s' = ram s \<and> (\<exists>tr. trace s' = trace s @ [W32 SPI_SLAVE_SELECT_REG 0xfffffffe,
        W32 SPI_TRANSMIT_REG (ucast byte), W32 SPI_CONTROL_REG 0x106] @ tr @
        [W32 SPI_SLAVE_SELECT_REG 0xffffffff, W32 SPI_CONTROL_REG 0x06] \<and> list_all inert tr)"
      by (intro conjI exI [of _ tr]) (simp_all add: list_all_iff)
  qed
qed





text \<open>
  Against any device, \<open>spi_write_bytes\<close> writes memory only inside the \<open>len\<close>
  bytes at \<open>ret\<close>, and refuses more than 256 bytes (the FIFO depth) with -1 before it
  touches anything.
\<close>

theorem spi_write_bytes_safe:
  "ifret (spi_write_bytes env bytes len ret s)
     (\<lambda>(rc, s'). (\<forall>x. in_obj ret (unat len) x \<or> ram s' x = ram s x) \<and>
        (rc = (if len > 256 then - 1 else 0)) \<and> (if len > 256 then s' = s else True))"
proof -
  have "ifret (spi_write_bytes env bytes len ret s) (\<lambda>(rc, s').
      rc = (if len > 256 then - 1 else 0) \<and> (if len > 256 then s' = s else True))"
    by (auto simp: spi_write_bytes_def Let_def ifret_def bind_eq_Some_conv)
  then show ?thesis
    using spi_write_bytes_ram [of env bytes len ret s] by (auto simp: ifret_def)
qed

end
