(* ===== verification/Crc.thy ===== *)
theory Crc
  imports Boot_Prelude
begin

text \<open>
  The checksums of \<open>corev_apu/fpga/src/bootrom/src/sd.c\<close>: \<open>crc16\<close>, the unrolled update
  for the CCITT polynomial that guards a data block, and \<open>crc7\<close>, the update meant for
  the command frame.
\<close>

section \<open>The code\<close>

definition crc7 :: "u8 \<Rightarrow> u8 \<Rightarrow> u8" where
  "crc7 prev inp =
     (let remainder = prev AND inp;
          remainder = remainder XOR (drop_bit 4 remainder XOR drop_bit 7 remainder);
          remainder = remainder XOR push_bit 4 remainder
      in remainder AND 0x7f)"

definition crc16 :: "u16 \<Rightarrow> u8 \<Rightarrow> u16" where
  "crc16 crc data =
     (let crc = ucast (ucast (drop_bit 8 crc) :: u8) OR push_bit 8 crc;
          crc = crc XOR ucast data;
          crc = crc XOR (ucast (ucast (drop_bit 4 crc) :: u8) AND 0xf);
          crc = crc XOR push_bit 12 crc;
          crc = crc XOR push_bit 5 (crc AND 0xff)
      in crc)"

section \<open>Functions that are linear over exclusive or\<close>

definition xor_linear :: "('a::len word \<Rightarrow> 'b::len word) \<Rightarrow> bool" where
  "xor_linear f \<longleftrightarrow> (\<forall>x y. f (x XOR y) = f x XOR f y)"

lemma xor_linear_0: "xor_linear f \<Longrightarrow> f 0 = 0"
  unfolding xor_linear_def by (metis xor_self_eq)

lemma xor_linearD: "xor_linear f \<Longrightarrow> f (x XOR y) = f x XOR f y"
  unfolding xor_linear_def by blast

lemma take_bit_Suc_xor:
  "take_bit (Suc n) y = take_bit n y XOR (if bit y n then push_bit n 1 else 0)" for y :: "'a::len word"
  by (rule bit_word_eqI) (auto simp: bit_simps less_Suc_eq)

text \<open>Two linear functions that agree on the single bits are equal.\<close>

lemma xor_linear_eqI:
  fixes f g :: "'a::len word \<Rightarrow> 'b::len word"
  assumes "xor_linear f" "xor_linear g" and "\<And>i. i < LENGTH('a) \<Longrightarrow> f (push_bit i 1) = g (push_bit i 1)"
  shows "f = g"
proof
  fix y
  have "n \<le> LENGTH('a) \<Longrightarrow> f (take_bit n y) = g (take_bit n y)" for n
  proof (induction n)
    case 0
    show ?case using assms(1,2) by (simp add: xor_linear_0)
  next
    case (Suc n)
    then show ?case
      using assms by (auto simp: take_bit_Suc_xor xor_linearD xor_linear_0)
  qed
  from this [of "LENGTH('a)"] show "f y = g y" by simp
qed

section \<open>The bit-serial reference\<close>

text \<open>One step of the shift register with polynomial \<open>0x11021\<close>, most significant bit first.\<close>

definition crc_bit :: "u16 \<Rightarrow> u16" where
  "crc_bit r = push_bit 1 r XOR (if bit r 15 then 0x1021 else 0)"

definition crc16_ref :: "u16 \<Rightarrow> u8 \<Rightarrow> u16" where
  "crc16_ref crc data = (crc_bit ^^ 8) (crc XOR push_bit 8 (ucast data))"

lemma crc_bit_linear: "xor_linear crc_bit"
  unfolding xor_linear_def crc_bit_def
  by (auto simp: bit_xor_iff xor.assoc xor.left_commute)

lemma crc_bits_linear: "xor_linear (crc_bit ^^ n)"
  by (induction n) (simp_all add: xor_linear_def xor_linearD [OF crc_bit_linear])

text \<open>The code's update split in two: swap the bytes, then fold.\<close>

definition swap_bytes :: "u16 \<Rightarrow> u16" where
  "swap_bytes c = ucast (ucast (drop_bit 8 c) :: u8) OR push_bit 8 c"

definition crc_fold :: "u16 \<Rightarrow> u16" where
  "crc_fold c =
     (let c = c XOR (ucast (ucast (drop_bit 4 c) :: u8) AND 0xf);
          c = c XOR push_bit 12 c
      in c XOR push_bit 5 (c AND 0xff))"

definition crc16_core :: "u16 \<Rightarrow> u16" where
  "crc16_core y = crc_fold (swap_bytes y)"

lemma swap_bytes_xor: "swap_bytes (x XOR y) = swap_bytes x XOR swap_bytes y"
  by (rule bit_word_eqI) (auto simp: swap_bytes_def bit_simps)

lemma swap_bytes_high: "swap_bytes (push_bit 8 (ucast d)) = ucast d" for d :: u8
  by (rule bit_word_eqI) (auto simp: swap_bytes_def bit_simps dest: bit_imp_le_length)

lemma and_xor_distrib_right: "(x XOR y) AND z = (x AND z) XOR (y AND z)" for x y z :: "'a::len word"
  by (rule bit_word_eqI) (auto simp: bit_simps)

lemma crc_fold_xor: "crc_fold (x XOR y) = crc_fold x XOR crc_fold y"
  by (simp add: crc_fold_def Let_def unsigned_xor_eq and_xor_distrib_right
      xor.assoc xor.left_commute xor.commute)

lemma crc16_core_linear: "xor_linear crc16_core"
  by (simp add: xor_linear_def crc16_core_def swap_bytes_xor crc_fold_xor)

lemma crc16_via_core: "crc16 crc data = crc16_core (crc XOR push_bit 8 (ucast data))"
  by (simp add: crc16_core_def swap_bytes_xor swap_bytes_high)
    (simp add: crc16_def crc_fold_def swap_bytes_def Let_def)

lemma crc_bits_8: "(crc_bit ^^ 8) x = crc_bit (crc_bit (crc_bit (crc_bit (crc_bit (crc_bit (crc_bit (crc_bit x)))))))"
  by (simp add: numeral_eq_Suc)

lemma crc16_core_basis:
  "list_all (\<lambda>x. crc16_core x = (crc_bit ^^ 8) x) (map (\<lambda>i. push_bit i 1) [0..<16])"
  unfolding crc_bits_8
  by (simp add: upt_rec crc16_core_def crc_fold_def swap_bytes_def crc_bit_def Let_def)

lemma crc16_core_eq: "crc16_core = crc_bit ^^ 8"
  by (rule xor_linear_eqI [OF crc16_core_linear crc_bits_linear]) (use crc16_core_basis in \<open>simp add: list_all_iff\<close>)

lemma crc16_eq_ref: "crc16 crc data = crc16_ref crc data"
  by (simp add: crc16_via_core crc16_core_eq crc16_ref_def)

section \<open>Detecting corruption\<close>

lemma xor_right_cancel: "a XOR c = b XOR c \<Longrightarrow> a = b" for a b c :: "'a::len word"
  by (metis xor.assoc xor_self_eq xor.right_neutral)

lemma xor_left_cancel: "c XOR a = c XOR b \<Longrightarrow> a = b" for a b c :: "'a::len word"
  by (metis xor.commute xor_right_cancel)

lemma crc_bit_inj: "crc_bit x = crc_bit y \<Longrightarrow> x = y"
proof -
  assume eq: "crc_bit x = crc_bit y"
  have b0: "bit (crc_bit z) 0 = bit z 15" for z
    unfolding crc_bit_def bit_xor_iff bit_push_bit_iff by simp
  from b0 [of x] b0 [of y] eq have top: "bit x 15 = bit y 15" by simp
  from eq have "push_bit 1 x XOR (if bit y 15 then 0x1021 else 0) = push_bit 1 y XOR (if bit y 15 then 0x1021 else 0)"
    by (simp only: crc_bit_def top)
  then have shifted: "push_bit 1 x = push_bit 1 y" by (rule xor_right_cancel)
  have low: "bit x n = bit y n" if "n < 15" for n
  proof -
    from shifted have "bit (push_bit 1 x) (Suc n) = bit (push_bit 1 y) (Suc n)" by (rule arg_cong)
    with that show ?thesis unfolding bit_push_bit_iff by simp
  qed
  show "x = y"
  proof (rule bit_word_eqI)
    fix n assume "n < LENGTH(16)"
    then show "bit x n = bit y n" using top low by (cases "n = 15") auto
  qed
qed

lemma crc16_core_inj: "crc16_core x = crc16_core y \<Longrightarrow> x = y"
proof -
  have "(crc_bit ^^ n) x = (crc_bit ^^ n) y \<Longrightarrow> x = y" for n
    by (induction n) (auto dest: crc_bit_inj)
  then show "crc16_core x = crc16_core y \<Longrightarrow> x = y" by (simp only: crc16_core_eq)
qed

lemma crc16_inj: "crc16 c a = crc16 d a \<Longrightarrow> c = d"
  unfolding crc16_via_core by (blast dest: crc16_core_inj xor_right_cancel)

lemma crc16_block_inj: "foldl crc16 c bs = foldl crc16 d bs \<Longrightarrow> c = d"
  by (induction bs arbitrary: c d) (auto dest: crc16_inj)

text \<open>A byte in the low half of the register moves to the high half unchanged, so two bytes
  enter the register as one 16-bit word.\<close>

lemma crc16_core_low: "crc16_core (ucast b) = push_bit 8 (ucast b)" for b :: u8
proof -
  have linear: "xor_linear (\<lambda>b :: u8. crc16_core (ucast b))" "xor_linear (\<lambda>b :: u8. push_bit 8 (ucast b :: u16))"
    by (simp_all add: xor_linear_def unsigned_xor_eq xor_linearD [OF crc16_core_linear])
  have "list_all (\<lambda>i. crc16_core (ucast (push_bit i 1 :: u8)) = push_bit 8 (ucast (push_bit i 1 :: u8))) [0..<8]"
    by (simp add: upt_rec crc16_core_def crc_fold_def swap_bytes_def Let_def)
  then have "(\<lambda>b :: u8. crc16_core (ucast b)) = (\<lambda>b :: u8. push_bit 8 (ucast b :: u16))"
    by (intro xor_linear_eqI linear) (simp add: list_all_iff)
  then show ?thesis by (rule fun_cong)
qed

lemma crc16_two_bytes:
  "crc16 (crc16 c a) b = crc16_core (crc16_core (c XOR (push_bit 8 (ucast a) XOR ucast b)))"
proof -
  have "crc16_core x XOR push_bit 8 (ucast b) = crc16_core (x XOR ucast b)" for x
    unfolding xor_linearD [OF crc16_core_linear] crc16_core_low ..
  then show ?thesis unfolding crc16_via_core by (simp only: xor.assoc)
qed

lemma byte_pair_inj:
  fixes a b a' b' :: u8
  assumes "push_bit 8 (ucast a :: u16) XOR ucast b = push_bit 8 (ucast a') XOR ucast b'"
  shows "a = a' \<and> b = b'"
proof -
  have lo: "ucast (push_bit 8 (ucast x :: u16) XOR ucast y) = y" for x y :: u8
    by (rule bit_word_eqI) (simp add: bit_simps)
  have hi: "ucast (drop_bit 8 (push_bit 8 (ucast x :: u16) XOR ucast y)) = x" for x y :: u8
    by (rule bit_word_eqI) (auto simp: bit_simps dest: bit_imp_le_length)
  from lo [of a b] lo [of a' b'] hi [of a b] hi [of a' b'] assms show ?thesis by metis
qed

text \<open>Claim C26: the unrolled update that \<open>sd_copy\<close> folds over a block computes the CCITT
  checksum, i.e.\ the same value as the bit-serial register with polynomial \<open>0x11021\<close>, for every
  block and every starting value.\<close>

theorem crc16_block_is_ccitt: "foldl crc16 crc bs = foldl crc16_ref crc bs"
  by (induction bs arbitrary: crc) (simp_all add: crc16_eq_ref)

text \<open>Two blocks that differ only inside a window of two neighbouring bytes (every
  burst of up to sixteen bits lies in such a window when it starts on a byte, and so does every
  single corrupted byte) have the same checksum only if they are equal: the comparison in
  \<open>sd_copy\<close> catches each such corruption, wherever in the block it is.\<close>

theorem crc16_detects_two_byte_burst:
  "foldl crc16 c (xs @ [a, b] @ ys) = foldl crc16 c (xs @ [a', b'] @ ys) \<longleftrightarrow> a = a' \<and> b = b'"
  by (auto simp: crc16_two_bytes dest!: crc16_block_inj crc16_core_inj byte_pair_inj xor_left_cancel)

text \<open>The register is empty after a block followed by its own checksum, high byte
  first, which is how the card sends the two checksum bytes.\<close>

theorem crc16_residue:
  "foldl crc16 c (bs @ [ucast (drop_bit 8 (foldl crc16 c bs)), ucast (foldl crc16 c bs)]) = 0"
proof -
  have "push_bit 8 (ucast (ucast (drop_bit 8 r) :: u8)) XOR ucast (ucast r :: u8) = r" for r :: u16
    by (rule bit_word_eqI) (auto simp: bit_simps)
  then show ?thesis
    by (simp add: crc16_two_bytes xor_linear_0 [OF crc16_core_linear])
qed

text \<open>\<open>crc7\<close> combines the running value and the input byte with a conjunction where
  the polynomial division needs an exclusive or, so from the initial value 0 it stays 0 whatever
  the command frame holds.\<close>

theorem crc7_stuck_at_zero: "foldl crc7 0 bs = 0"
  by (induction bs) (simp_all add: crc7_def)

end
