(* ===== verification/Sd.thy ===== *)
theory Sd
  imports Spi Crc
begin

text \<open>
  \<open>corev_apu/fpga/src/bootrom/src/sd.c\<close> and \<open>sd.h\<close>: the SD card driver in SPI mode. The
  first section is the code. The second describes the same dialogue from the card's end of
  the wire, without registers, memory or console; the driver is then shown to conduct
  exactly that dialogue (\<open>sd_cmd_total\<close>, \<open>init_sd_total\<close>, \<open>sd_copy_total\<close>). What a
  compliant card answers is the hypothesis \<open>sd_card\<close>.
\<close>

section \<open>The code\<close>

definition SD_CMD_STOP_TRANSMISSION :: u8 where "SD_CMD_STOP_TRANSMISSION = 12"
definition SD_CMD_READ_BLOCK_MULTIPLE :: u8 where "SD_CMD_READ_BLOCK_MULTIPLE = 18"
definition SD_DATA_TOKEN :: u8 where "SD_DATA_TOKEN = 0xfe"
definition SD_COPY_ERROR_CMD18 :: int where "SD_COPY_ERROR_CMD18 = - 1"
definition SD_COPY_ERROR_CMD18_CRC :: int where "SD_COPY_ERROR_CMD18_CRC = - 2"
definition SD_INIT_ERROR_CMD0 :: int where "SD_INIT_ERROR_CMD0 = - 1"
definition SD_INIT_ERROR_CMD8 :: int where "SD_INIT_ERROR_CMD8 = - 2"
definition SD_INIT_ERROR_ACMD41 :: int where "SD_INIT_ERROR_ACMD41 = - 3"

definition sd_dummy :: "'d env \<Rightarrow> 'd cstate \<Rightarrow> (u8 \<times> 'd cstate) option" where
  "sd_dummy env s = spi_txrx env 0xFF s"

text \<open>The loop of \<open>sd_cmd\<close>: \<open>do { ... } while (--n > 0)\<close>, left early on a response byte.\<close>

fun sd_cmd_poll :: "'d env \<Rightarrow> nat \<Rightarrow> 'd cstate \<Rightarrow> (u8 \<times> 'd cstate) option" where
  "sd_cmd_poll env n s = do {
     (r, s) \<leftarrow> sd_dummy env s;
     if r AND 0x80 = 0 then Some (r, s)
     else if n - 1 > 0 then sd_cmd_poll env (n - 1) s
     else Some (r, s)
   }"

definition sd_cmd :: "'d env \<Rightarrow> u8 \<Rightarrow> u32 \<Rightarrow> u8 \<Rightarrow> 'd cstate \<Rightarrow> (u8 \<times> 'd cstate) option" where
  "sd_cmd env cmd arg crc s = do {
     (_, s) \<leftarrow> sd_dummy env s;
     (_, s) \<leftarrow> spi_txrx env (0x40 OR cmd) s;
     (_, s) \<leftarrow> spi_txrx env (ucast (drop_bit 24 arg)) s;
     (_, s) \<leftarrow> spi_txrx env (ucast (drop_bit 16 arg)) s;
     (_, s) \<leftarrow> spi_txrx env (ucast (drop_bit 8 arg)) s;
     (_, s) \<leftarrow> spi_txrx env (ucast arg) s;
     (_, s) \<leftarrow> spi_txrx env crc s;
     sd_cmd_poll env 100 s
   }"

definition print_status :: "'d env \<Rightarrow> string \<Rightarrow> u8 \<Rightarrow> 'd cstate \<Rightarrow> 'd cstate option" where
  "print_status env cmd response s = do {
     s \<leftarrow> print_uart env ''SD command '' s;
     s \<leftarrow> print_uart env cmd s;
     s \<leftarrow> print_uart env ('' '' @ TAB @ ''response : '') s;
     s \<leftarrow> print_uart_byte env response s;
     print_uart env CRLF s
   }"

text \<open>\<open>while (r != 0x1)\<close> with the counter; the result is the C truth value and \<open>r\<close>.\<close>

function sd_cmd0_loop :: "'d env \<Rightarrow> int \<Rightarrow> u8 \<Rightarrow> 'd cstate \<Rightarrow> (u8 option \<times> 'd cstate) option" where
  "sd_cmd0_loop env counter r s =
     (if r \<noteq> 0x1 then do {
        (r, s) \<leftarrow> sd_cmd env 0 0 0x95 s;
        (_, s) \<leftarrow> sd_dummy env s;
        if counter - 1 \<le> 0 then Some (None, s) else sd_cmd0_loop env (counter - 1) r s
      } else Some (Some r, s))"
  by pat_completeness auto
termination
  by (relation "measure (\<lambda>(env, counter, r, s). nat counter)") auto

definition sd_cmd0 :: "'d env \<Rightarrow> 'd cstate \<Rightarrow> (bool \<times> 'd cstate) option" where
  "sd_cmd0 env s = do {
     (res, s) \<leftarrow> sd_cmd0_loop env 10000 0xff s;
     case res of
       None \<Rightarrow> Some (False, s)
     | Some r \<Rightarrow> do {
         s \<leftarrow> print_status env ''cmd0'' r s;
         Some (r = 0x1, s)
       }
   }"

definition sd_cmd8 :: "'d env \<Rightarrow> 'd cstate \<Rightarrow> (bool \<times> 'd cstate) option" where
  "sd_cmd8 env s = do {
     (r1, s) \<leftarrow> sd_cmd env 8 0x1aa 0x87 s;
     (_, s) \<leftarrow> sd_dummy env s;
     (_, s) \<leftarrow> sd_dummy env s;
     (r4, s) \<leftarrow> sd_dummy env s;
     (r5, s) \<leftarrow> sd_dummy env s;
     (_, s) \<leftarrow> sd_dummy env s;
     (_, s) \<leftarrow> sd_dummy env s;
     Some (r1 = 0x1 \<and> r4 AND 0xf = 0x1 \<and> r5 = 0xaa, s)
   }"

definition sd_cmd55 :: "'d env \<Rightarrow> 'd cstate \<Rightarrow> (bool \<times> 'd cstate) option" where
  "sd_cmd55 env s = do {
     (r, s) \<leftarrow> sd_cmd env 55 0x0 0x65 s;
     (_, s) \<leftarrow> sd_dummy env s;
     s \<leftarrow> print_status env ''cmd55'' r s;
     Some (r = 0x1, s)
   }"

partial_function (option) sd_acmd41 :: "'d env \<Rightarrow> 'd cstate \<Rightarrow> (bool \<times> 'd cstate) option" where
  "sd_acmd41 env s = do {
     (_, s) \<leftarrow> sd_cmd55 env s;
     (r, s) \<leftarrow> sd_cmd env 41 0x40000000 0x77 s;
     s \<leftarrow> print_status env ''cmd41'' r s;
     (_, s) \<leftarrow> sd_dummy env s;
     if r = 0x1 then sd_acmd41 env s else Some (r = 0x00, s)
   }"

text \<open>\<open>for (int i = 0; i < n; i++) sd_dummy();\<close>\<close>

primrec sd_dummies :: "'d env \<Rightarrow> nat \<Rightarrow> 'd cstate \<Rightarrow> 'd cstate option" where
  "sd_dummies env 0 s = Some s"
| "sd_dummies env (Suc n) s = do { (_, s) \<leftarrow> sd_dummy env s; sd_dummies env n s }"

definition init_sd :: "'d env \<Rightarrow> 'd cstate \<Rightarrow> (int \<times> 'd cstate) option" where
  "init_sd env s = do {
     s \<leftarrow> spi_init env s;
     s \<leftarrow> print_uart env (''initializing SD... '' @ CRLF) s;
     s \<leftarrow> sd_dummies env 10 s;
     (ok, s) \<leftarrow> sd_cmd0 env s;
     if \<not> ok then Some (SD_INIT_ERROR_CMD0, s) else do {
       (ok, s) \<leftarrow> sd_cmd8 env s;
       if \<not> ok then Some (SD_INIT_ERROR_CMD8, s) else do {
         (ok, s) \<leftarrow> sd_acmd41 env s;
         if \<not> ok then Some (SD_INIT_ERROR_ACMD41, s) else Some (0, s)
       }
     }
   }"

text \<open>\<open>while (sd_dummy() != SD_DATA_TOKEN);\<close>\<close>

partial_function (option) sd_wait_token :: "'d env \<Rightarrow> 'd cstate \<Rightarrow> 'd cstate option" where
  "sd_wait_token env s = do {
     (r, s) \<leftarrow> sd_dummy env s;
     if r \<noteq> SD_DATA_TOKEN then sd_wait_token env s else Some s
   }"

text \<open>
  The loop over one block in transfers of 64 bytes, \<open>do { ... } while (n > 0)\<close>; \<open>ff\<close> is the
  address of the local array. The result is the updated \<open>crc\<close> and \<open>p\<close>.
\<close>

function sd_block_loop ::
    "'d env \<Rightarrow> addr \<Rightarrow> addr \<Rightarrow> int \<Rightarrow> u16 \<Rightarrow> 'd cstate \<Rightarrow> (u16 \<times> addr \<times> 'd cstate) option" where
  "sd_block_loop env ff p n crc s = do {
     (_, s) \<leftarrow> spi_write_bytes env ff 64 p s;
     let crc = foldl (\<lambda>crc i. crc16 crc (ram s (p + of_nat i))) crc [0..<64];
     let p = p + 64;
     let n = n - 64;
     if n > 0 then sd_block_loop env ff p n crc s else Some (crc, p, s)
   }"
  by pat_completeness auto
termination
  by (relation "measure (\<lambda>(env, ff, p, n, crc, s). nat n)") auto

text \<open>
  The body of the loop over the blocks: wait for the token, read the block, compare the
  checksum and print a dot every thousandth block. The result is whether the checksum was
  right (otherwise the loop is left), and \<open>p\<close>.
\<close>

definition sd_copy_block ::
    "'d env \<Rightarrow> addr \<Rightarrow> addr \<Rightarrow> int \<Rightarrow> 'd cstate \<Rightarrow> (bool \<times> addr \<times> 'd cstate) option" where
  "sd_copy_block env ff p i s = do {
     s \<leftarrow> sd_wait_token env s;
     (crc, p, s) \<leftarrow> sd_block_loop env ff p 512 0 s;
     (hi, s) \<leftarrow> sd_dummy env s;
     let crc_exp = push_bit 8 (ucast hi);
     (lo, s) \<leftarrow> sd_dummy env s;
     let crc_exp = crc_exp OR ucast lo;
     if crc \<noteq> crc_exp then Some (False, p, s)
     else do {
       s \<leftarrow> (if i mod 1000 = 0 then print_uart env ''.'' s else Some s);
       Some (True, p, s)
     }
   }"

text \<open>The loop itself, \<open>do { ... } while (--i > 0)\<close>; the result is \<open>rc\<close>.\<close>

function sd_copy_loop ::
    "'d env \<Rightarrow> addr \<Rightarrow> addr \<Rightarrow> int \<Rightarrow> 'd cstate \<Rightarrow> (int \<times> 'd cstate) option" where
  "sd_copy_loop env ff p i s = do {
     (good, p, s) \<leftarrow> sd_copy_block env ff p i s;
     if \<not> good then Some (SD_COPY_ERROR_CMD18_CRC, s)
     else if i - 1 > 0 then sd_copy_loop env ff p (i - 1) s
     else Some (0, s)
   }"
  by pat_completeness auto
termination
  by (relation "measure (\<lambda>(env, ff, p, i, s). nat i)") auto

definition sd_copy ::
    "'d env \<Rightarrow> addr \<Rightarrow> addr \<Rightarrow> u32 \<Rightarrow> u32 \<Rightarrow> 'd cstate \<Rightarrow> (int \<times> 'd cstate) option" where
  "sd_copy env ff dst src_lba sz s = do {
     let s = s\<lparr>ram := foldl (\<lambda>m j. m(ff + of_nat j := 0xff)) (ram s) [0..<128]\<rparr>;
     let crc = crc7 0 (0x40 OR SD_CMD_READ_BLOCK_MULTIPLE);
     let crc = crc7 crc (ucast (drop_bit 24 src_lba AND 0xff));
     let crc = crc7 crc (ucast (drop_bit 16 src_lba AND 0xff));
     let crc = crc7 crc (ucast (drop_bit 8 src_lba AND 0xff));
     let crc = crc7 crc (ucast (src_lba AND 0xff));
     let crc = push_bit 1 crc OR 1;
     (r, s) \<leftarrow> sd_cmd env 18 src_lba crc s;
     if r \<noteq> 0x00 then do {
       s \<leftarrow> sd_dummies env 8 s;
       s \<leftarrow> print_uart env (''could not read SD block'' @ CRLF) s;
       Some (- 1, s)
     } else do {
       (rc, s) \<leftarrow> sd_copy_loop env ff dst (uint sz) s;
       (_, s) \<leftarrow> sd_cmd env SD_CMD_STOP_TRANSMISSION 0 0x01 s;
       (_, s) \<leftarrow> sd_dummy env s;
       Some (rc, s)
     }
   }"

declare sd_cmd_poll.simps [simp del] sd_cmd0_loop.simps [simp del]
  sd_block_loop.simps [simp del] sd_copy_loop.simps [simp del]

section \<open>The dialogue from the card's end\<close>

text \<open>
  \<open>exch\<close> is the card: it answers each byte it receives with one byte. The functions below
  say which bytes a host sends and how it reacts to the answers.
\<close>

fun card_poll :: "(u8 \<Rightarrow> 'c \<Rightarrow> u8 \<times> 'c) \<Rightarrow> nat \<Rightarrow> 'c \<Rightarrow> u8 \<times> 'c" where
  "card_poll exch n c =
     (let (r, c) = exch 0xFF c in
      if r AND 0x80 = 0 then (r, c) else if n - 1 > 0 then card_poll exch (n - 1) c else (r, c))"

definition cmd_frame :: "u8 \<Rightarrow> u32 \<Rightarrow> u8 \<Rightarrow> u8 list" where
  "cmd_frame cmd arg crc = [0xFF, 0x40 OR cmd, ucast (drop_bit 24 arg), ucast (drop_bit 16 arg),
     ucast (drop_bit 8 arg), ucast arg, crc]"

definition card_cmd :: "(u8 \<Rightarrow> 'c \<Rightarrow> u8 \<times> 'c) \<Rightarrow> u8 \<Rightarrow> u32 \<Rightarrow> u8 \<Rightarrow> 'c \<Rightarrow> u8 \<times> 'c" where
  "card_cmd exch cmd arg crc c = card_poll exch 100 (snd (xchg exch (cmd_frame cmd arg crc) c))"

text \<open>The answers to, and the card after, \<open>n\<close> filler bytes.\<close>

definition card_read :: "(u8 \<Rightarrow> 'c \<Rightarrow> u8 \<times> 'c) \<Rightarrow> nat \<Rightarrow> 'c \<Rightarrow> u8 list \<times> 'c" where
  "card_read exch n c = xchg exch (replicate n 0xFF) c"

text \<open>CMD0 is repeated up to \<open>n\<close> times; success on the last try does not count.\<close>

primrec card_cmd0 :: "(u8 \<Rightarrow> 'c \<Rightarrow> u8 \<times> 'c) \<Rightarrow> nat \<Rightarrow> 'c \<Rightarrow> bool \<times> 'c" where
  "card_cmd0 exch 0 c = (False, c)"
| "card_cmd0 exch (Suc n) c =
     (let (r, c) = card_cmd exch 0 0 0x95 c; c = snd (exch 0xFF c) in
      if n = 0 then (False, c) else if r = 0x1 then (True, c) else card_cmd0 exch n c)"

definition card_cmd8 :: "(u8 \<Rightarrow> 'c \<Rightarrow> u8 \<times> 'c) \<Rightarrow> 'c \<Rightarrow> bool \<times> 'c" where
  "card_cmd8 exch c =
     (let (r1, c) = card_cmd exch 8 0x1aa 0x87 c; (rs, c) = card_read exch 6 c in
      (r1 = 0x1 \<and> rs ! 2 AND 0xf = 0x1 \<and> rs ! 3 = 0xaa, c))"

definition card_try41 :: "(u8 \<Rightarrow> 'c \<Rightarrow> u8 \<times> 'c) \<Rightarrow> 'c \<Rightarrow> u8 \<times> 'c" where
  "card_try41 exch c =
     (let c = snd (exch 0xFF (snd (card_cmd exch 55 0 0x65 c)));
          (r, c) = card_cmd exch 41 0x40000000 0x77 c
      in (r, snd (exch 0xFF c)))"

partial_function (option) card_acmd41 :: "(u8 \<Rightarrow> 'c \<Rightarrow> u8 \<times> 'c) \<Rightarrow> 'c \<Rightarrow> (bool \<times> 'c) option" where
  "card_acmd41 exch c =
     (let (r, c) = card_try41 exch c in
      if r = 0x1 then card_acmd41 exch c else Some (r = 0x00, c))"

definition card_init :: "(u8 \<Rightarrow> 'c \<Rightarrow> u8 \<times> 'c) \<Rightarrow> 'c \<Rightarrow> (int \<times> 'c) option" where
  "card_init exch c =
     (let (ok, c) = card_cmd0 exch 10000 (snd (card_read exch 10 c)) in
      if \<not> ok then Some (- 1, c)
      else
        (let (ok, c) = card_cmd8 exch c in
         if \<not> ok then Some (- 2, c)
         else do {
           (ok, c) \<leftarrow> card_acmd41 exch c;
           Some (if ok then 0 else - 3, c)
         }))"

text \<open>The card after the filler bytes up to and including the data token.\<close>

partial_function (option) card_token :: "(u8 \<Rightarrow> 'c \<Rightarrow> u8 \<times> 'c) \<Rightarrow> 'c \<Rightarrow> 'c option" where
  "card_token exch c = (let (r, c) = exch 0xFF c in if r \<noteq> 0xfe then card_token exch c else Some c)"

text \<open>One block: its 512 bytes and the checksum that follows them.\<close>

definition card_block :: "(u8 \<Rightarrow> 'c \<Rightarrow> u8 \<times> 'c) \<Rightarrow> 'c \<Rightarrow> (u8 list \<times> u16 \<times> 'c) option" where
  "card_block exch c = do {
     c \<leftarrow> card_token exch c;
     let (bs, c) = card_read exch 512 c;
     let (cs, c) = card_read exch 2 c;
     Some (bs, push_bit 8 (ucast (cs ! 0)) OR ucast (cs ! 1), c)
   }"

text \<open>\<open>n\<close> blocks (one more than the argument), stopping after the first whose checksum is
  wrong.\<close>

primrec card_blocks :: "(u8 \<Rightarrow> 'c \<Rightarrow> u8 \<times> 'c) \<Rightarrow> nat \<Rightarrow> 'c \<Rightarrow> (int \<times> u8 list \<times> 'c) option" where
  "card_blocks exch 0 c = do {
     (bs, crc, c) \<leftarrow> card_block exch c;
     Some (if foldl crc16_ref 0 bs = crc then 0 else - 2, bs, c)
   }"
| "card_blocks exch (Suc n) c = do {
     (bs, crc, c) \<leftarrow> card_block exch c;
     if foldl crc16_ref 0 bs = crc then do {
       (rc, bs', c) \<leftarrow> card_blocks exch n c;
       Some (rc, bs @ bs', c)
     } else Some (- 2, bs, c)
   }"

text \<open>A multi-block read of \<open>n\<close> blocks (at least one).\<close>

definition card_copy :: "(u8 \<Rightarrow> 'c \<Rightarrow> u8 \<times> 'c) \<Rightarrow> u32 \<Rightarrow> nat \<Rightarrow> 'c \<Rightarrow> (int \<times> u8 list \<times> 'c) option" where
  "card_copy exch lba n c =
     (let (r, c) = card_cmd exch 18 lba 1 c in
      if r \<noteq> 0 then Some (- 1, [], snd (card_read exch 8 c))
      else do {
        (rc, bs, c) \<leftarrow> card_blocks exch (n - 1) c;
        Some (rc, bs, snd (exch 0xFF (snd (card_cmd exch 12 0 1 c))))
      })"

declare card_poll.simps [simp del]

section \<open>The driver conducts the dialogue\<close>

text \<open>\<open>linked env V exch c m s\<close>: console and link work, the card is in state \<open>c\<close> and memory
  holds \<open>m\<close>.\<close>

definition linked ::
    "'d env \<Rightarrow> ('d, 'c) spi_view \<Rightarrow> (u8 \<Rightarrow> 'c \<Rightarrow> u8 \<times> 'c) \<Rightarrow> 'c \<Rightarrow> (addr \<Rightarrow> u8) \<Rightarrow> 'd cstate \<Rightarrow> bool" where
  "linked env V exch c m s \<longleftrightarrow> spi_ok env V exch s \<and> vcard V (dev s) = c \<and> ram s = m"

lemma txrx_linked:
  "linked env V exch c m s \<Longrightarrow>
   tw (spi_txrx env b s) (\<lambda>(r, s'). r = fst (exch b c) \<and> linked env V exch (snd (exch b c)) m s')"
  unfolding linked_def by (rule tw_weaken [OF spi.txrx_total [of env V exch]]) (auto simp: kept_def)

lemma txrx_then:
  assumes "linked env V exch c m s"
    and "\<And>s'. linked env V exch (snd (exch b c)) m s' \<Longrightarrow> tw (k (fst (exch b c)) s') Q"
  shows "tw (spi_txrx env b s \<bind> (\<lambda>(r, s'). k r s')) Q"
  by (rule tw_bind2 [OF txrx_linked [OF assms(1)]]) (use assms(2) in auto)

lemma emit_linked:
  assumes "linked env V exch c m s"
  shows "tw (emit (write_serial env) bs s) (linked env V exch c m)"
proof -
  have "uart_ready env (spi_part V exch) s" using assms by (simp add: linked_def spi_ok_def)
  from fpga.emit_total [OF this, of bs] show ?thesis
    by (rule tw_weaken) (use assms in \<open>auto simp: linked_def spi_ok_def dest!: spi_idle_keep\<close>)
qed

lemma linked_emit_then:
  "linked env V exch c m s \<Longrightarrow> (\<And>s'. linked env V exch c m s' \<Longrightarrow> tw (k s') Q) \<Longrightarrow>
   tw (emit (write_serial env) bs s \<bind> k) Q"
  by (rule tw_bind [OF emit_linked])

lemma sd_cmd_poll_linked:
  "linked env V exch c m s \<Longrightarrow> tw (sd_cmd_poll env n s) (\<lambda>(r, s').
     r = fst (card_poll exch n c) \<and> linked env V exch (snd (card_poll exch n c)) m s')"
proof (induction n arbitrary: s c rule: less_induct)
  case (less n)
  show ?case
  proof (subst sd_cmd_poll.simps, unfold sd_dummy_def, rule txrx_then [OF less.prems])
    fix s' assume "linked env V exch (snd (exch 0xFF c)) m s'"
    with less.IH [of "n - 1" "snd (exch 0xFF c)" s'] show "tw (if fst (exch 0xFF c) AND 0x80 = 0 then Some (fst (exch 0xFF c), s')
        else if 0 < n - 1 then sd_cmd_poll env (n - 1) s' else Some (fst (exch 0xFF c), s'))
      (\<lambda>(r, s'). r = fst (card_poll exch n c) \<and> linked env V exch (snd (card_poll exch n c)) m s')"
      by (auto simp: card_poll.simps [of exch n c] case_prod_unfold Let_def)
  qed
qed

lemma sd_cmd_linked:
  assumes "linked env V exch c m s"
  shows "tw (sd_cmd env cmd arg crc s) (\<lambda>(r, s'). r = fst (card_cmd exch cmd arg crc c) \<and>
     linked env V exch (snd (card_cmd exch cmd arg crc c)) m s')"
  unfolding sd_cmd_def sd_dummy_def card_cmd_def cmd_frame_def
  by (intro txrx_then) (rule assms | assumption | (erule sd_cmd_poll_linked [THEN tw_weaken], simp add: split_beta Let_def))+

lemma sd_cmd_then:
  assumes "linked env V exch c m s"
    and "\<And>s'. linked env V exch (snd (card_cmd exch cmd arg crc c)) m s' \<Longrightarrow>
      tw (k (fst (card_cmd exch cmd arg crc c)) s') Q"
  shows "tw (sd_cmd env cmd arg crc s \<bind> (\<lambda>(r, s'). k r s')) Q"
  by (rule tw_bind2 [OF sd_cmd_linked [OF assms(1)]]) (use assms(2) in auto)

lemma sd_dummies_linked:
  "linked env V exch c m s \<Longrightarrow>
   tw (sd_dummies env n s) (linked env V exch (snd (card_read exch n c)) m)"
  by (induction n arbitrary: s c)
    (auto simp: card_read_def sd_dummy_def split_beta Let_def intro!: txrx_then)

text \<open>Every printing block leaves the card and memory alone.\<close>

lemma print_status_emit: "\<exists>bs. \<forall>s. print_status env cmd r s = emit (write_serial env) bs s"
  unfolding print_status_def print_emit emit_seq_then emit_seq by blast

lemma print_status_then:
  assumes "linked env V exch c m s" and "\<And>s'. linked env V exch c m s' \<Longrightarrow> tw (k s') Q"
  shows "tw (print_status env cmd r s \<bind> k) Q"
proof -
  obtain bs where "\<And>s. print_status env cmd r s = emit (write_serial env) bs s"
    using print_status_emit by blast
  then show ?thesis using linked_emit_then [OF assms] by simp
qed

lemmas link_rules = txrx_then sd_cmd_then print_status_then linked_emit_then

lemma card_read_Suc:
  "card_read exch 0 c = ([], c)"
  "card_read exch (Suc n) c =
     (let (r, c) = exch 0xFF c; (rs, c) = card_read exch n c in (r # rs, c))"
  by (simp_all add: card_read_def)

lemma card_read_numeral:
  "card_read exch (numeral k) c =
     (let (r, c) = exch 0xFF c; (rs, c) = card_read exch (pred_numeral k) c in (r # rs, c))"
  by (simp add: numeral_eq_Suc card_read_Suc split_beta Let_def)

lemma sd_cmd8_linked:
  assumes "linked env V exch c m s"
  shows "tw (sd_cmd8 env s) (\<lambda>(ok, s'). ok = fst (card_cmd8 exch c) \<and>
     linked env V exch (snd (card_cmd8 exch c)) m s')"
  unfolding sd_cmd8_def sd_dummy_def
  by (intro link_rules | rule assms | assumption)+
    (simp add: card_cmd8_def card_read_numeral card_read_Suc split_beta Let_def)

lemma sd_cmd0_loop_linked:
  "linked env V exch c m s \<Longrightarrow> r \<noteq> 1 \<Longrightarrow> tw (sd_cmd0_loop env (int (Suc n)) r s) (\<lambda>(res, s').
     res = (if fst (card_cmd0 exch (Suc n) c) then Some 1 else None) \<and>
     linked env V exch (snd (card_cmd0 exch (Suc n) c)) m s')"
proof (induction n arbitrary: s c r)
  case 0
  then show ?case
    by (subst sd_cmd0_loop.simps, simp only: if_True simp_thms sd_dummy_def, intro sd_cmd_then txrx_then)
      (assumption | simp add: split_beta Let_def)+
next
  case (Suc n)
  let ?r = "fst (card_cmd exch 0 0 0x95 c)" and ?c = "snd (exch 0xFF (snd (card_cmd exch 0 0 0x95 c)))"
  have spec: "card_cmd0 exch (Suc (Suc n)) c = (if ?r = 1 then (True, ?c) else card_cmd0 exch (Suc n) ?c)"
    by (simp add: split_beta Let_def)
  have loop: "tw (sd_cmd0_loop env (int (Suc n)) ?r s2) (\<lambda>(res, s').
       res = (if fst (card_cmd0 exch (Suc (Suc n)) c) then Some 1 else None) \<and>
       linked env V exch (snd (card_cmd0 exch (Suc (Suc n)) c)) m s')"
    if "linked env V exch ?c m s2" for s2
  proof (cases "?r = 1")
    case True
    with that show ?thesis by (simp add: spec sd_cmd0_loop.simps del: card_cmd0.simps)
  next
    case False
    with Suc.IH [OF that] show ?thesis by (simp only: spec if_False)
  qed
  have "\<not> int (Suc (Suc n)) - 1 \<le> 0" "int (Suc (Suc n)) - 1 = int (Suc n)" by simp_all
  then show ?case
    by (subst sd_cmd0_loop.simps, simp only: Suc.prems(2) if_True if_False simp_thms sd_dummy_def)
      (intro sd_cmd_then [OF Suc.prems(1)] txrx_then loop, assumption+)
qed

lemma sd_cmd0_linked:
  assumes "linked env V exch c m s"
  shows "tw (sd_cmd0 env s) (\<lambda>(ok, s'). ok = fst (card_cmd0 exch 10000 c) \<and>
     linked env V exch (snd (card_cmd0 exch 10000 c)) m s')"
  unfolding sd_cmd0_def
proof (rule tw_bind2)
  show "tw (sd_cmd0_loop env 10000 0xff s) (\<lambda>(res, s').
     (res = (if fst (card_cmd0 exch 10000 c) then Some 1 else None)) \<and>
     linked env V exch (snd (card_cmd0 exch 10000 c)) m s')"
    using sd_cmd0_loop_linked [OF assms, of "0xff" 9999] by simp
next
  fix res :: "u8 option" and s1 assume "case (res, s1) of (res, s') \<Rightarrow>
     (res = (if fst (card_cmd0 exch 10000 c) then Some 1 else None)) \<and>
     linked env V exch (snd (card_cmd0 exch 10000 c)) m s'"
  then show "tw (case res of None \<Rightarrow> Some (False, s1)
      | Some r \<Rightarrow> print_status env ''cmd0'' r s1 \<bind> (\<lambda>s. Some (r = 1, s)))
    (\<lambda>(ok, s'). ok = fst (card_cmd0 exch 10000 c) \<and> linked env V exch (snd (card_cmd0 exch 10000 c)) m s')"
    by (auto intro!: print_status_then split: if_splits)
qed

lemma sd_cmd55_linked:
  assumes "linked env V exch c m s"
  shows "tw (sd_cmd55 env s) (\<lambda>(ok, s'). linked env V exch (snd (exch 0xFF (snd (card_cmd exch 55 0 0x65 c)))) m s')"
  unfolding sd_cmd55_def sd_dummy_def
  by (intro link_rules | rule assms | assumption | simp)+

lemma print_status_linked:
  "linked env V exch c m s \<Longrightarrow> tw (print_status env cmd r s) (linked env V exch c m)"
  using print_status_then [of env V exch c m s Some "linked env V exch c m" cmd r] by simp

text \<open>One round of the ACMD41 loop, whatever follows it.\<close>

lemma acmd41_round:
  assumes "linked env V exch c m s"
  shows "\<exists>s'. linked env V exch (snd (card_try41 exch c)) m s' \<and>
    sd_cmd55 env s \<bind> (\<lambda>(_, s). sd_cmd env 41 0x40000000 0x77 s \<bind> (\<lambda>(r, s). print_status env ''cmd41'' r s \<bind>
      (\<lambda>s. sd_dummy env s \<bind> (\<lambda>(_, s). k r s)))) = k (fst (card_try41 exch c)) s'"
proof -
  from sd_cmd55_linked [OF assms] obtain ok s1 where 1: "sd_cmd55 env s = Some (ok, s1)"
    "linked env V exch (snd (exch 0xFF (snd (card_cmd exch 55 0 0x65 c)))) m s1" by (auto elim!: twE)
  from sd_cmd_linked [OF 1(2), of 41 "0x40000000" "0x77"] obtain r s2 where
    2: "sd_cmd env 41 0x40000000 0x77 s1 = Some (r, s2)" and r: "r = fst (card_try41 exch c)"
    and l2: "linked env V exch (snd (card_cmd exch 41 0x40000000 0x77
        (snd (exch 0xFF (snd (card_cmd exch 55 0 0x65 c)))))) m s2"
    by (auto simp: card_try41_def split_beta Let_def elim!: twE)
  from print_status_linked [OF l2, of "''cmd41''" r] obtain s3 where
    3: "print_status env ''cmd41'' r s2 = Some s3" and l3: "linked env V exch (snd (card_cmd exch 41 0x40000000 0x77
        (snd (exch 0xFF (snd (card_cmd exch 55 0 0x65 c)))))) m s3" by (auto elim!: twE)
  from txrx_linked [OF l3, of "0xFF"] obtain x s4 where 4: "sd_dummy env s3 = Some (x, s4)"
    "linked env V exch (snd (card_try41 exch c)) m s4"
    by (auto simp: sd_dummy_def card_try41_def split_beta Let_def elim!: twE)
  from 1(1) 2 3 4 r show ?thesis by auto
qed

lemma sd_acmd41_linked:
  assumes "card_acmd41 exch c = Some (ok, c')" and "linked env V exch c m s"
  shows "tw (sd_acmd41 env s) (\<lambda>(ok', s'). ok' = ok \<and> linked env V exch c' m s')"
proof -
  have "\<forall>s. linked env V exch c m s \<longrightarrow>
      tw (sd_acmd41 env s) (\<lambda>(ok', s'). ok' = fst (ok, c') \<and> linked env V exch (snd (ok, c')) m s')"
  proof (rule card_acmd41.raw_induct [where P = "\<lambda>exch' c res. exch' = exch \<longrightarrow> (\<forall>s. linked env V exch c m s \<longrightarrow>
        tw (sd_acmd41 env s) (\<lambda>(ok', s'). ok' = fst res \<and> linked env V exch (snd res) m s'))",
        OF _ assms(1), THEN mp, OF _ refl], intro impI allI, goal_cases)
    case (1 f exch' c res s)
    from acmd41_round [OF 1(4), of "\<lambda>r s. if r = 1 then sd_acmd41 env s else Some (r = 0, s)"] 1 show ?case
      by (subst sd_acmd41.simps) (auto simp: split_beta Let_def split: if_splits)
  qed
  with assms(2) show ?thesis by simp
qed

lemma init_sd_linked:
  assumes "uart_ready env (spi_part V exch) s" "quad_spi env V exch" "spi_timing env V 64" "spi_idle V (dev s)"
    and spec: "card_init exch (vcard V (dev s)) = Some (rc, c')"
  shows "tw (init_sd env s) (\<lambda>(rc', s'). rc' = rc \<and> linked env V exch c' (ram s) s')"
proof -
  let ?c = "vcard V (dev s)" and ?m = "ram s"
  obtain ok0 c0 where c0: "card_cmd0 exch 10000 (snd (card_read exch 10 ?c)) = (ok0, c0)" by fastforce
  obtain ok8 c8 where c8: "card_cmd8 exch c0 = (ok8, c8)" by fastforce
  note spec = spec [unfolded card_init_def c0 Let_def prod.case c8]
  have 41: "tw (sd_acmd41 env s8 \<bind> (\<lambda>(ok, s). if \<not> ok then Some (SD_INIT_ERROR_ACMD41, s) else Some (0, s)))
      (\<lambda>(rc', s'). rc' = rc \<and> linked env V exch c' ?m s')"
    if "linked env V exch c8 ?m s8" and sp: "card_acmd41 exch c8 \<bind> (\<lambda>(ok, c). Some (if ok then 0 else - 3, c)) = Some (rc, c')" for s8
  proof -
    from sp obtain ok where "card_acmd41 exch c8 = Some (ok, c')" "rc = (if ok then 0 else - 3)"
      by (auto simp: bind_eq_Some_conv)
    then show ?thesis
      by (auto simp: SD_INIT_ERROR_ACMD41_def intro!: tw_bind2 [OF sd_acmd41_linked [OF _ that(1)]])
  qed
  have 8: "tw (sd_cmd8 env s0 \<bind> (\<lambda>(ok, s). if \<not> ok then Some (SD_INIT_ERROR_CMD8, s) else sd_acmd41 env s \<bind>
        (\<lambda>(ok, s). if \<not> ok then Some (SD_INIT_ERROR_ACMD41, s) else Some (0, s))))
      (\<lambda>(rc', s'). rc' = rc \<and> linked env V exch c' ?m s')"
    if "linked env V exch c0 ?m s0" "ok0" for s0
    using that spec by (intro tw_bind2 [OF sd_cmd8_linked]) (auto simp: c8 SD_INIT_ERROR_CMD8_def intro!: 41)
  have "tw (spi_init env s) (linked env V exch ?c ?m)"
    by (rule tw_weaken [OF spi_init_total [OF assms(1-3)]]) (use assms(4) in \<open>auto simp: linked_def\<close>)
  then show ?thesis unfolding init_sd_def print_uart_emit
    by (intro tw_bind [where m = "spi_init env s"] linked_emit_then tw_bind [OF sd_dummies_linked] tw_bind2 [OF sd_cmd0_linked];
        (assumption)?) (use spec in \<open>auto simp: c0 SD_INIT_ERROR_CMD0_def intro!: 8\<close>)
qed

lemma sd_wait_token_linked:
  assumes "card_token exch c = Some c'" and "linked env V exch c m s"
  shows "tw (sd_wait_token env s) (linked env V exch c' m)"
proof -
  have "\<forall>s. linked env V exch c m s \<longrightarrow> tw (sd_wait_token env s) (linked env V exch c' m)"
  proof (rule card_token.raw_induct [where P = "\<lambda>exch' c c'. exch' = exch \<longrightarrow>
        (\<forall>s. linked env V exch c m s \<longrightarrow> tw (sd_wait_token env s) (linked env V exch c' m))",
        OF _ assms(1), THEN mp, OF _ refl], intro impI allI, goal_cases)
    case (1 f exch' c c' s)
    show ?case
      by (subst sd_wait_token.simps, unfold sd_dummy_def, rule txrx_then [OF 1(4)])
        (use 1 in \<open>auto simp: split_beta Let_def SD_DATA_TOKEN_def split: if_splits\<close>)
  qed
  with assms(2) show ?thesis by simp
qed

lemma length_card_read [simp]: "length (fst (card_read exch n c)) = n"
  by (simp add: card_read_def)

lemma card_read_add:
  "card_read exch (j + k) c =
     (fst (card_read exch j c) @ fst (card_read exch k (snd (card_read exch j c))),
      snd (card_read exch k (snd (card_read exch j c))))"
  by (simp add: card_read_def replicate_add xchg_append)

text \<open>One transfer of 64 filler bytes: the answers land at \<open>p\<close> and enter the checksum.\<close>

lemma sd_chunk_linked:
  assumes "linked env V exch c m s" and "ram_bytes m ff 64 = replicate 64 0xFF"
  shows "tw (spi_write_bytes env ff 64 p s) (\<lambda>(rc, s').
     linked env V exch (snd (card_read exch 64 c)) (store_bytes p (fst (card_read exch 64 c)) m) s')"
proof -
  from assms(1) have "spi_ok env V exch s" "spi_timing env V 64" by (simp_all add: linked_def spi_ok_def)
  then show ?thesis
    by (intro tw_weaken [OF spi_write_bytes_total [of env V exch s 64 ff p]])
      (use assms in \<open>auto simp: linked_def card_read_def\<close>)
qed

lemma crc_of_stored:
  assumes "length bs = 64"
  shows "foldl (\<lambda>crc i. crc16 crc (store_bytes p bs m (p + of_nat i))) crc [0..<64] = foldl crc16 crc bs"
proof -
  have "foldl (\<lambda>crc i. crc16 crc (store_bytes p bs m (p + of_nat i))) crc [0..<64]
      = foldl crc16 crc (ram_bytes (store_bytes p bs m) p (length bs))"
    by (simp add: ram_bytes_def foldl_map assms)
  also have "ram_bytes (store_bytes p bs m) p (length bs) = bs"
    by (rule ram_bytes_store_same) (simp add: assms)
  finally show ?thesis .
qed

lemma sd_block_loop_linked:
  "linked env V exch c m s \<Longrightarrow> ram_bytes m ff 64 = replicate 64 0xFF \<Longrightarrow>
   disjoint_obj ff 64 p (64 * Suc k) \<Longrightarrow> 64 * Suc k \<le> 2 ^ 64 \<Longrightarrow>
   tw (sd_block_loop env ff p (int (64 * Suc k)) crc s) (\<lambda>(crc', p', s').
     crc' = foldl crc16 crc (fst (card_read exch (64 * Suc k) c)) \<and> p' = p + of_nat (64 * Suc k) \<and>
     linked env V exch (snd (card_read exch (64 * Suc k) c))
       (store_bytes p (fst (card_read exch (64 * Suc k) c)) m) s')"
proof (induction k arbitrary: c m s p crc)
  case 0
  show ?case
    by (subst sd_block_loop.simps, rule tw_bind2 [OF sd_chunk_linked [OF "0.prems"(1,2)]])
      (simp add: Let_def linked_def crc_of_stored)
next
  case (Suc k)
  let ?bs = "fst (card_read exch 64 c)" and ?c = "snd (card_read exch 64 c)"
  have ff: "ram_bytes (store_bytes p ?bs m) ff 64 = replicate 64 0xFF"
    using Suc.prems(2,3) by (subst ram_bytes_store_disjoint) (auto elim: disjoint_obj_mono)
  have dis: "disjoint_obj ff 64 (p + 64) (64 * Suc k)"
    using disjoint_obj_shift [OF Suc.prems(3), of 64 "64 * Suc k"] by simp
  have split: "64 * Suc (Suc k) = 64 + 64 * Suc k" by simp
  show ?case
  proof (subst sd_block_loop.simps, rule tw_bind2 [OF sd_chunk_linked [OF Suc.prems(1,2)]], unfold prod.case Let_def)
    fix s' assume s': "linked env V exch ?c (store_bytes p ?bs m) s'"
    then have ram: "ram s' = store_bytes p ?bs m" by (simp add: linked_def)
    have mem: "store_bytes (p + 64) ys (store_bytes p ?bs m) = store_bytes p (?bs @ ys) m"
      if "length ys = 64 * Suc k" for ys
      using store_bytes_append [of ?bs ys p m] Suc.prems(4) that by simp
    have "\<not> int (64 * Suc (Suc k)) - 64 \<le> 0" "int (64 * Suc (Suc k)) - 64 = int (64 * Suc k)" by simp_all
    then show "tw (if 0 < int (64 * Suc (Suc k)) - 64
         then sd_block_loop env ff (p + 64) (int (64 * Suc (Suc k)) - 64)
                (foldl (\<lambda>crc i. crc16 crc (ram s' (p + of_nat i))) crc [0..<64]) s'
         else Some (foldl (\<lambda>crc i. crc16 crc (ram s' (p + of_nat i))) crc [0..<64], p + 64, s'))
       (\<lambda>(crc', p', s'). crc' = foldl crc16 crc (fst (card_read exch (64 * Suc (Suc k)) c)) \<and>
         p' = p + of_nat (64 * Suc (Suc k)) \<and>
         linked env V exch (snd (card_read exch (64 * Suc (Suc k)) c))
           (store_bytes p (fst (card_read exch (64 * Suc (Suc k)) c)) m) s')"
      using Suc.IH [OF s' ff dis, of "foldl crc16 crc ?bs"] Suc.prems(4)
      unfolding split card_read_add by (auto simp: ram crc_of_stored mem not_le elim!: tw_weaken)
  qed
qed

lemma sd_copy_block_linked:
  assumes "linked env V exch c m s" and "card_block exch c = Some (bs, crc, c')"
    and "ram_bytes m ff 64 = replicate 64 0xFF" and "disjoint_obj ff 64 p 512"
  shows "tw (sd_copy_block env ff p i s) (\<lambda>(good, p', s'). good = (foldl crc16_ref 0 bs = crc) \<and>
     p' = p + 512 \<and> linked env V exch c' (store_bytes p bs m) s')"
proof -
  obtain c1 where c1: "card_token exch c = Some c1"
    using assms(2) by (auto simp: card_block_def bind_eq_Some_conv)
  let ?c2 = "snd (card_read exch 512 c1)"
  let ?hi = "fst (exch 0xFF ?c2)" and ?c3 = "snd (exch 0xFF ?c2)"
  let ?lo = "fst (exch 0xFF ?c3)" and ?c4 = "snd (exch 0xFF ?c3)"
  have spec: "bs = fst (card_read exch 512 c1)" "crc = push_bit 8 (ucast ?hi) OR ucast ?lo" "c' = ?c4"
    using assms(2) by (simp_all add: card_block_def c1 card_read_numeral(1) [where k = "num.Bit0 num.One"]
        card_read_Suc split_beta Let_def)
  have block: "tw (sd_block_loop env ff p 512 0 s1) (\<lambda>(crc', p', s'). crc' = foldl crc16_ref 0 bs \<and>
      p' = p + 512 \<and> linked env V exch ?c2 (store_bytes p bs m) s')" if "linked env V exch c1 m s1" for s1
    using sd_block_loop_linked [OF that assms(3), of p 7 0] assms(4)
    by (simp add: spec(1) crc16_eq_ref [abs_def])
  have tail: "tw (spi_txrx env 0xFF s2 \<bind> (\<lambda>(hi, s). spi_txrx env 0xFF s \<bind> (\<lambda>(lo, s).
       if foldl crc16_ref 0 bs \<noteq> push_bit 8 (ucast hi) OR ucast lo then Some (False, p + 512, s)
       else (if i mod 1000 = 0 then print_uart env ''.'' s else Some s) \<bind> (\<lambda>s. Some (True, p + 512, s)))))
     (\<lambda>(good, p', s'). good = (foldl crc16_ref 0 bs = crc) \<and> p' = p + 512 \<and>
       linked env V exch c' (store_bytes p bs m) s')"
    if "linked env V exch ?c2 (store_bytes p bs m) s2" for s2
    unfolding print_uart_emit
    by (rule txrx_then [OF that], erule txrx_then)
      (auto simp: spec(2,3) intro!: linked_emit_then)
  show ?thesis unfolding sd_copy_block_def sd_dummy_def Let_def
    by (rule tw_bind [OF sd_wait_token_linked [OF c1 assms(1)]], rule tw_bind [OF block])
      (use tail in auto)
qed

lemma card_block_length: "card_block exch c = Some (bs, crc, c') \<Longrightarrow> length bs = 512"
  by (auto simp: card_block_def bind_eq_Some_conv Let_def split_beta)

lemma card_blocks_length: "card_blocks exch k c = Some (rc, bs, c') \<Longrightarrow> length bs \<le> 512 * Suc k"
  by (induction k arbitrary: c rc bs)
    (fastforce simp: bind_eq_Some_conv dest!: card_block_length split: if_splits)+

lemma sd_copy_loop_linked:
  "linked env V exch c m s \<Longrightarrow> card_blocks exch k c = Some (rc, bs, c') \<Longrightarrow> 0 \<le> i \<Longrightarrow> nat i - 1 = k \<Longrightarrow>
   ram_bytes m ff 64 = replicate 64 0xFF \<Longrightarrow> disjoint_obj ff 64 p (512 * Suc k) \<Longrightarrow> 512 * Suc k \<le> 2 ^ 64 \<Longrightarrow>
   tw (sd_copy_loop env ff p i s) (\<lambda>(rc', s'). rc' = rc \<and> linked env V exch c' (store_bytes p bs m) s')"
proof (induction k arbitrary: c m s rc bs i p)
  case 0
  from "0.prems"(2) obtain crc where b: "card_block exch c = Some (bs, crc, c')"
    and rc: "rc = (if foldl crc16_ref 0 bs = crc then 0 else - 2)" by (auto simp: bind_eq_Some_conv)
  have "\<not> 0 < i - 1" using "0.prems"(3,4) by linarith
  then show ?case
    by (subst sd_copy_loop.simps, intro tw_bind [OF sd_copy_block_linked [OF "0.prems"(1) b "0.prems"(5)]])
      (use "0.prems"(6) rc in \<open>auto simp: SD_COPY_ERROR_CMD18_CRC_def\<close>)
next
  case (Suc k)
  from Suc.prems(2) obtain bs1 crc c1 where b: "card_block exch c = Some (bs1, crc, c1)"
    and rest: "(if foldl crc16_ref 0 bs1 = crc then card_blocks exch k c1 \<bind> (\<lambda>(rc, bs', c). Some (rc, bs1 @ bs', c))
      else Some (- 2, bs1, c1)) = Some (rc, bs, c')"
    by (auto simp: bind_eq_Some_conv split: if_splits)
  have len: "length bs1 = 512" by (rule card_block_length [OF b])
  have i: "0 < i - 1" "0 \<le> i - 1" "nat (i - 1) - 1 = k" using Suc.prems(4) by simp_all
  have dis: "disjoint_obj ff 64 p 512" using Suc.prems(6) by (rule disjoint_obj_mono) simp_all
  have dis': "disjoint_obj ff 64 (p + 512) (512 * Suc k)"
    using disjoint_obj_shift [OF Suc.prems(6), of 512 "512 * Suc k"] by simp
  have ff: "ram_bytes (store_bytes p bs1 m) ff 64 = replicate 64 0xFF"
    using Suc.prems(5) dis len by (subst ram_bytes_store_disjoint) auto
  have next_block: "tw (sd_copy_loop env ff (p + 512) (i - 1) s1)
      (\<lambda>(rc', s'). rc' = rc \<and> linked env V exch c' (store_bytes p bs m) s')"
    if s1: "linked env V exch c1 (store_bytes p bs1 m) s1" and good: "foldl crc16_ref 0 bs1 = crc" for s1
  proof -
    from rest good obtain bs' where b': "card_blocks exch k c1 = Some (rc, bs', c')" and bs: "bs = bs1 @ bs'"
      by (auto simp: bind_eq_Some_conv)
    have "store_bytes (p + 512) bs' (store_bytes p bs1 m) = store_bytes p bs m"
      using store_bytes_append [of bs1 bs' p m] card_blocks_length [OF b'] Suc.prems(7) by (simp add: bs len)
    then show ?thesis using Suc.IH [OF s1 b' i(2,3) ff dis'] Suc.prems(7) by simp
  qed
  show ?case
    by (subst sd_copy_loop.simps, rule tw_bind [OF sd_copy_block_linked [OF Suc.prems(1) b Suc.prems(5) dis]])
      (use rest i(1) next_block in \<open>auto simp: SD_COPY_ERROR_CMD18_CRC_def\<close>)
qed

lemma fill_ff:
  assumes "n < 2 ^ 64"
  shows "foldl (\<lambda>m j. m(ff + of_nat j := 0xff)) m [0..<n] = store_bytes ff (replicate n 0xFF) m"
  using assms
proof (induction n)
  case 0
  show ?case by simp
next
  case (Suc n)
  then show ?case
    using store_bytes_snoc [of "replicate n 0xFF" ff m "0xFF"]
    by (simp add: replicate_append_same fun_upd_def)
qed

lemma sd_copy_crc: "(let crc = crc7 0 a; crc = crc7 crc b; crc = crc7 crc c; crc = crc7 crc d; crc = crc7 crc e in
    push_bit 1 crc OR 1) = 1"
  by (simp add: crc7_def Let_def)

definition sd_buffers :: "addr \<Rightarrow> addr \<Rightarrow> nat \<Rightarrow> bool" where
  "sd_buffers ff dst n \<longleftrightarrow> disjoint_obj ff 128 dst (512 * max 1 n)"

lemma sd_copy_linked:
  assumes "linked env V exch c m s" and spec: "card_copy exch lba (unat sz) c = Some (rc, bs, c')"
    and dis: "sd_buffers ff dst (unat sz)"
  shows "tw (sd_copy env ff dst lba sz s) (\<lambda>(rc', s'). rc' = rc \<and>
     linked env V exch c' (store_bytes dst bs (store_bytes ff (replicate 128 0xFF) m)) s')"
proof -
  let ?m = "store_bytes ff (replicate 128 0xFF) m"
  obtain r c1 where c1: "card_cmd exch 18 lba 1 c = (r, c1)" by fastforce
  note spec = spec [unfolded card_copy_def c1 Let_def prod.case]
  have s1: "linked env V exch c ?m (s\<lparr>ram := store_bytes ff (replicate 128 0xFF) (ram s)\<rparr>)"
    using assms(1) by (simp add: linked_def spi_ok_def console_ok_def)
  have ff: "ram_bytes ?m ff 64 = replicate 64 0xFF"
    by (rule nth_equalityI) (simp_all add: store_bytes_at)
  have size: "512 * Suc (unat sz - 1) = 512 * max 1 (unat sz)" "512 * Suc (unat sz - 1) \<le> 2 ^ 64"
    using unsigned_less [of sz, where 'a = nat] by auto
  have err: "tw (sd_dummies env 8 s2 \<bind> (\<lambda>s. print_uart env (''could not read SD block'' @ CRLF) s \<bind> (\<lambda>s. Some (- 1, s))))
      (\<lambda>(rc', s'). rc' = rc \<and> linked env V exch c' (store_bytes dst bs ?m) s')"
    if "linked env V exch c1 ?m s2" "r \<noteq> 0" for s2
    using spec that unfolding print_uart_emit
    by (intro tw_bind [OF sd_dummies_linked [OF that(1)]] linked_emit_then) auto
  have run: "tw (sd_copy_loop env ff dst (uint sz) s2 \<bind> (\<lambda>(rc, s). sd_cmd env 12 0 1 s \<bind> (\<lambda>(_, s).
        spi_txrx env 0xFF s \<bind> (\<lambda>(_, s). Some (rc, s)))))
      (\<lambda>(rc', s'). rc' = rc \<and> linked env V exch c' (store_bytes dst bs ?m) s')"
    if "linked env V exch c1 ?m s2" "r = 0" for s2
  proof -
    from spec that(2) obtain c2 where b: "card_blocks exch (unat sz - 1) c1 = Some (rc, bs, c2)"
      and c': "c' = snd (exch 0xFF (snd (card_cmd exch 12 0 1 c2)))" by (auto simp: bind_eq_Some_conv)
    have "disjoint_obj ff 64 dst (512 * Suc (unat sz - 1))"
      using dis unfolding sd_buffers_def size(1) by (rule disjoint_obj_mono) simp_all
    from sd_copy_loop_linked [OF that(1) b _ _ ff this size(2), of "uint sz"]
    have "tw (sd_copy_loop env ff dst (uint sz) s2) (\<lambda>(rc', s'). rc' = rc \<and>
        linked env V exch c2 (store_bytes dst bs ?m) s')" by simp
    then show ?thesis
      by (rule tw_bind) (auto simp: c' intro!: sd_cmd_then txrx_then)
  qed
  show ?thesis
    unfolding sd_copy_def Let_def fill_ff [of 128, simplified] SD_CMD_STOP_TRANSMISSION_def sd_dummy_def
      sd_copy_crc [unfolded Let_def]
    by (rule sd_cmd_then [OF s1], cases "r = 0") (simp_all only: c1 fst_conv snd_conv simp_thms if_True if_False err run)
qed

section \<open>A compliant card\<close>

text \<open>
  The part of an SD card's behaviour (SPI mode, block addressed, CRC checking off as it is
  after reset) that reading relies on. \<open>phase\<close> abstracts the card's state. A ready card
  accepts a multi-block read of an address below its capacity; a streaming card sends, after
  some filler, the data token, the block and its checksum, and goes on with the next block;
  the stop command ends the stream. Its response may come late and be followed by a busy
  signal (R1b) of any length, so that after the one filler byte that \<open>sd_copy\<close> sends behind the
  command the card is ready again or still \<open>Stopping\<close>.
\<close>

datatype card_phase = Unready | Ready | Streaming nat | Stopping

definition crc_bytes :: "u8 list \<Rightarrow> u8 list" where
  "crc_bytes bs = (let w = foldl crc16_ref 0 bs in [ucast (drop_bit 8 w), ucast w])"

definition sd_card ::
    "(u8 \<Rightarrow> 'c \<Rightarrow> u8 \<times> 'c) \<Rightarrow> (nat \<Rightarrow> u8 list) \<Rightarrow> nat \<Rightarrow> ('c \<Rightarrow> card_phase) \<Rightarrow> bool" where
  "sd_card exch disk cap phase \<longleftrightarrow>
     (\<forall>l. length (disk l) = 512) \<and>
     (\<forall>c lba crc. phase c = Ready \<longrightarrow> unat lba < cap \<longrightarrow>
        fst (card_cmd exch 18 lba crc c) = 0 \<and>
        phase (snd (card_cmd exch 18 lba crc c)) = Streaming (unat lba)) \<and>
     (\<forall>c l. phase c = Streaming l \<longrightarrow> l < cap \<longrightarrow> (\<exists>pre. 0xFE \<notin> set pre \<and>
        fst (card_read exch (length pre + 515) c) = pre @ [0xFE] @ disk l @ crc_bytes (disk l) \<and>
        phase (snd (card_read exch (length pre + 515) c)) = Streaming (l + 1))) \<and>
     (\<forall>c l. phase c = Streaming l \<longrightarrow>
        phase (snd (exch 0xFF (snd (card_cmd exch 12 0 1 c)))) \<in> {Ready, Stopping})"

text \<open>
  The driver does not wait for the end of the busy signal before the next command. A board on
  which several reads follow each other therefore needs a card that is done with the stop command
  after that filler byte, which the protocol does not promise.
\<close>

definition stop_prompt :: "(u8 \<Rightarrow> 'c \<Rightarrow> u8 \<times> 'c) \<Rightarrow> ('c \<Rightarrow> card_phase) \<Rightarrow> bool" where
  "stop_prompt exch phase \<longleftrightarrow> (\<forall>c l. phase c = Streaming l \<longrightarrow>
     phase (snd (exch 0xFF (snd (card_cmd exch 12 0 1 c)))) \<noteq> Stopping)"

lemma sd_card_len: "sd_card exch disk cap phase \<Longrightarrow> length (disk l) = 512"
  by (simp add: sd_card_def)

lemma card_token_found:
  "0xFE \<notin> set pre \<Longrightarrow> fst (card_read exch (length pre + 1) c) = pre @ [0xFE] \<Longrightarrow>
   card_token exch c = Some (snd (card_read exch (length pre + 1) c))"
proof (induction pre arbitrary: c)
  case Nil
  then show ?case by (subst card_token.simps) (auto simp: card_read_Suc split_beta Let_def)
next
  case (Cons a pre)
  then show ?case by (subst card_token.simps) (auto simp: card_read_Suc split_beta Let_def)
qed

lemma crc_bytes_value:
  "push_bit 8 (ucast (crc_bytes bs ! 0)) OR ucast (crc_bytes bs ! 1) = foldl crc16_ref 0 bs"
  unfolding crc_bytes_def Let_def by (rule bit_word_eqI) (auto simp: bit_simps)

lemma sd_card_block:
  assumes "sd_card exch disk cap phase" and "phase c = Streaming l" "l < cap"
  shows "\<exists>c'. card_block exch c = Some (disk l, foldl crc16_ref 0 (disk l), c') \<and> phase c' = Streaming (l + 1)"
proof -
  from assms obtain pre where pre: "0xFE \<notin> set pre"
    "fst (card_read exch (length pre + 515) c) = pre @ [0xFE] @ disk l @ crc_bytes (disk l)"
    "phase (snd (card_read exch (length pre + 515) c)) = Streaming (l + 1)"
    unfolding sd_card_def by blast
  have len: "length (disk l) = 512" using assms(1) by (simp add: sd_card_def)
  let ?c1 = "snd (card_read exch (length pre + 1) c)"
  let ?c2 = "snd (card_read exch 512 ?c1)"
  have parts: "card_read exch (length pre + 515) c =
      (fst (card_read exch (length pre + 1) c) @ fst (card_read exch 512 ?c1) @ fst (card_read exch 2 ?c2),
       snd (card_read exch 2 ?c2))"
    using card_read_add [of exch "length pre + 1" 514 c] card_read_add [of exch 512 2 ?c1] by (simp add: add.commute)
  have r: "fst (card_read exch (length pre + 1) c) = pre @ [0xFE] \<and> fst (card_read exch 512 ?c1) = disk l \<and>
      fst (card_read exch 2 ?c2) = crc_bytes (disk l)"
    using pre(2) len unfolding parts fst_conv
    by (subst (asm) append_assoc [symmetric, of pre], subst (asm) append_eq_append_conv) auto
  from card_token_found [OF pre(1) conjunct1 [OF r]] r pre(3) crc_bytes_value [of "disk l"] show ?thesis
    unfolding parts card_block_def by (simp add: split_beta Let_def)
qed

lemma sd_card_blocks:
  "sd_card exch disk cap phase \<Longrightarrow> phase c = Streaming l \<Longrightarrow> l + Suc k \<le> cap \<Longrightarrow>
   \<exists>c'. card_blocks exch k c = Some (0, concat (map disk [l..<l + Suc k]), c') \<and> phase c' = Streaming (l + Suc k)"
proof (induction k arbitrary: c l)
  case 0
  from sd_card_block [OF 0(1,2)] 0(3) show ?case by auto
next
  case (Suc k)
  from sd_card_block [OF Suc.prems(1,2)] Suc.prems(3) obtain c1 where
    c1: "card_block exch c = Some (disk l, foldl crc16_ref 0 (disk l), c1)" "phase c1 = Streaming (l + 1)" by auto
  from Suc.IH [OF Suc.prems(1) c1(2)] Suc.prems(3) obtain c' where
    "card_blocks exch k c1 = Some (0, concat (map disk [l + 1..<l + Suc (Suc k)]), c')"
    "phase c' = Streaming (l + Suc (Suc k))" by auto
  moreover have "[l..<l + Suc (Suc k)] = l # [l + 1..<l + Suc (Suc k)]" by (simp add: upt_rec)
  ultimately show ?case using c1(1) by simp
qed

lemma sd_card_copy:
  assumes "sd_card exch disk cap phase" and "phase c = Ready" and "unat lba + max 1 n \<le> cap"
  shows "\<exists>c'. card_copy exch lba n c = Some (0, concat (map disk [unat lba..<unat lba + max 1 n]), c') \<and>
    phase c' \<in> {Ready, Stopping} \<and> (stop_prompt exch phase \<longrightarrow> phase c' = Ready)"
proof -
  have "unat lba < cap" using assms(3) by simp
  with assms(1,2) have 18: "fst (card_cmd exch 18 lba 1 c) = 0"
    "phase (snd (card_cmd exch 18 lba 1 c)) = Streaming (unat lba)"
    unfolding sd_card_def by blast+
  have n: "Suc (n - 1) = max 1 n" by simp
  from sd_card_blocks [OF assms(1) 18(2), of "n - 1"] assms(3) obtain c1 where
    c1: "card_blocks exch (n - 1) (snd (card_cmd exch 18 lba 1 c))
       = Some (0, concat (map disk [unat lba..<unat lba + max 1 n]), c1)"
    "phase c1 = Streaming (unat lba + max 1 n)" unfolding n by auto
  let ?c2 = "snd (exch 0xFF (snd (card_cmd exch 12 0 1 c1)))"
  have "phase ?c2 \<in> {Ready, Stopping}" using assms(1) c1(2) unfolding sd_card_def by blast
  moreover from this have "phase ?c2 = Ready" if "stop_prompt exch phase"
    using that c1(2) unfolding stop_prompt_def by blast
  ultimately show ?thesis using 18(1) c1(1) by (simp add: card_copy_def split_beta Let_def)
qed

section \<open>What a call that returns leaves alone, whatever the devices do\<close>

lemma ram_then: "ifret m (\<lambda>(r, s'). ram s' = ram s) \<Longrightarrow>
    (\<And>r s'. ram s' = ram s \<Longrightarrow> ifret (k r s') Q) \<Longrightarrow> ifret (m \<bind> (\<lambda>(r, s'). k r s')) Q"
  by (cases m) auto

lemma txrx_ram_then:
  "ram s = m \<Longrightarrow> (\<And>r s'. ram s' = m \<Longrightarrow> ifret (k r s') Q) \<Longrightarrow> ifret (spi_txrx env b s \<bind> (\<lambda>(r, s'). k r s')) Q"
  by (rule ram_then [OF spi_txrx_ram]) auto

lemma emit_ram_then:
  "ram s = m \<Longrightarrow> (\<And>s'. ram s' = m \<Longrightarrow> ifret (k s') Q) \<Longrightarrow> ifret (emit (write_serial env) bs s \<bind> k) Q"
  by (rule ifret_bind [OF emit_ram]) auto

lemma sd_cmd_poll_ram [frame_rules]: "ifret (sd_cmd_poll env n s) (\<lambda>(r, s'). ram s' = ram s)"
proof (induction n arbitrary: s rule: less_induct)
  case (less n)
  show ?case
    by (subst sd_cmd_poll.simps, unfold sd_dummy_def, rule txrx_ram_then [OF refl])
      (auto intro!: ifret_weaken [OF less.IH])
qed

lemma sd_cmd_ram [frame_rules]: "ifret (sd_cmd env cmd arg crc s) (\<lambda>(r, s'). ram s' = ram s)"
  unfolding sd_cmd_def sd_dummy_def
  by (intro txrx_ram_then, rule refl) (auto intro!: ifret_weaken [OF sd_cmd_poll_ram])

lemma sd_cmd_ram_then:
  "ram s = m \<Longrightarrow> (\<And>r s'. ram s' = m \<Longrightarrow> ifret (k r s') Q) \<Longrightarrow>
   ifret (sd_cmd env cmd arg crc s \<bind> (\<lambda>(r, s'). k r s')) Q"
  by (rule ram_then [OF sd_cmd_ram]) auto

lemma sd_dummies_ram [frame_rules]: "ifret (sd_dummies env n s) (\<lambda>s'. ram s' = ram s)"
  by (induction n arbitrary: s)
    (auto simp: sd_dummy_def ifret_def bind_eq_Some_conv dest!: ifretD [OF spi_txrx_ram])

lemma sd_wait_token_ram [frame_rules]: "ifret (sd_wait_token env s) (\<lambda>s'. ram s' = ram s)"
proof -
  have "ram s' = ram s" if "sd_wait_token env s = Some s'" for s'
  proof (rule sd_wait_token.raw_induct [where P = "\<lambda>env s s'. ram s' = ram s", OF _ that], goal_cases)
    case (1 f env s s')
    from 1(2) show ?case
      by (auto simp: sd_dummy_def bind_eq_Some_conv split: if_splits dest!: 1(1) ifretD [OF spi_txrx_ram])
  qed
  then show ?thesis by (rule ifretI)
qed

text \<open>\<open>unchanged a n m m'\<close>: outside the \<open>n\<close> bytes at \<open>a\<close> the memories agree.\<close>

definition unchanged :: "addr \<Rightarrow> nat \<Rightarrow> (addr \<Rightarrow> u8) \<Rightarrow> (addr \<Rightarrow> u8) \<Rightarrow> bool" where
  "unchanged a n m m' \<longleftrightarrow> (\<forall>x. in_obj a n x \<or> m' x = m x)"

lemma unchanged_refl [simp]: "unchanged a n m m"
  by (simp add: unchanged_def)

lemma unchanged_grow:
  "unchanged p k m m1 \<Longrightarrow> unchanged (p + of_nat k) n m1 m2 \<Longrightarrow> unchanged p (k + n) m m2"
  unfolding unchanged_def by (metis in_obj_shift in_obj_mono le_add1)

lemma unchanged_mono: "unchanged a n m m' \<Longrightarrow> n \<le> k \<Longrightarrow> unchanged a k m m'"
  unfolding unchanged_def by (meson in_obj_mono)

lemma sd_chunk_unchanged: "ifret (spi_write_bytes env ff 64 p s) (\<lambda>(rc, s'). unchanged p 64 (ram s) (ram s'))"
  by (rule ifret_weaken [OF spi_write_bytes_ram]) (auto simp: unchanged_def)

lemma sd_block_loop_unchanged:
  fixes s :: "'d cstate"
  shows "ifret (sd_block_loop env ff p (int (64 * Suc k)) crc s) (\<lambda>(crc', p', s').
     p' = p + of_nat (64 * Suc k) \<and> unchanged p (64 * Suc k) (ram s) (ram s'))"
proof (induction k arbitrary: p crc s)
  case 0
  show ?case
    by (subst sd_block_loop.simps, rule ifret_bind2 [OF sd_chunk_unchanged]) (simp add: Let_def)
next
  case (Suc k)
  have n: "int (64 * Suc (Suc k)) - 64 = int (64 * Suc k)" "0 < int (64 * Suc k)"
    "64 * Suc (Suc k) = 64 + 64 * Suc k" by simp_all
  show ?case
  proof (subst sd_block_loop.simps, rule ifret_bind2 [OF sd_chunk_unchanged], unfold Let_def n(1) prod.case)
    fix s1 :: "'d cstate" assume "unchanged p 64 (ram s) (ram s1)"
    with n(2) unchanged_grow [of p 64 "ram s" "ram s1" "64 * Suc k"]
    show "ifret (if 0 < int (64 * Suc k) then sd_block_loop env ff (p + 64) (int (64 * Suc k))
           (foldl (\<lambda>crc i. crc16 crc (ram s1 (p + of_nat i))) crc [0..<64]) s1
         else Some (foldl (\<lambda>crc i. crc16 crc (ram s1 (p + of_nat i))) crc [0..<64], p + 64, s1))
       (\<lambda>(crc', p', s'). p' = p + of_nat (64 * Suc (Suc k)) \<and> unchanged p (64 * Suc (Suc k)) (ram s) (ram s'))"
      unfolding n(3) if_P [OF n(2)] by (intro ifret_weaken [OF Suc.IH]) auto
  qed
qed

lemma sd_copy_block_unchanged:
  fixes s :: "'d cstate"
  shows "ifret (sd_copy_block env ff p i s) (\<lambda>(good, p', s'). p' = p + 512 \<and> unchanged p 512 (ram s) (ram s'))"
  unfolding sd_copy_block_def sd_dummy_def print_uart_emit Let_def
proof (rule ifret_bind [OF sd_wait_token_ram])
  fix s1 :: "'d cstate" assume s1: "ram s1 = ram s"
  have block: "ifret (sd_block_loop env ff p 512 0 s1) (\<lambda>(crc', p', s').
      p' = p + 512 \<and> unchanged p 512 (ram s) (ram s'))"
    using sd_block_loop_unchanged [of env ff p 7 0 s1] by (simp add: s1)
  show "ifret (sd_block_loop env ff p 512 0 s1 \<bind> (\<lambda>(crc, p, s). spi_txrx env 0xFF s \<bind> (\<lambda>(hi, s).
      spi_txrx env 0xFF s \<bind> (\<lambda>(lo, s). if crc \<noteq> push_bit 8 (ucast hi) OR ucast lo then Some (False, p, s)
      else (if i mod 1000 = 0 then emit (write_serial env) (cstr_bytes ''.'') s else Some s) \<bind>
        (\<lambda>s. Some (True, p, s))))))
    (\<lambda>(good, p', s'). p' = p + 512 \<and> unchanged p 512 (ram s) (ram s'))"
    by (rule ifret_bind [OF block]) (auto intro!: txrx_ram_then emit_ram_then)
qed

lemma sd_copy_loop_unchanged:
  fixes s :: "'d cstate"
  shows "nat i - 1 = k \<Longrightarrow>
    ifret (sd_copy_loop env ff p i s) (\<lambda>(rc, s'). unchanged p (512 * Suc k) (ram s) (ram s'))"
proof (induction k arbitrary: i p s)
  case 0
  then have "\<not> 0 < i - 1" by linarith
  then show ?case
    by (subst sd_copy_loop.simps, intro ifret_bind [OF sd_copy_block_unchanged]) auto
next
  case (Suc k)
  have i: "nat (i - 1) - 1 = k" using Suc.prems by simp
  have rest: "ifret (sd_copy_loop env ff (p + 512) (i - 1) s1)
      (\<lambda>(rc, s'). unchanged p (512 * Suc (Suc k)) (ram s) (ram s'))"
    if "unchanged p 512 (ram s) (ram s1)" for s1 :: "'d cstate"
    using unchanged_grow [OF that, of "512 * Suc k"] by (intro ifret_weaken [OF Suc.IH [OF i]]) auto
  have "unchanged p 512 (ram s) (ram s1) \<Longrightarrow> unchanged p (512 * Suc (Suc k)) (ram s) (ram s1)" for s1 :: "'d cstate"
    by (erule unchanged_mono) simp
  with rest show ?case
    by (subst sd_copy_loop.simps, intro ifret_bind [OF sd_copy_block_unchanged])
      (auto simp del: mult_Suc_right)
qed

lemma sd_copy_unchanged:
  "ifret (sd_copy env ff dst lba sz s) (\<lambda>(rc, s').
     \<forall>x. in_obj dst (512 * max 1 (unat sz)) x \<or> in_obj ff 128 x \<or> ram s' x = ram s x)"
proof -
  let ?m = "store_bytes ff (replicate 128 0xFF) (ram s)"
  let ?Q = "\<lambda>(rc, s'). unchanged dst (512 * max 1 (unat sz)) ?m (ram s')"
  have n: "nat (uint sz) - 1 = unat sz - 1" "512 * Suc (unat sz - 1) = 512 * max 1 (unat sz)" by auto
  have loop: "ifret (sd_copy_loop env ff dst (uint sz) s1) ?Q" if "ram s1 = ?m" for s1
    using sd_copy_loop_unchanged [OF n(1), of env ff dst s1] that unfolding n(2) by simp
  have "ifret (sd_copy env ff dst lba sz s) ?Q"
    unfolding sd_copy_def sd_dummy_def Let_def fill_ff [of 128, simplified] print_uart_emit
    by (rule sd_cmd_ram_then [where m = ?m])
      (auto intro!: ifret_bind [OF sd_dummies_ram] emit_ram_then ifret_bind [OF loop] sd_cmd_ram_then txrx_ram_then)
  moreover have "?m x = ram s x" if "\<not> in_obj ff 128 x" for x
    using store_bytes_outside [of ff "replicate 128 0xFF" x "ram s"] that by simp
  ultimately show ?thesis by (auto simp: unchanged_def elim!: ifret_weaken) metis
qed

section \<open>The driver returns only if the dialogue ends\<close>

lemma txrx_stuck:
  assumes "linked env V exch c m s"
    and "\<And>s'. linked env V exch (snd (exch b c)) m s' \<Longrightarrow> k (fst (exch b c)) s' = None"
  shows "spi_txrx env b s \<bind> (\<lambda>(r, s'). k r s') = None"
  using txrx_linked [OF assms(1), of b] assms(2) by (auto elim!: twE)

lemma sd_wait_token_stuck:
  assumes "linked env V exch c m s" and "card_token exch c = None"
  shows "sd_wait_token env s = None"
proof (rule ccontr)
  assume "sd_wait_token env s \<noteq> None"
  then obtain s' where some: "sd_wait_token env s = Some s'" by blast
  have "\<forall>c. linked env V exch c m s \<longrightarrow> card_token exch c \<noteq> None"
  proof (rule sd_wait_token.raw_induct [where P = "\<lambda>env' s s'. env' = env \<longrightarrow>
        (\<forall>c. linked env V exch c m s \<longrightarrow> card_token exch c \<noteq> None)", OF _ some, THEN mp, OF _ refl],
        intro impI allI, goal_cases)
    case (1 f env' s s' c)
    from txrx_linked [OF 1(4), of "0xFF"] obtain s1 where s1: "spi_txrx env 0xFF s = Some (fst (exch 0xFF c), s1)"
      "linked env V exch (snd (exch 0xFF c)) m s1" by (auto elim!: twE)
    with 1 show ?case
      by (subst card_token.simps) (auto simp: sd_dummy_def SD_DATA_TOKEN_def split_beta Let_def split: if_splits)
  qed
  with assms show False by blast
qed

lemma sd_copy_block_stuck:
  assumes "linked env V exch c m s" and "card_block exch c = None"
  shows "sd_copy_block env ff p i s = None"
proof -
  have "card_token exch c = None"
    using assms(2) by (auto simp: card_block_def bind_eq_None_conv split_beta Let_def)
  with sd_wait_token_stuck [OF assms(1)] show ?thesis by (simp add: sd_copy_block_def)
qed

lemma sd_copy_loop_stuck:
  "linked env V exch c m s \<Longrightarrow> card_blocks exch k c = None \<Longrightarrow> nat i - 1 = k \<Longrightarrow>
   ram_bytes m ff 64 = replicate 64 0xFF \<Longrightarrow> disjoint_obj ff 64 p (512 * Suc k) \<Longrightarrow>
   sd_copy_loop env ff p i s = None"
proof (induction k arbitrary: c m s i p)
  case 0
  from "0.prems"(2) have "card_block exch c = None" by (cases "card_block exch c") auto
  with sd_copy_block_stuck [OF "0.prems"(1)] show ?case by (simp add: sd_copy_loop.simps)
next
  case (Suc k)
  show ?case
  proof (cases "card_block exch c")
    case None
    with sd_copy_block_stuck [OF Suc.prems(1)] show ?thesis by (simp add: sd_copy_loop.simps)
  next
    case (Some b)
    then obtain bs crc c1 where b: "card_block exch c = Some (bs, crc, c1)" by (cases b) auto
    with Suc.prems(2) have good: "foldl crc16_ref 0 bs = crc" and rest: "card_blocks exch k c1 = None"
      by (cases "card_blocks exch k c1"; auto split: if_splits)+
    have dis: "disjoint_obj ff 64 p 512" using Suc.prems(5) by (rule disjoint_obj_mono) simp_all
    have dis': "disjoint_obj ff 64 (p + 512) (512 * Suc k)"
      using disjoint_obj_shift [OF Suc.prems(5), of 512 "512 * Suc k"] by simp
    have ff: "ram_bytes (store_bytes p bs m) ff 64 = replicate 64 0xFF"
      using Suc.prems(4) dis card_block_length [OF b] by (subst ram_bytes_store_disjoint) auto
    from sd_copy_block_linked [OF Suc.prems(1) b Suc.prems(4) dis, of i] obtain s1 where
      s1: "sd_copy_block env ff p i s = Some (True, p + 512, s1)" "linked env V exch c1 (store_bytes p bs m) s1"
      using good by (auto elim!: twE)
    have "nat (i - 1) - 1 = k" "1 < i" using Suc.prems(3) by simp_all
    with Suc.IH [OF s1(2) rest _ ff dis'] s1(1) show ?thesis by (simp add: sd_copy_loop.simps [of env ff p i])
  qed
qed

lemma sd_copy_stuck:
  assumes "linked env V exch c m s" and spec: "card_copy exch lba (unat sz) c = None"
    and dis: "sd_buffers ff dst (unat sz)"
  shows "sd_copy env ff dst lba sz s = None"
proof -
  let ?m = "store_bytes ff (replicate 128 0xFF) m"
  obtain r c1 where rc1: "card_cmd exch 18 lba 1 c = (r, c1)" by fastforce
  with spec have c1: "card_cmd exch 18 lba 1 c = (0, c1)" and rest: "card_blocks exch (unat sz - 1) c1 = None"
    by (cases "card_blocks exch (unat sz - 1) c1"; auto simp: card_copy_def split: if_splits)+
  have s1: "linked env V exch c ?m (s\<lparr>ram := store_bytes ff (replicate 128 0xFF) (ram s)\<rparr>)"
    using assms(1) by (simp add: linked_def spi_ok_def console_ok_def)
  have ff: "ram_bytes ?m ff 64 = replicate 64 0xFF"
    by (rule nth_equalityI) (simp_all add: store_bytes_at)
  have n: "512 * Suc (unat sz - 1) = 512 * max 1 (unat sz)" by auto
  have "disjoint_obj ff 64 dst (512 * Suc (unat sz - 1))"
    using dis unfolding sd_buffers_def n by (rule disjoint_obj_mono) simp_all
  from sd_copy_loop_stuck [OF _ rest _ ff this, of env V _ "uint sz"]
  have loop: "linked env V exch c1 ?m s2 \<Longrightarrow> sd_copy_loop env ff dst (uint sz) s2 = None" for s2 by simp
  from sd_cmd_linked [OF s1, of 18 lba 1] obtain s2 where
    "sd_cmd env 18 lba 1 (s\<lparr>ram := store_bytes ff (replicate 128 0xFF) (ram s)\<rparr>) = Some (0, s2)"
    "linked env V exch c1 ?m s2" by (auto simp: c1 elim!: twE)
  with loop show ?thesis
    unfolding sd_copy_def Let_def fill_ff [of 128, simplified] sd_copy_crc [unfolded Let_def] by simp
qed

lemma sd_acmd41_stuck:
  assumes "linked env V exch c m s" and "card_acmd41 exch c = None"
  shows "sd_acmd41 env s = None"
proof (rule ccontr)
  assume "sd_acmd41 env s \<noteq> None"
  then obtain x where some: "sd_acmd41 env s = Some x" by blast
  have "\<forall>c. linked env V exch c m s \<longrightarrow> card_acmd41 exch c \<noteq> None"
  proof (rule sd_acmd41.raw_induct [where P = "\<lambda>env' s x. env' = env \<longrightarrow>
        (\<forall>c. linked env V exch c m s \<longrightarrow> card_acmd41 exch c \<noteq> None)", OF _ some, THEN mp, OF _ refl],
        intro impI allI, goal_cases)
    case (1 f env' s x c)
    from acmd41_round [OF 1(4), of "\<lambda>r s. if r = 1 then f env s else Some (r = 0, s)"] 1 show ?case
      by (subst card_acmd41.simps, cases x) (fastforce simp: split_beta Let_def split: if_splits)
  qed
  with assms show False by blast
qed

lemma init_sd_stuck:
  assumes "uart_ready env (spi_part V exch) s" "quad_spi env V exch" "spi_timing env V 64" "spi_idle V (dev s)"
    and "card_init exch (vcard V (dev s)) = None"
  shows "init_sd env s = None"
proof -
  let ?c = "vcard V (dev s)" and ?m = "ram s"
  obtain ok0 c0 where c0: "card_cmd0 exch 10000 (snd (card_read exch 10 ?c)) = (ok0, c0)" by fastforce
  obtain ok8 c8 where c8: "card_cmd8 exch c0 = (ok8, c8)" by fastforce
  have ok: "ok0" "ok8" and stuck: "card_acmd41 exch c8 = None"
    using assms(5) unfolding card_init_def c0 Let_def prod.case c8
    by (cases "card_acmd41 exch c8"; auto split: if_splits)+
  have "tw (spi_init env s) (linked env V exch ?c ?m)"
    by (rule tw_weaken [OF spi_init_total [OF assms(1-3)]]) (use assms(4) in \<open>auto simp: linked_def\<close>)
  then obtain s1 where 1: "spi_init env s = Some s1" "linked env V exch ?c ?m s1" by (rule twE)
  from emit_linked [OF 1(2)] obtain s2 where
    2: "print_uart env (''initializing SD... '' @ CRLF) s1 = Some s2" "linked env V exch ?c ?m s2"
    unfolding print_uart_emit by (rule twE)
  from sd_dummies_linked [OF 2(2)] obtain s3 where
    3: "sd_dummies env 10 s2 = Some s3" "linked env V exch (snd (card_read exch 10 ?c)) ?m s3" by (rule twE)
  from sd_cmd0_linked [OF 3(2)] c0 ok obtain s4 where 4: "sd_cmd0 env s3 = Some (True, s4)"
    "linked env V exch c0 ?m s4" by (auto elim!: twE)
  from sd_cmd8_linked [OF 4(2)] c8 ok obtain s5 where 5: "sd_cmd8 env s4 = Some (True, s5)"
    "linked env V exch c8 ?m s5" by (auto elim!: twE)
  show ?thesis
    unfolding init_sd_def 1(1) bind.bind_lunit 2(1) 3(1) 4(1) prod.case simp_thms if_False 5(1)
      sd_acmd41_stuck [OF 5(2) stuck] by simp
qed

end
