(* ===== verification/Gpt_Format.thy ===== *)
theory Gpt_Format
  imports Boot_Prelude
begin

text \<open>
  The on-disk structures of \<open>corev_apu/fpga/src/bootrom/src/gpt.h\<close> (identical in
  \<open>corev_apu/openpiton/bootrom/linux/src/gpt.h\<close>) as the rv64 ABI lays them out: little-endian
  fields, each at a multiple of its size, without padding between them. The second half states
  what a block device promises (\<open>block_device\<close>) and proves once, for every such device, that
  the three reads of \<open>gpt_find_boot_partition\<close> bring the boot partition into memory.
\<close>

section \<open>Little-endian words\<close>

primrec le_word :: "u8 list \<Rightarrow> 'a::len word" where
  "le_word [] = 0"
| "le_word (b # bs) = ucast b OR push_bit 8 (le_word bs)"

primrec le_bytes :: "nat \<Rightarrow> 'a::len word \<Rightarrow> u8 list" where
  "le_bytes 0 w = []"
| "le_bytes (Suc n) w = ucast w # le_bytes n (drop_bit 8 w)"

lemma length_le_bytes [simp]: "length (le_bytes n w) = n"
  by (induction n arbitrary: w) simp_all

lemma le_word_le_bytes: "le_word (le_bytes n w) = take_bit (8 * n) w" for w :: "'a::len word"
proof (induction n arbitrary: w)
  case 0
  show ?case by simp
next
  case (Suc n)
  show ?case
    by (rule bit_word_eqI) (auto simp: Suc.IH bit_simps not_less dest: bit_imp_le_length)
qed

lemma le_word_full: "8 * n = LENGTH('a) \<Longrightarrow> le_word (le_bytes n w) = w" for w :: "'a::len word"
  by (simp add: le_word_le_bytes)

lemma bit_le_word: "bit (le_word bs :: 'a::len word) n \<Longrightarrow> n < 8 * length bs"
proof (induction bs arbitrary: n)
  case Nil
  then show ?case by simp
next
  case (Cons b bs)
  from Cons.prems show ?case by (auto simp: bit_simps dest: bit_imp_le_length dest!: Cons.IH)
qed

lemma le_bytes_le_word:
  "8 * length bs \<le> LENGTH('a) \<Longrightarrow> le_bytes (length bs) (le_word bs :: 'a::len word) = bs"
proof (induction bs)
  case Nil
  show ?case by simp
next
  case (Cons b bs)
  let ?w = "le_word bs :: 'a word"
  have "ucast (ucast b OR push_bit 8 ?w) = b"
    using Cons.prems by (intro bit_word_eqI) (auto simp: bit_simps)
  moreover have "drop_bit 8 (ucast b OR push_bit 8 ?w) = ?w"
    using Cons.prems by (intro bit_word_eqI) (auto simp: bit_simps dest: bit_imp_le_length bit_le_word)
  ultimately show ?case using Cons by simp
qed

section \<open>The structures\<close>

record gpt_pth =
  signature :: u64
  revision :: u32
  header_size :: u32
  crc_header :: u32
  reserved :: u32
  current_lba :: u64
  backup_lba :: u64
  first_usable_lba :: u64
  last_usable_lba :: u64
  disk_guid :: "u8 list"
  partition_entries_lba :: u64
  nr_partition_entries :: u32
  size_partition_entry :: u32
  crc_partition_entry :: u32

record partition_entries =
  partition_type_guid :: "u8 list"
  partition_guid :: "u8 list"
  first_lba :: u64
  last_lba :: u64
  attributes :: u64
  part_name :: "u8 list"

text \<open>The bytes of a field of \<open>n\<close> bytes at offset \<open>off\<close>.\<close>

definition field :: "nat \<Rightarrow> nat \<Rightarrow> u8 list \<Rightarrow> u8 list" where
  "field off n bs = take n (drop off bs)"

definition gpt_pth_of :: "u8 list \<Rightarrow> gpt_pth" where
  "gpt_pth_of bs =
     \<lparr>signature = le_word (field 0 8 bs), revision = le_word (field 8 4 bs),
      header_size = le_word (field 12 4 bs), crc_header = le_word (field 16 4 bs),
      reserved = le_word (field 20 4 bs), current_lba = le_word (field 24 8 bs),
      backup_lba = le_word (field 32 8 bs), first_usable_lba = le_word (field 40 8 bs),
      last_usable_lba = le_word (field 48 8 bs), disk_guid = field 56 16 bs,
      partition_entries_lba = le_word (field 72 8 bs), nr_partition_entries = le_word (field 80 4 bs),
      size_partition_entry = le_word (field 84 4 bs), crc_partition_entry = le_word (field 88 4 bs)\<rparr>"

definition partition_entries_of :: "u8 list \<Rightarrow> partition_entries" where
  "partition_entries_of bs =
     \<lparr>partition_type_guid = field 0 16 bs, partition_guid = field 16 16 bs,
      first_lba = le_word (field 32 8 bs), last_lba = le_word (field 40 8 bs),
      attributes = le_word (field 48 8 bs), part_name = field 56 72 bs\<rparr>"

text \<open>What \<open>p->...\<close> reads when \<open>p\<close> points to address \<open>a\<close>.\<close>

definition gpt_pth_at :: "(addr \<Rightarrow> u8) \<Rightarrow> addr \<Rightarrow> gpt_pth" where
  "gpt_pth_at m a = gpt_pth_of (ram_bytes m a 92)"

definition partition_entries_at :: "(addr \<Rightarrow> u8) \<Rightarrow> addr \<Rightarrow> partition_entries" where
  "partition_entries_at m a = partition_entries_of (ram_bytes m a 128)"

section \<open>Encoding and round trip\<close>

definition gpt_pth_bytes :: "gpt_pth \<Rightarrow> u8 list" where
  "gpt_pth_bytes h =
     le_bytes 8 (signature h) @ le_bytes 4 (revision h) @ le_bytes 4 (header_size h) @
     le_bytes 4 (crc_header h) @ le_bytes 4 (reserved h) @ le_bytes 8 (current_lba h) @
     le_bytes 8 (backup_lba h) @ le_bytes 8 (first_usable_lba h) @ le_bytes 8 (last_usable_lba h) @
     disk_guid h @ le_bytes 8 (partition_entries_lba h) @ le_bytes 4 (nr_partition_entries h) @
     le_bytes 4 (size_partition_entry h) @ le_bytes 4 (crc_partition_entry h)"

definition partition_entries_bytes :: "partition_entries \<Rightarrow> u8 list" where
  "partition_entries_bytes e =
     partition_type_guid e @ partition_guid e @ le_bytes 8 (first_lba e) @ le_bytes 8 (last_lba e) @
     le_bytes 8 (attributes e) @ part_name e"

lemma field_append: "field off n (xs @ ys) =
    (if length xs \<le> off then field (off - length xs) n ys
     else if off + n \<le> length xs then field off n xs else take n (drop off xs @ ys))"
  by (simp add: field_def)

lemma field_all: "length xs = n \<Longrightarrow> field 0 n xs = xs"
  by (simp add: field_def)

lemma gpt_pth_roundtrip:
  assumes "length (disk_guid h) = 16"
  shows "gpt_pth_of (gpt_pth_bytes h @ rest) = h"
  using assms by (simp add: gpt_pth_of_def gpt_pth_bytes_def field_append field_all le_word_full)

lemma partition_entries_roundtrip:
  assumes "length (partition_type_guid e) = 16" "length (partition_guid e) = 16" "length (part_name e) = 72"
  shows "partition_entries_of (partition_entries_bytes e @ rest) = e"
  using assms by (simp add: partition_entries_of_def partition_entries_bytes_def field_append field_all le_word_full)

lemma length_gpt_pth_bytes: "length (disk_guid h) = 16 \<Longrightarrow> length (gpt_pth_bytes h) = 92"
  by (simp add: gpt_pth_bytes_def)

lemma length_partition_entries_bytes:
  "length (partition_type_guid e) = 16 \<Longrightarrow> length (partition_guid e) = 16 \<Longrightarrow> length (part_name e) = 72 \<Longrightarrow>
   length (partition_entries_bytes e) = 128"
  by (simp add: partition_entries_bytes_def)

lemma field_take: "off + n \<le> k \<Longrightarrow> field off n (take k bs) = field off n bs"
  by (simp add: field_def drop_take)

lemma gpt_pth_of_take: "92 \<le> k \<Longrightarrow> gpt_pth_of (take k bs) = gpt_pth_of bs"
  by (simp add: gpt_pth_of_def field_take)

lemma partition_entries_of_take: "128 \<le> k \<Longrightarrow> partition_entries_of (take k bs) = partition_entries_of bs"
  by (simp add: partition_entries_of_def field_take)

lemma take_ram_bytes: "k \<le> n \<Longrightarrow> take k (ram_bytes m a n) = ram_bytes m a k"
  by (simp add: ram_bytes_def take_map)

lemma gpt_pth_at_block: "ram_bytes m a 512 = bs \<Longrightarrow> gpt_pth_at m a = gpt_pth_of bs"
  unfolding gpt_pth_at_def using take_ram_bytes [of 92 512 m a] gpt_pth_of_take [of 92 bs] by simp

lemma partition_entries_at_block: "ram_bytes m a 512 = bs \<Longrightarrow> partition_entries_at m a = partition_entries_of bs"
  unfolding partition_entries_at_def
  using take_ram_bytes [of 128 512 m a] partition_entries_of_take [of 128 bs] by simp

section \<open>Partition tables the boot code can read\<close>

text \<open>The header is in block 1, the table and the whole boot partition are on the card, and the
  card has fewer than \<open>2 ^ 32\<close> blocks (block numbers are passed on as 32-bit words).\<close>

definition boot_entry :: "(nat \<Rightarrow> u8 list) \<Rightarrow> partition_entries" where
  "boot_entry disk = partition_entries_of (disk (unat (partition_entries_lba (gpt_pth_of (disk 1)))))"

definition gpt_disk :: "(nat \<Rightarrow> u8 list) \<Rightarrow> nat \<Rightarrow> bool" where
  "gpt_disk disk cap \<longleftrightarrow> 1 < cap \<and> cap < 2 ^ 32 \<and> unat (partition_entries_lba (gpt_pth_of (disk 1))) < cap \<and>
     unat (first_lba (boot_entry disk)) \<le> unat (last_lba (boot_entry disk)) \<and>
     unat (last_lba (boot_entry disk)) < cap"

definition boot_blocks :: "(nat \<Rightarrow> u8 list) \<Rightarrow> nat" where
  "boot_blocks disk = unat (last_lba (boot_entry disk)) + 1 - unat (first_lba (boot_entry disk))"

definition boot_image :: "(nat \<Rightarrow> u8 list) \<Rightarrow> u8 list" where
  "boot_image disk = concat (map disk
     [unat (first_lba (boot_entry disk))..<unat (last_lba (boot_entry disk)) + 1])"

lemma unat_ucast_small: "unat w < 2 ^ 32 \<Longrightarrow> unat (ucast w :: u32) = unat w" for w :: u64
  by (simp add: unsigned_ucast_eq take_bit_nat_eq_self)

lemma block_count:
  fixes f l :: u64
  assumes "unat f \<le> unat l" "unat l < c" "c < 2 ^ 32"
  shows "unat (ucast (l - f + 1) :: u32) = unat l + 1 - unat f"
proof -
  have "unat (l - f) = unat l - unat f" using assms(1) by (simp add: unat_sub word_le_nat_alt)
  moreover have "unat (l - f + 1) = unat (l - f) + 1"
    using calculation assms by (simp add: unat_word_ariths)
  ultimately have "unat (l - f + 1) = unat l + 1 - unat f" using assms(1) by simp
  then show ?thesis using assms by (subst unat_ucast_small) auto
qed

lemma gpt_disk_reads:
  assumes "gpt_disk disk cap"
  defines "elba \<equiv> ucast (partition_entries_lba (gpt_pth_of (disk 1))) :: u32"
  defines "boot \<equiv> partition_entries_of (disk (unat elba))"
  defines "n \<equiv> ucast (last_lba boot - first_lba boot + 1) :: u32" and "lba \<equiv> ucast (first_lba boot) :: u32"
  shows "1 < cap" "unat elba < cap" "0 < unat n" "unat lba + unat n \<le> cap" "unat n = boot_blocks disk"
    "concat (map disk [unat lba..<unat lba + unat n]) = boot_image disk"
proof -
  have cap: "1 < cap" "cap < 2 ^ 32" and e: "unat (partition_entries_lba (gpt_pth_of (disk 1))) < cap"
    and b: "unat (first_lba (boot_entry disk)) \<le> unat (last_lba (boot_entry disk))"
      "unat (last_lba (boot_entry disk)) < cap" using assms(1) by (simp_all add: gpt_disk_def)
  have elba: "unat elba = unat (partition_entries_lba (gpt_pth_of (disk 1)))"
    unfolding elba_def using e cap by (intro unat_ucast_small) simp
  then have boot: "boot = boot_entry disk" by (simp add: boot_def boot_entry_def)
  have n: "unat n = boot_blocks disk"
    unfolding n_def boot boot_blocks_def by (rule block_count [OF b cap(2)])
  have lba: "unat lba = unat (first_lba (boot_entry disk))"
    unfolding lba_def boot using b cap by (intro unat_ucast_small) simp
  show "1 < cap" "unat elba < cap" "unat n = boot_blocks disk" using cap e elba n by simp_all
  show "0 < unat n" "unat lba + unat n \<le> cap" "concat (map disk [unat lba..<unat lba + unat n]) = boot_image disk"
    using b unfolding n lba boot_blocks_def boot_image_def by simp_all
qed

section \<open>Counted loops and output that leaves memory alone\<close>

text \<open>\<open>for (int i = 0; i < n; i++) body(i);\<close>\<close>

definition for_upto :: "nat \<Rightarrow> (nat \<Rightarrow> 's \<Rightarrow> 's option) \<Rightarrow> 's \<Rightarrow> 's option" where
  "for_upto n body s = foldl (\<lambda>m i. m \<bind> body i) (Some s) [0..<n]"

definition quiet :: "('s \<Rightarrow> bool) \<Rightarrow> ('s \<Rightarrow> 'm) \<Rightarrow> ('s \<Rightarrow> 's option) \<Rightarrow> bool" where
  "quiet ok mem p \<longleftrightarrow> (\<forall>s. ok s \<longrightarrow> tw (p s) (\<lambda>s'. ok s' \<and> mem s' = mem s))"

lemma quietI: "(\<And>s. ok s \<Longrightarrow> tw (p s) (\<lambda>s'. ok s' \<and> mem s' = mem s)) \<Longrightarrow> quiet ok mem p"
  by (simp add: quiet_def)

lemma quiet_then:
  "quiet ok mem p \<Longrightarrow> ok s \<Longrightarrow> (\<And>s'. ok s' \<Longrightarrow> mem s' = mem s \<Longrightarrow> tw (k s') Q) \<Longrightarrow> tw (p s \<bind> k) Q"
  unfolding quiet_def by (blast intro: tw_bind)

lemma quiet_bind: "quiet ok mem p \<Longrightarrow> quiet ok mem q \<Longrightarrow> quiet ok mem (\<lambda>s. p s \<bind> q)"
  by (rule quietI, erule (1) quiet_then) (auto simp: quiet_def)

lemma quiet_skip: "quiet ok mem Some"
  by (simp add: quiet_def)

lemma quiet_for: "(\<And>i. quiet ok mem (body i)) \<Longrightarrow> quiet ok mem (for_upto n body)"
  unfolding for_upto_def
  by (induction n) (use quiet_skip in \<open>auto intro: quiet_bind\<close>)

text \<open>A step that reads memory is quiet if it is quiet for every value it may read.\<close>

lemma quiet_read: "(\<And>v. quiet ok mem (p v)) \<Longrightarrow> quiet ok mem (\<lambda>s. p (f s) s)"
  by (simp add: quiet_def)

section \<open>What a block device promises\<close>

locale block_device =
  fixes copy :: "addr \<Rightarrow> u32 \<Rightarrow> u32 \<Rightarrow> 's \<Rightarrow> (int \<times> 's) option"
    and ok :: "'s \<Rightarrow> bool"
    and mem :: "'s \<Rightarrow> addr \<Rightarrow> u8"
    and disk :: "nat \<Rightarrow> u8 list"
    and cap :: nat
    and scratch :: addr
    and slen :: nat
  assumes copy_reads: "ok s \<Longrightarrow> 0 < unat sz \<Longrightarrow> unat lba + unat sz \<le> cap \<Longrightarrow>
      disjoint_obj scratch slen dst (512 * unat sz) \<Longrightarrow>
      tw (copy dst lba sz s) (\<lambda>(rc, s'). rc = 0 \<and> ok s' \<and>
        ram_bytes (mem s') dst (512 * unat sz) = concat (map disk [unat lba..<unat lba + unat sz]) \<and>
        touches [(dst, 512 * unat sz), (scratch, slen)] (mem s) (mem s'))"
begin

lemma copy_then:
  assumes "ok s" "0 < unat sz" "unat lba + unat sz \<le> cap" "disjoint_obj scratch slen dst (512 * unat sz)"
    and "\<And>s'. ok s' \<Longrightarrow>
      ram_bytes (mem s') dst (512 * unat sz) = concat (map disk [unat lba..<unat lba + unat sz]) \<Longrightarrow>
      touches [(dst, 512 * unat sz), (scratch, slen)] (mem s) (mem s') \<Longrightarrow> tw (k s') Q"
  shows "tw (copy dst lba sz s \<bind> (\<lambda>(rc, s'). if rc \<noteq> 0 then fail rc s' else k s')) Q"
  by (rule tw_bind2 [OF copy_reads [OF assms(1-4)]]) (use assms(5) in auto)

lemma copy_one_then:
  assumes "ok s" "unat lba < cap" "disjoint_obj scratch slen dst 512"
    and "\<And>s'. ok s' \<Longrightarrow> ram_bytes (mem s') dst 512 = disk (unat lba) \<Longrightarrow>
      touches [(dst, 512), (scratch, slen)] (mem s) (mem s') \<Longrightarrow> tw (k s') Q"
  shows "tw (copy dst lba 1 s \<bind> (\<lambda>(rc, s'). if rc \<noteq> 0 then fail rc s' else k s')) Q"
  by (rule copy_then) (use assms in auto)

text \<open>The three reads of the boot code: the header, the table, the partition.\<close>

lemma boot_chain:
  fixes b1 b2 dest :: addr
  defines "elba \<equiv> ucast (partition_entries_lba (gpt_pth_of (disk 1))) :: u32"
  defines "boot \<equiv> partition_entries_of (disk (unat elba))"
  defines "n \<equiv> ucast (last_lba boot - first_lba boot + 1) :: u32" and "lba \<equiv> ucast (first_lba boot) :: u32"
  assumes "ok s" and "quiet ok mem hdr" and "quiet ok mem ents"
    and "1 < cap" and "unat elba < cap" and "0 < unat n" and "unat lba + unat n \<le> cap"
    and "disjoint_obj scratch slen b1 512" and "disjoint_obj scratch slen b2 512"
    and "disjoint_obj scratch slen dest (512 * unat n)"
    and finish: "\<And>s'. ok s' \<Longrightarrow>
      ram_bytes (mem s') dest (512 * unat n) = concat (map disk [unat lba..<unat lba + unat n]) \<Longrightarrow>
      touches [(dest, 512 * unat n), (b1, 512), (b2, 512), (scratch, slen)] (mem s) (mem s') \<Longrightarrow> tw (fin s') Q"
  shows "tw (copy b1 1 1 s \<bind> (\<lambda>(res, s). if res \<noteq> 0 then fail res s else
     hdr s \<bind> (\<lambda>s. copy b2 (ucast (partition_entries_lba (gpt_pth_at (mem s) b1))) 1 s \<bind>
     (\<lambda>(res, s). if res \<noteq> 0 then fail res s else
     ents s \<bind> (\<lambda>s. copy dest (ucast (first_lba (partition_entries_at (mem s) b2)))
        (ucast (last_lba (partition_entries_at (mem s) b2) - first_lba (partition_entries_at (mem s) b2) + 1)) s \<bind>
     (\<lambda>(res, s). if res \<noteq> 0 then fail res s else fin s)))))) Q"
proof (rule copy_one_then)
  let ?os = "[(dest, 512 * unat n), (b1, 512), (b2, 512), (scratch, slen)]"
  fix s1 assume s1: "ok s1" and "ram_bytes (mem s1) b1 512 = disk (unat (1 :: u32))"
    and t1: "touches [(b1, 512), (scratch, slen)] (mem s) (mem s1)"
  then have h: "gpt_pth_at (mem s1) b1 = gpt_pth_of (disk 1)" by (simp add: gpt_pth_at_block)
  show "tw (hdr s1 \<bind> (\<lambda>s. copy b2 (ucast (partition_entries_lba (gpt_pth_at (mem s) b1))) 1 s \<bind>
     (\<lambda>(res, s). if res \<noteq> 0 then fail res s else
     ents s \<bind> (\<lambda>s. copy dest (ucast (first_lba (partition_entries_at (mem s) b2)))
        (ucast (last_lba (partition_entries_at (mem s) b2) - first_lba (partition_entries_at (mem s) b2) + 1)) s \<bind>
     (\<lambda>(res, s). if res \<noteq> 0 then fail res s else fin s))))) Q"
  proof (rule quiet_then [OF assms(6) s1], simp only: h flip: elba_def, rule copy_one_then)
    fix s2 s3 assume m2: "mem s2 = mem s1" and s3: "ok s3" and "ram_bytes (mem s3) b2 512 = disk (unat elba)"
      and t3: "touches [(b2, 512), (scratch, slen)] (mem s2) (mem s3)"
    then have e: "partition_entries_at (mem s3) b2 = boot" by (simp add: partition_entries_at_block boot_def)
    have t13: "touches ?os (mem s) (mem s3)"
      by (rule touches_trans [OF touches_mono [OF t1] touches_mono [OF t3 [unfolded m2]]]) auto
    show "tw (ents s3 \<bind> (\<lambda>s. copy dest (ucast (first_lba (partition_entries_at (mem s) b2)))
        (ucast (last_lba (partition_entries_at (mem s) b2) - first_lba (partition_entries_at (mem s) b2) + 1)) s \<bind>
     (\<lambda>(res, s). if res \<noteq> 0 then fail res s else fin s))) Q"
      by (rule quiet_then [OF assms(7) s3], simp only: e flip: n_def lba_def, rule copy_then)
        (use assms(10,11,14) in \<open>auto intro!: finish touches_trans [OF t13] elim!: touches_mono\<close>)
  qed (use assms(9,13) in auto)
qed (use assms(5,8,12) in auto)

end

end
