(* ===== verification/Gpt.thy ===== *)
theory Gpt
  imports Sd Gpt_Format
begin

text \<open>
  \<open>corev_apu/fpga/src/bootrom/src/gpt.c\<close> and \<open>main.c\<close>: reading the partition table and the
  boot partition, and the boot program itself. The addresses of the local arrays, and the lowest
  address of the stack frames, are the record \<open>boot_stack\<close>. Fields are read from memory at the moment the code reads them.
\<close>

section \<open>The code\<close>

record boot_stack =
  stack_low :: addr
  lba1_buf :: addr
  lba2_buf :: addr
  sd_ff :: addr

definition gpt_copy_failed :: "'d env \<Rightarrow> int \<Rightarrow> 'd cstate \<Rightarrow> (int \<times> 'd cstate) option" where
  "gpt_copy_failed env res s = do {
     s \<leftarrow> print_uart env (''SD card failed!'' @ CRLF) s;
     s \<leftarrow> print_uart env ''sd copy return value: '' s;
     s \<leftarrow> print_uart_addr env (of_int res) s;
     s \<leftarrow> print_uart env CRLF s;
     Some (- 2, s)
   }"

definition gpt_print_header :: "'d env \<Rightarrow> addr \<Rightarrow> 'd cstate \<Rightarrow> 'd cstate option" where
  "gpt_print_header env lba1 s = do {
     s \<leftarrow> print_uart env ''gpt partition table header:'' s;
     s \<leftarrow> print_uart env (CRLF @ TAB @ ''signature:'' @ TAB) s;
     s \<leftarrow> print_uart_addr env (signature (gpt_pth_at (ram s) lba1)) s;
     s \<leftarrow> print_uart env (CRLF @ TAB @ ''revision:'' @ TAB) s;
     s \<leftarrow> print_uart_int env (revision (gpt_pth_at (ram s) lba1)) s;
     s \<leftarrow> print_uart env (CRLF @ TAB @ ''size:'' @ TAB @ TAB) s;
     s \<leftarrow> print_uart_int env (header_size (gpt_pth_at (ram s) lba1)) s;
     s \<leftarrow> print_uart env (CRLF @ TAB @ ''crc_header:'' @ TAB) s;
     s \<leftarrow> print_uart_int env (crc_header (gpt_pth_at (ram s) lba1)) s;
     s \<leftarrow> print_uart env (CRLF @ TAB @ ''reserved:'' @ TAB) s;
     s \<leftarrow> print_uart_int env (reserved (gpt_pth_at (ram s) lba1)) s;
     s \<leftarrow> print_uart env (CRLF @ TAB @ ''current lba:'' @ TAB) s;
     s \<leftarrow> print_uart_addr env (current_lba (gpt_pth_at (ram s) lba1)) s;
     s \<leftarrow> print_uart env (CRLF @ TAB @ ''backup lda:'' @ TAB) s;
     s \<leftarrow> print_uart_addr env (backup_lba (gpt_pth_at (ram s) lba1)) s;
     s \<leftarrow> print_uart env (CRLF @ TAB @ ''partition entries lba:   '' @ TAB) s;
     s \<leftarrow> print_uart_addr env (partition_entries_lba (gpt_pth_at (ram s) lba1)) s;
     s \<leftarrow> print_uart env (CRLF @ TAB @ ''number partition entries:'' @ TAB) s;
     s \<leftarrow> print_uart_int env (nr_partition_entries (gpt_pth_at (ram s) lba1)) s;
     s \<leftarrow> print_uart env (CRLF @ TAB @ ''size partition entries:  '' @ TAB) s;
     s \<leftarrow> print_uart_int env (size_partition_entry (gpt_pth_at (ram s) lba1)) s;
     print_uart env CRLF s
   }"

definition gpt_print_entry :: "'d env \<Rightarrow> addr \<Rightarrow> nat \<Rightarrow> 'd cstate \<Rightarrow> 'd cstate option" where
  "gpt_print_entry env buf i s =
     (let part_entry = (\<lambda>s. partition_entries_at (ram s) (buf + of_nat (i * 128))) in do {
        s \<leftarrow> print_uart env ''gpt partition entry '' s;
        s \<leftarrow> print_uart_byte env (of_nat i) s;
        s \<leftarrow> print_uart env (CRLF @ TAB @ ''partition type guid:'' @ TAB) s;
        s \<leftarrow> for_upto 16 (\<lambda>j s. print_uart_byte env (partition_type_guid (part_entry s) ! j) s) s;
        s \<leftarrow> print_uart env (CRLF @ TAB @ ''partition guid:     '' @ TAB) s;
        s \<leftarrow> for_upto 16 (\<lambda>j s. print_uart_byte env (partition_guid (part_entry s) ! j) s) s;
        s \<leftarrow> print_uart env (CRLF @ TAB @ ''first lba:'' @ TAB) s;
        s \<leftarrow> print_uart_addr env (first_lba (part_entry s)) s;
        s \<leftarrow> print_uart env (CRLF @ TAB @ ''last lba:'' @ TAB) s;
        s \<leftarrow> print_uart_addr env (last_lba (part_entry s)) s;
        s \<leftarrow> print_uart env (CRLF @ TAB @ ''attributes:'' @ TAB) s;
        s \<leftarrow> print_uart_addr env (attributes (part_entry s)) s;
        s \<leftarrow> print_uart env (CRLF @ TAB @ ''name:'' @ TAB) s;
        s \<leftarrow> for_upto 72 (\<lambda>j s. print_uart_byte env (part_name (part_entry s) ! j) s) s;
        print_uart env CRLF s
      })"

text \<open>The parameter \<open>size\<close> of the C function is not used in its body.\<close>

definition gpt_find_boot_partition ::
    "'d env \<Rightarrow> boot_stack \<Rightarrow> addr \<Rightarrow> u32 \<Rightarrow> 'd cstate \<Rightarrow> (int \<times> 'd cstate) option" where
  "gpt_find_boot_partition env st dest sz s = do {
     (ret, s) \<leftarrow> init_sd env s;
     if ret \<noteq> 0 then do {
       s \<leftarrow> print_uart env (''could not initialize sd... exiting'' @ CRLF) s;
       Some (- 1, s)
     } else do {
       s \<leftarrow> print_uart env (''sd initialized!'' @ CRLF) s;
       (res, s) \<leftarrow> sd_copy env (sd_ff st) (lba1_buf st) 1 1 s;
       if res \<noteq> 0 then gpt_copy_failed env res s else do {
         s \<leftarrow> gpt_print_header env (lba1_buf st) s;
         (res, s) \<leftarrow> sd_copy env (sd_ff st) (lba2_buf st)
            (ucast (partition_entries_lba (gpt_pth_at (ram s) (lba1_buf st)))) 1 s;
         if res \<noteq> 0 then gpt_copy_failed env res s else do {
           s \<leftarrow> for_upto 4 (gpt_print_entry env (lba2_buf st)) s;
           s \<leftarrow> print_uart env ''copying boot image '' s;
           (res, s) \<leftarrow> sd_copy env (sd_ff st) dest
              (ucast (first_lba (partition_entries_at (ram s) (lba2_buf st))))
              (ucast (last_lba (partition_entries_at (ram s) (lba2_buf st))
                 - first_lba (partition_entries_at (ram s) (lba2_buf st)) + 1)) s;
           if res \<noteq> 0 then gpt_copy_failed env res s else do {
             s \<leftarrow> print_uart env ('' done!'' @ CRLF) s;
             Some (0, s)
           }
         }
       }
     }
   }"

text \<open>How \<open>main\<close> ends: with the jump to the loaded image, or in the idle loop.\<close>

datatype boot_end = Jump addr | Spin

definition main :: "'d env \<Rightarrow> boot_stack \<Rightarrow> 'd cstate \<Rightarrow> (boot_end \<times> 'd cstate) option" where
  "main env st s = do {
     s \<leftarrow> init_uart env 50000000 115200 s;
     s \<leftarrow> print_uart env (''Hello World!'' @ CRLF) s;
     (res, s) \<leftarrow> gpt_find_boot_partition env st 0x80000000 (2 * 16384) s;
     if res = 0 then Some (Jump 0x80000000, s) else Some (Spin, s)
   }"

definition handle_trap :: "'d cstate \<Rightarrow> 'd cstate" where
  "handle_trap s = s"

section \<open>The card reader is a block device\<close>

definition reader_ok ::
    "'d env \<Rightarrow> ('d, 'c) spi_view \<Rightarrow> (u8 \<Rightarrow> 'c \<Rightarrow> u8 \<times> 'c) \<Rightarrow> (nat \<Rightarrow> u8 list) \<Rightarrow> nat \<Rightarrow> ('c \<Rightarrow> card_phase) \<Rightarrow>
     'd cstate \<Rightarrow> bool" where
  "reader_ok env V exch disk cap phase s \<longleftrightarrow> spi_ok env V exch s \<and> sd_card exch disk cap phase \<and>
     stop_prompt exch phase \<and> phase (vcard V (dev s)) = Ready"

lemma reader_linked:
  "reader_ok env V exch disk cap phase s \<longleftrightarrow> sd_card exch disk cap phase \<and> stop_prompt exch phase \<and>
     (\<exists>c. linked env V exch c (ram s) s \<and> phase c = Ready)"
  by (auto simp: reader_ok_def linked_def)

interpretation reader: block_device "sd_copy env ff" "reader_ok env V exch disk cap phase" ram disk cap ff 128
  for env :: "'d env" and V :: "('d, 'c) spi_view" and exch disk cap phase ff
proof unfold_locales
  fix s :: "'d cstate" and sz lba :: u32 and dst
  assume ok: "reader_ok env V exch disk cap phase s" and n: "0 < unat sz" "unat lba + unat sz \<le> cap"
    and dis: "disjoint_obj ff 128 dst (512 * unat sz)"
  from ok obtain c where card: "sd_card exch disk cap phase" "stop_prompt exch phase" and c: "linked env V exch c (ram s) s" "phase c = Ready"
    by (auto simp: reader_linked)
  have sz: "max 1 (unat sz) = unat sz" using n(1) by simp
  let ?bs = "concat (map disk [unat lba..<unat lba + unat sz])"
  from sd_card_copy [OF card(1) c(2), of lba "unat sz"] n(2) obtain c' where
    c': "card_copy exch lba (unat sz) c = Some (0, ?bs, c')" "phase c' = Ready" unfolding sz using card(2) by blast
  have len: "length ?bs = 512 * unat sz"
    using sd_card_len [OF card(1)] by (simp add: length_concat comp_def sum_list_triv)
  then have fits: "length ?bs \<le> 2 ^ 64" using unsigned_less [of sz, where 'a = nat] by simp
  have "sd_buffers ff dst (unat sz)" using dis unfolding sd_buffers_def sz .
  from sd_copy_linked [OF c(1) c'(1) this]
  show "tw (sd_copy env ff dst lba sz s) (\<lambda>(rc, s'). rc = 0 \<and> reader_ok env V exch disk cap phase s' \<and>
      ram_bytes (ram s') dst (512 * unat sz) = ?bs \<and> touches [(dst, 512 * unat sz), (ff, 128)] (ram s) (ram s'))"
    by (rule tw_weaken) (use c'(2) card ram_bytes_store_same [OF fits] len in
      \<open>auto simp: linked_def reader_ok_def intro!: touches_trans [OF touches_store touches_store]\<close>)
qed

section \<open>Printing does not disturb the reader\<close>

lemma emit_quiet: "quiet (reader_ok env V exch disk cap phase) ram (emit (write_serial env) bs)"
  by (rule quietI) (auto simp: reader_ok_def linked_def intro!: tw_weaken [OF emit_linked])

lemma print_quiet:
  "quiet (reader_ok env V exch disk cap phase) ram (print_uart env str)"
  "quiet (reader_ok env V exch disk cap phase) ram (\<lambda>s. print_uart_byte env (f8 s) s)"
  "quiet (reader_ok env V exch disk cap phase) ram (\<lambda>s. print_uart_int env (f32 s) s)"
  "quiet (reader_ok env V exch disk cap phase) ram (\<lambda>s. print_uart_addr env (f64 s) s)"
  using emit_quiet [of env V exch disk cap phase] by (auto simp: print_emit quiet_def)

lemma header_quiet: "quiet (reader_ok env V exch disk cap phase) ram (gpt_print_header env a)"
  unfolding gpt_print_header_def [abs_def] by (intro quiet_bind print_quiet)

lemma entries_quiet: "quiet (reader_ok env V exch disk cap phase) ram (for_upto 4 (gpt_print_entry env a))"
  unfolding gpt_print_entry_def [abs_def] Let_def by (intro quiet_for quiet_bind print_quiet)

section \<open>Loading the boot partition\<close>

definition boot_arrays :: "boot_stack \<Rightarrow> (addr \<times> nat) list" where
  "boot_arrays st = [(lba1_buf st, 512), (lba2_buf st, 512), (sd_ff st, 128)]"

definition boot_layout :: "boot_stack \<Rightarrow> addr \<Rightarrow> nat \<Rightarrow> bool" where
  "boot_layout st dest n \<longleftrightarrow> stack_layout (stack_low st) (boot_arrays st) dest (512 * n)"

lemma boot_layoutD:
  assumes "boot_layout st dest n"
  shows "disjoint_obj (sd_ff st) 128 (lba1_buf st) 512" "disjoint_obj (sd_ff st) 128 (lba2_buf st) 512"
    "disjoint_obj (sd_ff st) 128 dest (512 * n)"
  using assms stack_layoutD [of "stack_low st" "boot_arrays st" dest "512 * n"]
  by (auto simp: boot_layout_def stack_layout_def boot_arrays_def intro: disjoint_obj_sym)

definition boot_loaded :: "boot_stack \<Rightarrow> addr \<Rightarrow> (nat \<Rightarrow> u8 list) \<Rightarrow> (addr \<Rightarrow> u8) \<Rightarrow> (addr \<Rightarrow> u8) \<Rightarrow> bool" where
  "boot_loaded st dest disk m m' \<longleftrightarrow>
     ram_bytes m' dest (512 * boot_blocks disk) = boot_image disk \<and>
     touches ((dest, 512 * boot_blocks disk) # boot_arrays st) m m' \<and>
     frames_kept (stack_low st) (boot_arrays st) m m'"

lemma gpt_find_loads:
  fixes s :: "'d cstate"
  assumes "uart_ready env (spi_part V exch) s" "quad_spi env V exch" "spi_timing env V 64" "spi_idle V (dev s)"
    and card: "sd_card exch disk cap phase" "stop_prompt exch phase" and init: "card_init exch (vcard V (dev s)) = Some (0, c')" "phase c' = Ready"
    and disk: "gpt_disk disk cap" and layout: "boot_layout st dest (boot_blocks disk)"
  shows "tw (gpt_find_boot_partition env st dest sz s) (\<lambda>(rc, s'). rc = 0 \<and> boot_loaded st dest disk (ram s) (ram s'))"
proof -
  note rd = gpt_disk_reads [OF disk]
  note l = boot_layoutD [OF layout]
  have s1: "reader_ok env V exch disk cap phase s1" if "linked env V exch c' (ram s) s1" for s1
    using that card init(2) by (auto simp: linked_def reader_ok_def)
  have fin: "tw (print_uart env ('' done!'' @ CRLF) s2 \<bind> (\<lambda>s. Some (0, s)))
      (\<lambda>(rc, s'). rc = 0 \<and> boot_loaded st dest disk (ram s) (ram s'))"
    if "reader_ok env V exch disk cap phase s2" "ram_bytes (ram s2) dest (512 * boot_blocks disk) = boot_image disk"
      "touches ((dest, 512 * boot_blocks disk) # boot_arrays st) (ram s) (ram s2)" for s2
    by (rule quiet_then [OF print_quiet(1) that(1)])
      (use that(2,3) layout in \<open>auto simp: boot_loaded_def boot_layout_def stack_frames_kept\<close>)
  have ents: "quiet (reader_ok env V exch disk cap phase) ram
      (\<lambda>s. for_upto 4 (gpt_print_entry env (lba2_buf st)) s \<bind> print_uart env ''copying boot image '')"
    by (intro quiet_bind entries_quiet print_quiet)
  have assoc: "m \<bind> (\<lambda>s. print_uart env t s \<bind> k) = m \<bind> print_uart env t \<bind> k" for m t and k :: "_ \<Rightarrow> (int \<times> 'd cstate) option"
    by simp
  show ?thesis
    unfolding gpt_find_boot_partition_def assoc [of "for_upto _ _ _"]
  proof (rule tw_bind2 [OF init_sd_linked [OF assms(1-4) init(1)]], simp only: prod.case simp_thms if_False,
      rule quiet_then [OF print_quiet(1) s1], erule conjunct2)
    fix ret :: int and s1 s2
    assume s1: "ret = 0 \<and> linked env V exch c' (ram s) s1"
      and s2: "reader_ok env V exch disk cap phase s2" and m: "ram s2 = ram s1"
    show "tw (sd_copy env (sd_ff st) (lba1_buf st) 1 1 s2 \<bind> (\<lambda>(res, s). if res \<noteq> 0 then gpt_copy_failed env res s else
       gpt_print_header env (lba1_buf st) s \<bind> (\<lambda>s. sd_copy env (sd_ff st) (lba2_buf st)
          (ucast (partition_entries_lba (gpt_pth_at (ram s) (lba1_buf st)))) 1 s \<bind>
       (\<lambda>(res, s). if res \<noteq> 0 then gpt_copy_failed env res s else
       for_upto 4 (gpt_print_entry env (lba2_buf st)) s \<bind> print_uart env ''copying boot image '' \<bind>
       (\<lambda>s. sd_copy env (sd_ff st) dest (ucast (first_lba (partition_entries_at (ram s) (lba2_buf st))))
          (ucast (last_lba (partition_entries_at (ram s) (lba2_buf st)) -
             first_lba (partition_entries_at (ram s) (lba2_buf st)) + 1)) s \<bind>
       (\<lambda>(res, s). if res \<noteq> 0 then gpt_copy_failed env res s
         else print_uart env ('' done!'' @ CRLF) s \<bind> (\<lambda>s. Some (0, s))))))))
      (\<lambda>(rc, s'). rc = 0 \<and> boot_loaded st dest disk (ram s) (ram s'))"
      by (rule reader.boot_chain [OF s2 header_quiet ents rd(1-4)])
        (use l rd(5,6) fin m s1 in \<open>auto simp: boot_arrays_def linked_def\<close>)
  qed
qed

end
