(* ===== verification/Card_Sim.thy ===== *)
theory Card_Sim
  imports Sd
begin

text \<open>
  A small executable SD card that answers the commands the boot code sends: it collects the
  six bytes of a command, queues the response, and after a multi-block read refills the queue
  with the next block, its token and its checksum. It shows that the hypotheses about the card
  (\<open>sd_card\<close>, a successful \<open>card_init\<close>) can be met, for any disk content.
\<close>

record sim_card =
  cmdbuf :: "u8 list"
  queue :: "u8 list"
  strm :: "nat option"
  idle :: bool

definition sim_exec :: "u8 list \<Rightarrow> sim_card \<Rightarrow> sim_card" where
  "sim_exec buf c =
     (let op = buf ! 0 AND 0x3f;
          arg = push_bit 24 (ucast (buf ! 1)) OR push_bit 16 (ucast (buf ! 2)) OR
                push_bit 8 (ucast (buf ! 3)) OR ucast (buf ! 4) :: u32
      in if op = 0 then c\<lparr>queue := [1], strm := None, idle := True\<rparr>
         else if op = 8 then c\<lparr>queue := [1, 0, 0, 1, 0xaa]\<rparr>
         else if op = 41 then c\<lparr>queue := [0], idle := False\<rparr>
         else if op = 18 then c\<lparr>queue := [0], strm := Some (unat arg)\<rparr>
         else if op = 12 then c\<lparr>queue := [0], strm := None\<rparr>
         else c\<lparr>queue := [if idle c then 1 else 0]\<rparr>)"

definition sim_exch :: "(nat \<Rightarrow> u8 list) \<Rightarrow> u8 \<Rightarrow> sim_card \<Rightarrow> u8 \<times> sim_card" where
  "sim_exch disk b c =
     (if cmdbuf c \<noteq> [] \<or> b AND 0xc0 = 0x40 then
        (if length (cmdbuf c) = 5 then (0xFF, sim_exec (cmdbuf c @ [b]) (c\<lparr>cmdbuf := []\<rparr>))
         else (0xFF, c\<lparr>cmdbuf := cmdbuf c @ [b]\<rparr>))
      else
        (case queue c of
           r # rs \<Rightarrow> (r, c\<lparr>queue := rs\<rparr>)
         | [] \<Rightarrow>
             (case strm c of
                None \<Rightarrow> (0xFF, c)
              | Some l \<Rightarrow> (0xFF, c\<lparr>queue := [0xFE] @ disk l @ crc_bytes (disk l), strm := Some (l + 1)\<rparr>))))"

definition sim_phase :: "sim_card \<Rightarrow> card_phase" where
  "sim_phase c =
     (if cmdbuf c = [] \<and> queue c = [] \<and> \<not> idle c then
        (case strm c of None \<Rightarrow> Ready | Some l \<Rightarrow> Streaming l)
      else Unready)"

definition sim_fresh :: sim_card where
  "sim_fresh = \<lparr>cmdbuf = [], queue = [], strm = None, idle = False\<rparr>"

lemma arg_bytes:
  "push_bit 24 (ucast (ucast (drop_bit 24 w) :: u8)) OR push_bit 16 (ucast (ucast (drop_bit 16 w) :: u8)) OR
   push_bit 8 (ucast (ucast (drop_bit 8 w) :: u8)) OR ucast (ucast w :: u8) = w" for w :: u32
proof (rule bit_word_eqI)
  fix n assume "n < LENGTH(32)"
  then show "bit (push_bit 24 (ucast (ucast (drop_bit 24 w) :: u8) :: u32) OR push_bit 16 (ucast (ucast (drop_bit 16 w) :: u8)) OR
   push_bit 8 (ucast (ucast (drop_bit 8 w) :: u8)) OR ucast (ucast w :: u8)) n = bit w n"
    by (cases "n < 8"; cases "n < 16"; cases "n < 24") (simp_all add: bit_simps less_diff_conv2, linarith?)
qed

text \<open>A command sent to a card between commands is executed with its argument.\<close>

lemma sim_cmd:
  assumes "cmdbuf c = []" and "(0x40 OR cmd) AND 0xc0 = 0x40"
  shows "snd (xchg (sim_exch disk) (cmd_frame cmd arg crc) c) =
    sim_exec [0x40 OR cmd, ucast (drop_bit 24 arg), ucast (drop_bit 16 arg), ucast (drop_bit 8 arg), ucast arg, crc]
      ((snd (sim_exch disk 0xFF c))\<lparr>cmdbuf := []\<rparr>)"
proof -
  have "cmdbuf (snd (sim_exch disk 0xFF c)) = []"
    using assms(1) by (simp add: sim_exch_def split: list.split option.split)
  then show ?thesis
    using assms(2) by (simp add: cmd_frame_def sim_exch_def [of _ _ "_\<lparr>cmdbuf := _\<rparr>"] sim_exch_def [of disk "0x40 OR cmd"] split_beta Let_def)
qed

lemma sim_poll:
  assumes "cmdbuf c = []" and "queue c = r # rs" and "r AND 0x80 = 0"
  shows "card_poll (sim_exch disk) n c = (r, c\<lparr>queue := rs\<rparr>)"
  using assms by (subst card_poll.simps) (simp add: sim_exch_def)

lemma sim_filler:
  assumes "cmdbuf c = []" "queue c = []"
  shows "sim_exch disk 0xFF c = (0xFF, case strm c of None \<Rightarrow> c
     | Some l \<Rightarrow> c\<lparr>queue := [0xFE] @ disk l @ crc_bytes (disk l), strm := Some (l + 1)\<rparr>)"
  using assms by (simp add: sim_exch_def split: option.split)

lemma sim_drain:
  "cmdbuf c = [] \<Longrightarrow> queue c = q @ rs \<Longrightarrow>
   card_read (sim_exch disk) (length q) c = (q, c\<lparr>queue := rs\<rparr>)"
proof (induction q arbitrary: c)
  case Nil
  then show ?case by (simp add: card_read_Suc)
next
  case (Cons a q)
  from Cons.IH [of "c\<lparr>queue := q @ rs\<rparr>"] Cons.prems show ?case
    by (simp add: card_read_Suc sim_exch_def)
qed

lemma sim_fillers:
  "cmdbuf c = [] \<Longrightarrow> queue c = [] \<Longrightarrow> strm c = None \<Longrightarrow>
   card_read (sim_exch disk) n c = (replicate n 0xFF, c)"
  by (induction n) (simp_all add: card_read_Suc sim_filler)

lemma sim_sd_card:
  assumes "\<And>l. length (disk l) = 512"
  shows "sd_card (sim_exch disk) disk cap sim_phase"
  unfolding sd_card_def
proof (intro conjI allI impI)
  show "length (disk l) = 512" for l by (rule assms)
next
  fix c and lba :: u32 and crc
  assume "sim_phase c = Ready"
  then have c: "cmdbuf c = []" "queue c = []" "strm c = None" "\<not> idle c"
    by (auto simp: sim_phase_def split: if_splits option.splits)
  then show "fst (card_cmd (sim_exch disk) 18 lba crc c) = 0"
    "sim_phase (snd (card_cmd (sim_exch disk) 18 lba crc c)) = Streaming (unat lba)"
    by (simp_all add: card_cmd_def sim_cmd sim_filler sim_exec_def arg_bytes sim_poll sim_phase_def)
next
  fix c l
  assume "sim_phase c = Streaming l"
  then have c: "cmdbuf c = []" "queue c = []" "strm c = Some l" "\<not> idle c"
    by (auto simp: sim_phase_def split: if_splits option.splits)
  let ?frame = "[0xFE] @ disk l @ crc_bytes (disk l)"
  have len: "length ?frame = 515" using assms by (simp add: crc_bytes_def Let_def)
  have "card_read (sim_exch disk) (Suc 515) c = (0xFF # ?frame, c\<lparr>queue := [], strm := Some (l + 1)\<rparr>)"
    using sim_drain [of "c\<lparr>queue := ?frame, strm := Some (l + 1)\<rparr>" ?frame "[]" disk] c
    unfolding len card_read_Suc by (simp add: sim_filler)
  then show "\<exists>pre. 0xFE \<notin> set pre \<and>
      fst (card_read (sim_exch disk) (length pre + 515) c) = pre @ ?frame \<and>
      sim_phase (snd (card_read (sim_exch disk) (length pre + 515) c)) = Streaming (l + 1)"
    using c by (intro exI [of _ "[0xFF]"]) (simp add: sim_phase_def)
  show "sim_phase (snd (sim_exch disk 0xFF (snd (card_cmd (sim_exch disk) 12 0 1 c)))) \<in> {Ready, Stopping}"
    using c by (simp add: card_cmd_def sim_cmd sim_filler sim_exec_def sim_poll sim_phase_def)
qed

lemma sim_stop_prompt: "stop_prompt (sim_exch disk) sim_phase"
  by (simp add: stop_prompt_def sim_phase_def split: option.split)

lemma sim_fresh_sel:
  "cmdbuf sim_fresh = []" "queue sim_fresh = []" "strm sim_fresh = None" "\<not> idle sim_fresh"
  by (simp_all add: sim_fresh_def)

lemma sim_init: "card_init (sim_exch disk) sim_fresh = Some (0, sim_fresh)"
proof -
  have wake: "card_cmd (sim_exch disk) 0 0 0x95 sim_fresh = (1, sim_fresh\<lparr>idle := True\<rparr>)"
    by (simp add: card_cmd_def sim_cmd sim_filler sim_exec_def sim_poll sim_fresh_def)
  have cmd0: "card_cmd0 (sim_exch disk) 10000 sim_fresh = (True, sim_fresh\<lparr>idle := True\<rparr>)"
    using card_cmd0.simps(2) [of "sim_exch disk" 9999 sim_fresh]
    by (simp add: wake sim_filler sim_fresh_sel)
  have "card_read (sim_exch disk) 10 sim_fresh = (replicate 10 0xFF, sim_fresh)"
    by (simp add: sim_fillers sim_fresh_sel)
  moreover have "card_read (sim_exch disk) 6 (sim_fresh\<lparr>queue := [0, 0, 1, 0xaa], idle := True\<rparr>) =
      ([0, 0, 1, 0xaa, 0xFF, 0xFF], sim_fresh\<lparr>idle := True\<rparr>)"
    using sim_drain [of "sim_fresh\<lparr>queue := [0, 0, 1, 0xaa], idle := True\<rparr>" "[0, 0, 1, 0xaa]" "[]" disk]
      card_read_add [of "sim_exch disk" "Suc (Suc (Suc (Suc 0)))" "Suc (Suc 0)"]
      sim_fillers [of "sim_fresh\<lparr>idle := True\<rparr>" disk "Suc (Suc 0)"]
    by (simp add: sim_fresh_def numeral_eq_Suc)
  then have "card_cmd8 (sim_exch disk) (sim_fresh\<lparr>idle := True\<rparr>) = (True, sim_fresh\<lparr>idle := True\<rparr>)"
    by (simp add: card_cmd8_def card_cmd_def sim_cmd sim_filler sim_exec_def sim_poll sim_fresh_def)
  moreover have "card_acmd41 (sim_exch disk) (sim_fresh\<lparr>idle := True\<rparr>) = Some (True, sim_fresh)"
    by (subst card_acmd41.simps)
      (simp add: card_try41_def card_cmd_def sim_cmd sim_filler sim_exec_def sim_poll sim_fresh_def)
  ultimately show ?thesis by (simp add: card_init_def cmd0)
qed

lemma sim_fresh_ready: "sim_phase sim_fresh = Ready"
  by (simp add: sim_phase_def sim_fresh_def)

end
