(* ===== verification/Demo_Disk.thy ===== *)
theory Demo_Disk
  imports Gpt_Format
begin

text \<open>
  A small disk with a GUID partition table: the header in block 1, the table in block 2 and a
  boot partition of three blocks. The boot properties are instantiated on it.
\<close>

definition demo_header :: gpt_pth where
  "demo_header =
     \<lparr>signature = 0x5452415020494645, revision = 0x10000, header_size = 92, crc_header = 0, reserved = 0,
      current_lba = 1, backup_lba = 99, first_usable_lba = 3, last_usable_lba = 98, disk_guid = replicate 16 1,
      partition_entries_lba = 2, nr_partition_entries = 4, size_partition_entry = 128, crc_partition_entry = 0\<rparr>"

definition demo_entry :: partition_entries where
  "demo_entry =
     \<lparr>partition_type_guid = replicate 16 2, partition_guid = replicate 16 3, first_lba = 10, last_lba = 12,
      attributes = 0, part_name = replicate 72 0\<rparr>"

definition demo_disk :: "nat \<Rightarrow> u8 list" where
  "demo_disk l =
     (if l = 1 then gpt_pth_bytes demo_header @ replicate 420 0
      else if l = 2 then partition_entries_bytes demo_entry @ replicate 384 0
      else replicate 512 (of_nat l))"

lemma length_demo_disk: "length (demo_disk l) = 512"
  by (simp add: demo_disk_def length_gpt_pth_bytes length_partition_entries_bytes demo_header_def demo_entry_def)

lemma demo_header_read: "gpt_pth_of (demo_disk 1) = demo_header"
  by (simp add: demo_disk_def gpt_pth_roundtrip demo_header_def)

lemma demo_entry_read: "boot_entry demo_disk = demo_entry"
  unfolding boot_entry_def demo_header_read
  by (simp add: demo_header_def demo_disk_def partition_entries_roundtrip demo_entry_def)

lemma demo_gpt_disk: "gpt_disk demo_disk 100"
  unfolding gpt_disk_def demo_header_read demo_entry_read by (simp add: demo_header_def demo_entry_def)

lemma demo_boot_blocks: "boot_blocks demo_disk = 3"
  by (simp add: boot_blocks_def demo_entry_read) (simp add: demo_entry_def)

end
