(* ===== verification/Boot.thy ===== *)
theory Boot
  imports Gpt Card_Sim Demo_Disk
begin

text \<open>
  The properties of \<open>gpt_find_boot_partition\<close> and \<open>main\<close> of the FPGA boot code, instantiated on the
  board of \<open>Bench\<close>, the card of \<open>Card_Sim\<close> and the disk of \<open>Demo_Disk\<close>.
\<close>

section \<open>A board\<close>

definition demo_stack :: boot_stack where
  "demo_stack = \<lparr>stack_low = 0x83fff000, lba1_buf = 0x83fffc00, lba2_buf = 0x83fffa00, sd_ff = 0x83fff900\<rparr>"

lemma demo_layout: "boot_layout demo_stack 0x80000000 (boot_blocks demo_disk)"
proof -
  have "disjoint_obj 0x83fffc00 512 0x83fffa00 512" "disjoint_obj 0x83fffc00 512 0x83fff900 128"
    "disjoint_obj 0x83fffa00 512 0x83fff900 128"
    by (rule disjoint_obj_sym, rule disjoint_objI, simp, simp)+
  moreover have "disjoint_obj 0x80000000 (512 * 3) 0x83fff000 (unat (0x84000000 :: addr) - unat (0x83fff000 :: addr))"
    by (rule disjoint_objI) simp_all
  ultimately show ?thesis
    by (simp add: boot_layout_def stack_layout_def demo_boot_blocks demo_stack_def boot_arrays_def STACK_TOP_def)
qed

section \<open>Loading\<close>

text \<open>
  Claim C4: on a board with a live console, an SPI core that behaves as documented and sends in time, and
  a compliant card that is done with a stop command at once and carries a GUID partition table,
  \<open>gpt_find_boot_partition\<close> initialises the card, reads the header in block 1 and the table it
  points to, and copies the whole first partition, from its first to its last block inclusive, to
  \<open>dest\<close>; it returns 0. This needs an image that does not reach the stack; then memory changes only
  in the image and in the three local arrays, so that the frames with their return addresses are
  intact. The \<open>size\<close> argument has no influence.
\<close>

theorem gpt_loads_boot_partition:
  assumes "uart_ready env (spi_part V exch) s"
    and "quad_spi env V exch" and "spi_timing env V 64" and "spi_idle V (dev s)"
    and "sd_card exch disk cap phase" and "stop_prompt exch phase"
    and "card_init exch (vcard V (dev s)) = Some (0, c')" and "phase c' = Ready"
    and "gpt_disk disk cap" and "boot_layout st dest (boot_blocks disk)"
  shows "tw (gpt_find_boot_partition env st dest sz s) (\<lambda>(rc, s'). rc = 0 \<and> boot_loaded st dest disk (ram s) (ram s'))"
  by (rule gpt_find_loads [OF assms])

theorem gpt_loads_boot_partition_witness:
  "tw (gpt_find_boot_partition (bench_env (sim_exch demo_disk)) demo_stack 0x80000000 1 (bench_state sim_fresh))
     (\<lambda>(rc, s'). rc = 0 \<and> boot_loaded demo_stack 0x80000000 demo_disk
        (ram (bench_state sim_fresh :: sim_card bench cstate)) (ram s'))"
proof (rule gpt_loads_boot_partition [OF bench_console_ok bench_quad_spi bench_spi_timing])
  show "card_init (sim_exch demo_disk) (vcard bench_view (dev (bench_state sim_fresh))) = Some (0, sim_fresh)"
    by (simp add: sim_init)
qed (rule bench_idle sim_sd_card sim_stop_prompt length_demo_disk sim_fresh_ready demo_gpt_disk demo_layout)+

text \<open>Before \<open>main\<close> has run, nothing is known about the UART's registers.\<close>

lemma init_uart_ready:
  assumes "uart_live UART_LINE_STATUS env" and "uart_quiet env view"
  shows "tw (init_uart env 50000000 115200 s) (\<lambda>s'. uart_ready env view s' \<and> view (dev s') = view (dev s) \<and> ram s' = ram s)"
proof -
  have nz: "push_bit 4 (115200 :: u32) \<noteq> 0" by simp
  obtain s' where s': "init_uart env 50000000 115200 s = Some s'"
    using init_uart_trace [OF nz] by (blast elim: twE)
  moreover have "view (dev s') = view (dev s)" using init_uart_view [OF assms(2)] s' by (auto simp: ifret_def)
  moreover have "\<not> bit (3 :: u8) 7" "bit (0x80 :: u8) 7" by simp_all
  then have "\<not> dlab (console s')" "ram s' = ram s"
    using init_uart_trace [OF nz, of env 50000000 s] s' by (auto simp: uart_write_def dlab_def reg_defs)
  ultimately show ?thesis using assms by (simp add: console_ok_def)
qed

text \<open>Setting up the console and the greeting leave an idle SPI core and memory as they are.\<close>

lemma main_prologue:
  assumes "uart_live UART_LINE_STATUS env" and "uart_quiet env (spi_part V exch)" and "spi_idle V (dev s)"
    and "\<And>s2. uart_ready env (spi_part V exch) s2 \<Longrightarrow> spi_idle V (dev s2) \<Longrightarrow> vcard V (dev s2) = vcard V (dev s) \<Longrightarrow>
      ram s2 = ram s \<Longrightarrow> tw (k s2) Q"
  shows "tw (init_uart env 50000000 115200 s \<bind> (\<lambda>s. print_uart env (''Hello World!'' @ CRLF) s \<bind> k)) Q"
  unfolding print_uart_emit
proof (rule tw_bind [OF init_uart_ready [OF assms(1,2)]], elim conjE)
  fix s1 assume s1: "uart_ready env (spi_part V exch) s1" "spi_part V exch (dev s1) = spi_part V exch (dev s)"
    "ram s1 = ram s"
  show "tw (emit (write_serial env) (cstr_bytes (''Hello World!'' @ CRLF)) s1 \<bind> k) Q"
  proof (rule tw_bind [OF fpga.emit_total [OF s1(1)]])
    fix s2 assume s2: "uart_ready env (spi_part V exch) s2 \<and>
      sent (console s2) = sent (console s1) @ cstr_bytes (''Hello World!'' @ CRLF) \<and>
      (ram s2, spi_part V exch (dev s2), bus32 (trace s2)) = (ram s1, spi_part V exch (dev s1), bus32 (trace s1))"
    then have "spi_part V exch (dev s2) = spi_part V exch (dev s)" using s1(2) by simp
    from spi_idle_keep [OF this assms(3)] s2 s1(3) show "tw (k s2) Q" by (intro assms(4)) auto
  qed
qed

text \<open>
  Claim C1: the whole boot program. On such a board, whatever state the UART registers are in,
  \<open>main\<close> sets up the console, loads the boot partition to \<open>0x80000000\<close> and jumps there, provided that
  the image does not reach the stack below \<open>0x84000000\<close>; the frames on the stack are intact.
\<close>

theorem main_boots:
  assumes "uart_live UART_LINE_STATUS env" and "uart_quiet env (spi_part V exch)"
    and "quad_spi env V exch" and "spi_timing env V 64" and "spi_idle V (dev s)"
    and "sd_card exch disk cap phase" and "stop_prompt exch phase"
    and "card_init exch (vcard V (dev s)) = Some (0, c')" and "phase c' = Ready"
    and "gpt_disk disk cap" and "boot_layout st 0x80000000 (boot_blocks disk)"
  shows "tw (main env st s) (\<lambda>(e, s'). e = Jump 0x80000000 \<and> boot_loaded st 0x80000000 disk (ram s) (ram s'))"
  unfolding main_def
proof (rule main_prologue [OF assms(1,2,5)])
  fix s2 assume s2: "uart_ready env (spi_part V exch) s2" "spi_idle V (dev s2)" "vcard V (dev s2) = vcard V (dev s)"
    "ram s2 = ram s"
  show "tw (gpt_find_boot_partition env st 0x80000000 (2 * 16384) s2 \<bind>
      (\<lambda>(res, s). if res = 0 then Some (Jump 0x80000000, s) else Some (Spin, s)))
    (\<lambda>(e, s'). e = Jump 0x80000000 \<and> boot_loaded st 0x80000000 disk (ram s) (ram s'))"
    by (rule tw_bind [OF gpt_find_loads [OF s2(1) assms(3,4) s2(2) assms(6,7) _ assms(9-11)]]) (use assms(8) s2 in auto)
qed

theorem main_boots_witness:
  "tw (main (bench_env (sim_exch demo_disk)) demo_stack (bench_state sim_fresh)) (\<lambda>(e, s').
     e = Jump 0x80000000 \<and> boot_loaded demo_stack 0x80000000 demo_disk
        (ram (bench_state sim_fresh :: sim_card bench cstate)) (ram s'))"
proof (rule main_boots [OF bench_uart_live bench_uart_quiet bench_quad_spi bench_spi_timing])
  show "card_init (sim_exch demo_disk) (vcard bench_view (dev (bench_state sim_fresh))) = Some (0, sim_fresh)"
    by (simp add: sim_init)
qed (rule bench_idle sim_sd_card sim_stop_prompt length_demo_disk sim_fresh_ready demo_gpt_disk demo_layout)+

text \<open>
  Claim C20: a card that fails its initialisation is never booted from. When the initialisation
  dialogue ends with an error, \<open>main\<close> ends in its idle loop and memory is as it was.
\<close>

theorem main_spins_without_card:
  assumes "uart_live UART_LINE_STATUS env" and "uart_quiet env (spi_part V exch)"
    and "quad_spi env V exch" and "spi_timing env V 64" and "spi_idle V (dev s)"
    and "card_init exch (vcard V (dev s)) = Some (rc, c')" and "rc \<noteq> 0"
  shows "tw (main env st s) (\<lambda>(e, s'). e = Spin \<and> ram s' = ram s)"
  unfolding main_def
proof (rule main_prologue [OF assms(1,2,5)])
  fix s2 assume s2: "uart_ready env (spi_part V exch) s2" "spi_idle V (dev s2)" "vcard V (dev s2) = vcard V (dev s)"
    "ram s2 = ram s"
  have v: "card_init exch (vcard V (dev s2)) = Some (rc, c')" using assms(6) s2(3) by simp
  have "tw (gpt_find_boot_partition env st 0x80000000 (2 * 16384) s2) (\<lambda>(res, s'). res = - 1 \<and> ram s' = ram s)"
    unfolding gpt_find_boot_partition_def print_uart_emit
    by (rule tw_bind2 [OF init_sd_linked [OF s2(1) assms(3,4) s2(2) v]])
      (use assms(7) s2 in \<open>auto simp: linked_def intro!: tw_bind [OF emit_linked [where V = V and exch = exch and c = c' and m = "ram s"]]\<close>)
  then show "tw (gpt_find_boot_partition env st 0x80000000 (2 * 16384) s2 \<bind>
      (\<lambda>(res, s). if res = 0 then Some (Jump 0x80000000, s) else Some (Spin, s)))
    (\<lambda>(e, s'). e = Spin \<and> ram s' = ram s)" by (rule tw_bind) auto
qed

lemma silent_poll: "card_poll script_exch n [] = (0xFF, [])"
  by (induction n rule: less_induct) (subst card_poll.simps, simp)

lemma silent_cmd: "card_cmd script_exch cmd arg crc [] = (0xFF, [])"
  by (simp add: card_cmd_def cmd_frame_def silent_poll)

lemma silent_init: "card_init script_exch [] = Some (- 1, [])"
proof -
  have "card_cmd0 script_exch n [] = (False, [])" for n
    by (induction n) (simp_all add: silent_cmd)
  moreover have "snd (card_read script_exch n []) = []" for n
    by (induction n) (simp_all add: card_read_Suc split_beta)
  ultimately show ?thesis by (simp add: card_init_def)
qed

theorem main_spins_without_card_witness:
  "tw (main (bench_env script_exch) demo_stack (bench_state [])) (\<lambda>(e, s').
     e = Spin \<and> ram s' = ram (bench_state [] :: u8 list bench cstate))"
  by (rule main_spins_without_card [OF bench_uart_live bench_uart_quiet bench_quad_spi bench_spi_timing, where rc = "- 1" and c' = "[]"])
    (simp_all add: silent_init)

end
