(* ===== verification/Sd_Props.thy ===== *)
theory Sd_Props
  imports Card_Sim
begin

text \<open>
  The properties of the SD driver of \<open>Sd\<close>, with their instances on the board of \<open>Bench\<close> and
  the card of \<open>Card_Sim\<close>.
\<close>

section \<open>Commands\<close>

lemma response_bit: "(r AND 0x80 = 0) = (\<not> bit r 7)" for r :: u8
  using and_exp_eq_0_iff_not_bit [of r 7] by simp

text \<open>The poll loop stops at the first answer whose top bit is clear, or after \<open>n\<close> answers.\<close>

lemma card_poll_char:
  "0 < n \<Longrightarrow> \<exists>k. 0 < k \<and> k \<le> n \<and> snd (card_read exch k c) = snd (card_poll exch n c) \<and>
     last (fst (card_read exch k c)) = fst (card_poll exch n c) \<and>
     list_all (\<lambda>a. bit a 7) (butlast (fst (card_read exch k c))) \<and>
     (bit (fst (card_poll exch n c)) 7 \<longrightarrow> k = n)"
proof (induction n arbitrary: c rule: less_induct)
  case (less n)
  let ?r = "fst (exch 0xFF c)" and ?c = "snd (exch 0xFF c)"
  show ?case
  proof (cases "bit ?r 7 \<and> 0 < n - 1")
    case True
    then have p: "card_poll exch n c = card_poll exch (n - 1) ?c"
      by (subst card_poll.simps) (simp add: response_bit split_beta Let_def)
    from less.IH [of "n - 1" ?c] True obtain k where k: "0 < k" "k \<le> n - 1"
      "snd (card_read exch k ?c) = snd (card_poll exch n c)"
      "last (fst (card_read exch k ?c)) = fst (card_poll exch n c)"
      "list_all (\<lambda>a. bit a 7) (butlast (fst (card_read exch k ?c)))"
      "bit (fst (card_poll exch n c)) 7 \<longrightarrow> k = n - 1" unfolding p by auto
    have ne: "fst (card_read exch k ?c) \<noteq> []" using k(1) by (simp flip: length_0_conv)
    show ?thesis
      using k True ne by (intro exI [of _ "Suc k"]) (auto simp: card_read_Suc split_beta Let_def)
  next
    case False
    then have p: "card_poll exch n c = (?r, ?c)"
      by (subst card_poll.simps) (auto simp: response_bit split_beta Let_def)
    show ?thesis
      using False less.prems unfolding p
      by (intro exI [of _ "Suc 0"]) (auto simp: card_read_Suc split_beta Let_def)
  qed
qed

text \<open>
  Claim C15: with such devices \<open>sd_cmd\<close> always returns. It has sent one filler byte and the six-byte command
  frame (start bits and opcode, the argument from its most significant byte, the checksum byte),
  and then between 1 and 100 filler bytes: it stops at the first answer whose top bit is clear
  and returns the last answer, so an answer with the top bit set is returned only after 100
  tries. Memory is unchanged.
\<close>

theorem sd_cmd_dialogue:
  assumes "spi_ok env V exch s"
  shows "tw (sd_cmd env cmd arg crc s) (\<lambda>(r, s'). spi_ok env V exch s' \<and> ram s' = ram s \<and>
     (\<exists>n answers. 0 < n \<and> n \<le> 100 \<and>
        (answers, vcard V (dev s')) = card_read exch n (snd (xchg exch
           [0xFF, 0x40 OR cmd, ucast (drop_bit 24 arg), ucast (drop_bit 16 arg), ucast (drop_bit 8 arg),
            ucast arg, crc] (vcard V (dev s)))) \<and>
        r = last answers \<and> list_all (\<lambda>a. bit a 7) (butlast answers) \<and> (if bit r 7 then n = 100 else True)))"
proof -
  let ?c = "snd (xchg exch (cmd_frame cmd arg crc) (vcard V (dev s)))"
  from card_poll_char [of 100 exch ?c] obtain n where n: "0 < n" "n \<le> 100"
    "snd (card_read exch n ?c) = snd (card_poll exch 100 ?c)"
    "last (fst (card_read exch n ?c)) = fst (card_poll exch 100 ?c)"
    "list_all (\<lambda>a. bit a 7) (butlast (fst (card_read exch n ?c)))"
    "bit (fst (card_poll exch 100 ?c)) 7 \<longrightarrow> n = 100" by auto
  have "linked env V exch (vcard V (dev s)) (ram s) s" using assms by (simp add: linked_def)
  from sd_cmd_linked [OF this, of cmd arg crc] show ?thesis
    unfolding cmd_frame_def [symmetric]
    by (rule tw_weaken) (use n in \<open>auto simp: linked_def card_cmd_def
        intro!: exI [of _ n] exI [of _ "fst (card_read exch n ?c)"] prod_eqI\<close>)
qed

theorem sd_cmd_dialogue_witness:
  "tw (sd_cmd (bench_env (sim_exch (\<lambda>_. replicate 512 7))) 55 0 0x65 (bench_state sim_fresh))
     (\<lambda>(r, s'). spi_ok (bench_env (sim_exch (\<lambda>_. replicate 512 7))) bench_view (sim_exch (\<lambda>_. replicate 512 7)) s' \<and>
     ram s' = ram (bench_state sim_fresh) \<and>
     (\<exists>n answers. 0 < n \<and> n \<le> 100 \<and>
        (answers, vcard bench_view (dev s')) = card_read (sim_exch (\<lambda>_. replicate 512 7)) n
           (snd (xchg (sim_exch (\<lambda>_. replicate 512 7))
           [0xFF, 0x40 OR 55, ucast (drop_bit 24 (0 :: u32)), ucast (drop_bit 16 (0 :: u32)),
            ucast (drop_bit 8 (0 :: u32)), ucast (0 :: u32), 0x65] (vcard bench_view (dev (bench_state sim_fresh))))) \<and>
        r = last answers \<and> list_all (\<lambda>a. bit a 7) (butlast answers) \<and> (if bit r 7 then n = 100 else True)))"
  by (rule sd_cmd_dialogue [OF bench_spi_ok])

section \<open>Initialisation\<close>

text \<open>
  Claim C9: \<open>init_sd\<close> on a board with a live console and an SPI core as documented that sends in time conducts exactly
  the initialisation dialogue with the card: ten filler bytes, CMD0 until the card is idle
  (error -1 when 9999 tries do not succeed), CMD8 with the echo check (error -2), CMD55 and ACMD41
  until the card has left the idle state (error -3 for any other answer than 0). It returns the
  result of that dialogue, leaves the card where the dialogue leaves it, does not touch memory,
  and does not return exactly when the card stays idle forever.
\<close>

theorem init_sd_refines:
  assumes "uart_ready env (spi_part V exch) s" and "quad_spi env V exch" and "spi_timing env V 64" and "spi_idle V (dev s)"
  shows "map_option (\<lambda>(rc, s'). (rc, vcard V (dev s'), ram s')) (init_sd env s)
     = map_option (\<lambda>(rc, c'). (rc, c', ram s)) (card_init exch (vcard V (dev s)))"
proof (cases "card_init exch (vcard V (dev s))")
  case None
  then show ?thesis using init_sd_stuck [OF assms] by simp
next
  case (Some r)
  then obtain rc c' where "card_init exch (vcard V (dev s)) = Some (rc, c')" by (cases r) auto
  with init_sd_linked [OF assms this] show ?thesis by (auto simp: linked_def elim!: twE)
qed

theorem init_sd_refines_witness:
  "map_option (\<lambda>(rc, s'). (rc, vcard bench_view (dev s'), ram s'))
       (init_sd (bench_env (sim_exch (\<lambda>_. replicate 512 7))) (bench_state sim_fresh))
     = Some (0, sim_fresh, \<lambda>_. 0)"
proof -
  from init_sd_refines [OF bench_console_ok bench_quad_spi bench_spi_timing, of sim_fresh "sim_exch (\<lambda>_. replicate 512 7)"]
  show ?thesis by (simp add: sim_init)
qed

section \<open>Reading blocks\<close>

text \<open>
  Claim C7: \<open>sd_copy\<close> on a working board conducts exactly the multi-block read dialogue: it
  returns the dialogue's result code, memory at \<open>dst\<close> holds the bytes the card sent, the only
  other change is the local array of \<open>0xFF\<close> bytes, and it does not return exactly when the card
  never sends a data token. The hypothesis on the buffers is that the local array does not
  overlap the destination.
\<close>

theorem sd_copy_refines:
  assumes "spi_ok env V exch s" and "sd_buffers ff dst (unat sz)"
  shows "map_option (\<lambda>(rc, s'). (rc, vcard V (dev s'), ram s')) (sd_copy env ff dst lba sz s)
     = map_option (\<lambda>(rc, bs, c'). (rc, c', store_bytes dst bs (store_bytes ff (replicate 128 0xFF) (ram s))))
         (card_copy exch lba (unat sz) (vcard V (dev s)))"
proof -
  have l: "linked env V exch (vcard V (dev s)) (ram s) s" using assms(1) by (simp add: linked_def)
  show ?thesis
  proof (cases "card_copy exch lba (unat sz) (vcard V (dev s))")
    case None
    then show ?thesis using sd_copy_stuck [OF l _ assms(2)] by simp
  next
    case (Some r)
    then obtain rc bs c' where "card_copy exch lba (unat sz) (vcard V (dev s)) = Some (rc, bs, c')"
      by (cases r) auto
    with sd_copy_linked [OF l this assms(2)] show ?thesis by (auto simp: linked_def elim!: twE)
  qed
qed

theorem sd_copy_refines_witness:
  "map_option (\<lambda>(rc, s'). (rc, vcard bench_view (dev s'), ram s'))
      (sd_copy (bench_env script_exch) 0x1000 0x2000 5 0 (bench_state [0xFF, 0xFF, 0xFF, 0xFF, 0xFF, 0xFF, 0xFF, 5]))
   = Some (- 1, [], store_bytes 0x1000 (replicate 128 0xFF) (\<lambda>_. 0))"
proof -
  let ?s = "bench_state [0xFF, 0xFF, 0xFF, 0xFF, 0xFF, 0xFF, 0xFF, 5] :: u8 list bench cstate"
  have fill: "card_read script_exch n [] = (replicate n 0xFF, [])" for n
    by (induction n) (simp_all add: card_read_Suc)
  have "card_poll script_exch 100 [5] = (5, [])"
    by (subst card_poll.simps) simp
  then have "card_copy script_exch 5 0 [0xFF, 0xFF, 0xFF, 0xFF, 0xFF, 0xFF, 0xFF, 5] = Some (- 1, [], [])"
    by (simp add: card_copy_def card_cmd_def cmd_frame_def fill)
  moreover have "vcard bench_view (dev ?s) = [0xFF, 0xFF, 0xFF, 0xFF, 0xFF, 0xFF, 0xFF, 5]" "ram ?s = (\<lambda>_. 0)"
    by (simp_all add: bench_view_def bench_state_def bench_dev_def)
  moreover have "sd_buffers 0x1000 0x2000 0"
    by (simp add: sd_buffers_def disjoint_objI)
  ultimately show ?thesis
    using sd_copy_refines [OF bench_spi_ok [of script_exch "[0xFF, 0xFF, 0xFF, 0xFF, 0xFF, 0xFF, 0xFF, 5]"], where ff = "0x1000" and dst = "0x2000" and sz = 0 and lba = 5] by simp
qed

text \<open>
  Claim C2: with a compliant card that has been initialised, \<open>sd_copy\<close> returns 0 and memory at
  \<open>dst\<close> holds the requested disk blocks in order. The link is idle and the card has been told to
  stop: it is ready, or not yet done with the stop command; for the data this makes no difference.
  Asked for zero blocks it copies one.
\<close>

theorem sd_copy_reads_disk:
  assumes "spi_ok env V exch s" and "sd_buffers ff dst (unat sz)"
    and "sd_card exch disk cap phase" and "phase (vcard V (dev s)) = Ready" and "unat lba + max 1 (unat sz) \<le> cap"
  shows "tw (sd_copy env ff dst lba sz s) (\<lambda>(rc, s'). rc = 0 \<and>
     ram_bytes (ram s') dst (512 * max 1 (unat sz)) = concat (map disk [unat lba..<unat lba + max 1 (unat sz)]) \<and>
     phase (vcard V (dev s')) \<in> {Ready, Stopping} \<and> spi_ok env V exch s')"
proof -
  let ?bs = "concat (map disk [unat lba..<unat lba + max 1 (unat sz)])"
  have len: "length ?bs = 512 * max 1 (unat sz)"
    using sd_card_len [OF assms(3)] by (simp add: length_concat comp_def sum_list_triv)
  then have fits: "length ?bs \<le> 2 ^ 64" using unsigned_less [of sz, where 'a = nat] by simp
  from sd_card_copy [OF assms(3-5)] obtain c' where
    c': "card_copy exch lba (unat sz) (vcard V (dev s)) = Some (0, ?bs, c')" "phase c' \<in> {Ready, Stopping}" by blast
  have "linked env V exch (vcard V (dev s)) (ram s) s" using assms(1) by (simp add: linked_def)
  from sd_copy_linked [OF this c'(1) assms(2)] show ?thesis
    by (rule tw_weaken) (use c'(2) ram_bytes_store_same [OF fits] len in \<open>auto simp: linked_def\<close>)
qed

theorem sd_copy_reads_disk_witness:
  "tw (sd_copy (bench_env (sim_exch (\<lambda>l. replicate 512 (of_nat l)))) 0x1000 0x2000 5 2 (bench_state sim_fresh))
     (\<lambda>(rc, s'). rc = 0 \<and>
       ram_bytes (ram s') 0x2000 (512 * max 1 (unat (2 :: u32)))
         = concat (map (\<lambda>l. replicate 512 (of_nat l)) [unat (5 :: u32)..<unat (5 :: u32) + max 1 (unat (2 :: u32))]) \<and>
       sim_phase (vcard bench_view (dev s')) \<in> {Ready, Stopping} \<and>
       spi_ok (bench_env (sim_exch (\<lambda>l. replicate 512 (of_nat l)))) bench_view
         (sim_exch (\<lambda>l. replicate 512 (of_nat l))) s')"
proof (rule sd_copy_reads_disk [OF bench_spi_ok])
  show "sd_card (sim_exch (\<lambda>l. replicate 512 (of_nat l))) (\<lambda>l. replicate 512 (of_nat l)) 100 sim_phase"
    by (rule sim_sd_card) simp
qed (simp_all add: sd_buffers_def disjoint_objI bench_view_def bench_state_def bench_dev_def sim_fresh_ready)

text \<open>The blocks a card sends one after the other, each with the checksum that came with it.\<close>

inductive sent_blocks ::
    "(u8 \<Rightarrow> 'c \<Rightarrow> u8 \<times> 'c) \<Rightarrow> 'c \<Rightarrow> (u8 list \<times> u16) list \<Rightarrow> bool" for exch where
  sent_none: "sent_blocks exch c []"
| sent_block: "card_block exch c = Some (bs, crc, c') \<Longrightarrow> sent_blocks exch c' fs \<Longrightarrow>
     sent_blocks exch c ((bs, crc) # fs)"

definition crc_good :: "u8 list \<times> u16 \<Rightarrow> bool" where
  "crc_good f \<longleftrightarrow> foldl crc16_ref 0 (fst f) = snd f"

lemma card_blocks_sent:
  "card_blocks exch k c = Some (rc, bs, c') \<Longrightarrow> \<exists>fs. sent_blocks exch c fs \<and> fs \<noteq> [] \<and>
     bs = concat (map fst fs) \<and> length bs = 512 * length fs \<and> length fs \<le> Suc k \<and>
     list_all crc_good (butlast fs) \<and>
     (if crc_good (last fs) then rc = 0 \<and> length fs = Suc k else rc = - 2)"
proof (induction k arbitrary: c rc bs)
  case 0
  then obtain crc where b: "card_block exch c = Some (bs, crc, c')"
    "rc = (if foldl crc16_ref 0 bs = crc then 0 else - 2)" by (auto simp: bind_eq_Some_conv)
  then have "sent_blocks exch c [(bs, crc)]" by (intro sent_block sent_none)
  with b show ?case
    by (intro exI [of _ "[(bs, crc)]"]) (simp add: crc_good_def card_block_length)
next
  case (Suc k)
  from Suc.prems obtain bs1 crc c1 where b: "card_block exch c = Some (bs1, crc, c1)"
    and rest: "(if foldl crc16_ref 0 bs1 = crc then card_blocks exch k c1 \<bind> (\<lambda>(rc, bs', c). Some (rc, bs1 @ bs', c))
      else Some (- 2, bs1, c1)) = Some (rc, bs, c')" by (auto simp: bind_eq_Some_conv split: if_splits)
  have len: "length bs1 = 512" by (rule card_block_length [OF b])
  show ?case
  proof (cases "foldl crc16_ref 0 bs1 = crc")
    case True
    with rest obtain bs' where "card_blocks exch k c1 = Some (rc, bs', c')" and bs: "bs = bs1 @ bs'"
      by (auto simp: bind_eq_Some_conv)
    from Suc.IH [OF this(1)] obtain fs where "sent_blocks exch c1 fs" "fs \<noteq> []"
      "bs' = concat (map fst fs)" "length bs' = 512 * length fs" "length fs \<le> Suc k"
      "list_all crc_good (butlast fs)"
      "if crc_good (last fs) then rc = 0 \<and> length fs = Suc k else rc = - 2" by blast
    with True bs b len show ?thesis
      by (intro exI [of _ "(bs1, crc) # fs"]) (auto simp: crc_good_def [of "(bs1, crc)"] intro: sent_block split: if_splits)
  next
    case False
    with rest have "bs = bs1" "rc = - 2" by auto
    with False b len show ?thesis
      by (intro exI [of _ "[(bs1, crc)]"]) (auto simp: crc_good_def intro: sent_block sent_none)
  qed
qed

text \<open>
  Claim C3: no block is accepted without its checksum. Whatever the card answers, if \<open>sd_copy\<close>
  returns then the result is 0, -1 or -2. It is -1 exactly when the card did not answer CMD18
  with 0, and then the destination is untouched. Otherwise memory at \<open>dst\<close> holds the blocks the
  card sent, all but the last with a matching CRC; the result is 0 if the last matches as well,
  and then all requested blocks have arrived, and -2 if it does not.
\<close>

theorem sd_copy_integrity:
  assumes "spi_ok env V exch s" and "sd_buffers ff dst (unat sz)"
  shows "ifret (sd_copy env ff dst lba sz s) (\<lambda>(rc, s').
     let (r, c1) = card_cmd exch 18 lba 1 (vcard V (dev s)) in
     if r \<noteq> 0 then rc = - 1 \<and> ram s' = store_bytes ff (replicate 128 0xFF) (ram s)
     else \<exists>fs. sent_blocks exch c1 fs \<and> fs \<noteq> [] \<and> length fs \<le> max 1 (unat sz) \<and>
        ram_bytes (ram s') dst (512 * length fs) = concat (map fst fs) \<and> list_all crc_good (butlast fs) \<and>
        (if crc_good (last fs) then rc = 0 \<and> length fs = max 1 (unat sz) else rc = - 2))"
proof (rule ifretI, clarify)
  fix rc s' assume ret: "sd_copy env ff dst lba sz s = Some (rc, s')"
  have l: "linked env V exch (vcard V (dev s)) (ram s) s" using assms(1) by (simp add: linked_def)
  obtain rc' bs c' where spec: "card_copy exch lba (unat sz) (vcard V (dev s)) = Some (rc', bs, c')"
    using sd_copy_stuck [OF l _ assms(2), of lba] ret by (cases "card_copy exch lba (unat sz) (vcard V (dev s))") auto
  from sd_copy_linked [OF l spec assms(2)] ret have rc: "rc' = rc"
    and mem: "ram s' = store_bytes dst bs (store_bytes ff (replicate 128 0xFF) (ram s))" by (simp_all add: linked_def)
  obtain r c1 where c1: "card_cmd exch 18 lba 1 (vcard V (dev s)) = (r, c1)" by fastforce
  note spec = spec [unfolded card_copy_def c1 Let_def prod.case rc]
  have n: "Suc (unat sz - 1) = max 1 (unat sz)" by simp
  show "let (r, c1) = card_cmd exch 18 lba 1 (vcard V (dev s)) in
     if r \<noteq> 0 then rc = - 1 \<and> ram s' = store_bytes ff (replicate 128 0xFF) (ram s)
     else \<exists>fs. sent_blocks exch c1 fs \<and> fs \<noteq> [] \<and> length fs \<le> max 1 (unat sz) \<and>
        ram_bytes (ram s') dst (512 * length fs) = concat (map fst fs) \<and> list_all crc_good (butlast fs) \<and>
        (if crc_good (last fs) then rc = 0 \<and> length fs = max 1 (unat sz) else rc = - 2)"
  proof (cases "r = 0")
    case True
    with spec obtain c2 where "card_blocks exch (unat sz - 1) c1 = Some (rc, bs, c2)"
      by (auto simp: bind_eq_Some_conv)
    from card_blocks_sent [OF this] obtain fs where fs: "sent_blocks exch c1 fs" "fs \<noteq> []"
      "bs = concat (map fst fs)" "length bs = 512 * length fs" "length fs \<le> max 1 (unat sz)"
      "list_all crc_good (butlast fs)"
      "if crc_good (last fs) then rc = 0 \<and> length fs = max 1 (unat sz) else rc = - 2" unfolding n by blast
    have "length bs \<le> 2 ^ 64" using fs(4,5) unsigned_less [of sz, where 'a = nat] by (simp add: max_def split: if_splits)
    from ram_bytes_store_same [OF this] fs True show ?thesis unfolding c1 mem Let_def prod.case by auto
  next
    case False
    with spec show ?thesis by (simp add: c1 mem)
  qed
qed

theorem sd_copy_integrity_witness:
  "ifret (sd_copy (bench_env (sim_exch (\<lambda>_. replicate 512 7))) 0x1000 0x2000 5 1 (bench_state sim_fresh)) (\<lambda>(rc, s').
     let (r, c1) = card_cmd (sim_exch (\<lambda>_. replicate 512 7)) 18 5 1 (vcard bench_view (dev (bench_state sim_fresh))) in
     if r \<noteq> 0 then rc = - 1 \<and> ram s' = store_bytes 0x1000 (replicate 128 0xFF) (ram (bench_state sim_fresh))
     else \<exists>fs. sent_blocks (sim_exch (\<lambda>_. replicate 512 7)) c1 fs \<and> fs \<noteq> [] \<and> length fs \<le> max 1 (unat (1 :: u32)) \<and>
        ram_bytes (ram s') 0x2000 (512 * length fs) = concat (map fst fs) \<and> list_all crc_good (butlast fs) \<and>
        (if crc_good (last fs) then rc = 0 \<and> length fs = max 1 (unat (1 :: u32)) else rc = - 2))"
  by (rule sd_copy_integrity [OF bench_spi_ok]) (simp add: sd_buffers_def disjoint_objI)

text \<open>
  Claim C8: whatever the devices do, \<open>sd_copy\<close> writes memory only in the destination, 512 bytes
  per block requested (at least one block), and in its local array. Bytes of a card that keeps
  sending cannot go anywhere else.
\<close>

theorem sd_copy_memory_safe:
  "ifret (sd_copy env ff dst lba sz s) (\<lambda>(rc, s').
     \<forall>x. in_obj dst (512 * max 1 (unat sz)) x \<or> in_obj ff 128 x \<or> ram s' x = ram s x)"
  by (rule sd_copy_unchanged)

end
