(* ===== verification/Gpt_Layout.thy ===== *)
theory Gpt_Layout
  imports Demo_Disk
begin

text \<open>
  The structures of \<open>gpt.h\<close> against the bytes in memory: reading them through a pointer loses
  nothing and invents nothing, and the entry pointers of \<open>gpt_find_boot_partition\<close>
  (\<open>lba2_buf + (i * 128)\<close>) hit the entries of a table block exactly.
\<close>

lemma field_join: "b = a + n \<Longrightarrow> field a n bs @ field b m bs = field a (n + m) bs"
  by (simp add: field_def take_add) (simp add: add.commute)

lemma length_field: "off + n \<le> length bs \<Longrightarrow> length (field off n bs) = n"
  by (simp add: field_def)

lemma le_bytes_field:
  assumes "off + n \<le> length bs" "8 * n \<le> LENGTH('a)"
  shows "le_bytes n (le_word (field off n bs) :: 'a::len word) = field off n bs"
  using le_bytes_le_word [of "field off n bs", where 'a = 'a] assms by (simp add: length_field)

lemma gpt_pth_bytes_of: "length bs = 92 \<Longrightarrow> gpt_pth_bytes (gpt_pth_of bs) = bs"
  by (simp add: gpt_pth_bytes_def gpt_pth_of_def le_bytes_field field_join field_all)

lemma partition_entries_bytes_of: "length bs = 128 \<Longrightarrow> partition_entries_bytes (partition_entries_of bs) = bs"
  by (simp add: partition_entries_bytes_def partition_entries_of_def le_bytes_field field_join field_all)

text \<open>
  The structures of \<open>gpt.h\<close> cover their bytes without gap or overlap. Whatever is in
  memory at \<open>a\<close>, writing out the fields that a \<open>gpt_pth_t\<close> or \<open>partition_entries_t\<close> pointer to
  \<open>a\<close> reads gives back the 92 and 128 bytes there.
\<close>

theorem gpt_structs_cover_memory:
  "gpt_pth_bytes (gpt_pth_at m a) = ram_bytes m a 92 \<and>
   partition_entries_bytes (partition_entries_at m a) = ram_bytes m a 128"
  by (simp add: gpt_pth_at_def partition_entries_at_def gpt_pth_bytes_of partition_entries_bytes_of)

text \<open>Entries as a partitioning tool may write them, and the block of a table.\<close>

definition wf_entry :: "partition_entries \<Rightarrow> bool" where
  "wf_entry e \<longleftrightarrow> length (partition_type_guid e) = 16 \<and> length (partition_guid e) = 16 \<and> length (part_name e) = 72"

definition table_block :: "partition_entries list \<Rightarrow> u8 list" where
  "table_block es = concat (map partition_entries_bytes es)"

lemma length_table_block: "list_all wf_entry es \<Longrightarrow> length (table_block es) = 128 * length es"
  by (induction es) (simp_all add: table_block_def wf_entry_def length_partition_entries_bytes)

lemma field_table_block:
  "list_all wf_entry es \<Longrightarrow> i < length es \<Longrightarrow> field (i * 128) 128 (table_block es) = partition_entries_bytes (es ! i)"
proof (induction es arbitrary: i)
  case (Cons e es)
  have e: "length (partition_entries_bytes e) = 128"
    using Cons.prems(1) by (simp add: wf_entry_def length_partition_entries_bytes)
  show ?case
  proof (cases i)
    case 0
    then show ?thesis using e by (simp add: table_block_def field_def)
  next
    case (Suc j)
    with Cons e show ?thesis by (simp add: table_block_def field_append)
  qed
qed simp

lemma ram_bytes_store_field:
  assumes "off + n \<le> length bs" "length bs \<le> 2 ^ 64"
  shows "ram_bytes (store_bytes a bs m) (a + of_nat off) n = field off n bs"
proof -
  have at: "store_bytes a bs m (a + of_nat off + of_nat i) = bs ! (off + i)" if "i < n" for i
    using store_bytes_at [of "off + i" bs a m] that assms by (simp add: add.assoc)
  show ?thesis by (rule nth_equalityI) (use assms in \<open>simp_all add: at field_def\<close>)
qed

text \<open>
  The entry pointers of the boot code address the entries of the table. When the table
  block that holds the entries \<open>es\<close> is in memory at \<open>buf\<close>, the \<open>partition_entries_t\<close> read at
  \<open>buf + i * 128\<close> is exactly the \<open>i\<close>-th entry.
\<close>

theorem table_entry_read:
  assumes "list_all wf_entry es" and "length es \<le> 4" and "i < length es"
  shows "partition_entries_at (store_bytes buf (table_block es) m) (buf + of_nat (i * 128)) = es ! i"
proof -
  have "i * 128 + 128 \<le> length (table_block es)" "length (table_block es) \<le> 2 ^ 64"
    using assms by (simp_all add: length_table_block)
  note ram_bytes_store_field [OF this, of buf m]
  moreover have "wf_entry (es ! i)" using assms by (simp add: list_all_length)
  ultimately show ?thesis
    using partition_entries_roundtrip [of "es ! i" "[]"] field_table_block [OF assms(1,3)]
    by (simp add: partition_entries_at_def wf_entry_def)
qed

theorem table_entry_read_witness:
  "partition_entries_at (store_bytes 0x83000200 (table_block [demo_entry, demo_entry\<lparr>first_lba := 20\<rparr>]) (\<lambda>_. 0))
     (0x83000200 + of_nat (1 * 128)) = demo_entry\<lparr>first_lba := 20\<rparr>"
  using table_entry_read [of "[demo_entry, demo_entry\<lparr>first_lba := 20\<rparr>]" 1 "0x83000200" "\<lambda>_. 0"]
  by (simp add: wf_entry_def demo_entry_def)

end
