(* ===== verification/Piton_Uart.thy ===== *)
theory Piton_Uart
  imports Uart
begin

text \<open>
  \<open>corev_apu/openpiton/bootrom/linux/src/uart.c\<close> and \<open>uart.h\<close>: the console of the OpenPiton
  boot code. The registers are adjacent bytes at another base address, \<open>init_uart\<close> does not
  write the FIFO control register, the printing functions return the number of characters
  sent, and there is a decimal printer. \<open>write_reg_u8\<close>, \<open>read_reg_u8\<close>, \<open>bin_to_hex_table\<close> and
  \<open>bin_to_hex\<close> are the same text as in the FPGA boot code and are shared with it.
\<close>

section \<open>Registers\<close>

definition PITON_UART_BASE :: addr where [reg_defs]: "PITON_UART_BASE = 0xFFF0C2C000"
definition PITON_UART_THR :: addr where [reg_defs]: "PITON_UART_THR = PITON_UART_BASE + 0"
definition PITON_UART_INTERRUPT_ENABLE :: addr where [reg_defs]: "PITON_UART_INTERRUPT_ENABLE = PITON_UART_BASE + 1"
definition PITON_UART_LINE_CONTROL :: addr where [reg_defs]: "PITON_UART_LINE_CONTROL = PITON_UART_BASE + 3"
definition PITON_UART_MODEM_CONTROL :: addr where [reg_defs]: "PITON_UART_MODEM_CONTROL = PITON_UART_BASE + 4"
definition PITON_UART_LINE_STATUS :: addr where [reg_defs]: "PITON_UART_LINE_STATUS = PITON_UART_BASE + 5"
definition PITON_UART_DLAB_LSB :: addr where [reg_defs]: "PITON_UART_DLAB_LSB = PITON_UART_BASE + 0"
definition PITON_UART_DLAB_MSB :: addr where [reg_defs]: "PITON_UART_DLAB_MSB = PITON_UART_BASE + 1"

section \<open>Operations\<close>

definition piton_is_transmit_empty :: "'d env \<Rightarrow> 'd cstate \<Rightarrow> u32 \<times> 'd cstate" where
  "piton_is_transmit_empty env s =
     (let (v, s) = read_reg_u8 env PITON_UART_LINE_STATUS s in (ucast v AND 0x20, s))"

definition piton_write_serial :: "'d env \<Rightarrow> u8 \<Rightarrow> 'd cstate \<Rightarrow> 'd cstate option" where
  "piton_write_serial env a s = do {
     s \<leftarrow> spin (\<lambda>s. let (v, s) = piton_is_transmit_empty env s in (v = 0, s)) s;
     Some (write_reg_u8 env PITON_UART_THR a s)
   }"

definition piton_init_uart :: "'d env \<Rightarrow> u32 \<Rightarrow> u32 \<Rightarrow> 'd cstate \<Rightarrow> 'd cstate option" where
  "piton_init_uart env freq baud s =
     (if push_bit 4 baud = 0 then None
      else
        (let divisor = freq div push_bit 4 baud;
             s = write_reg_u8 env PITON_UART_INTERRUPT_ENABLE 0x00 s;
             s = write_reg_u8 env PITON_UART_LINE_CONTROL 0x80 s;
             s = write_reg_u8 env PITON_UART_DLAB_LSB (ucast divisor) s;
             s = write_reg_u8 env PITON_UART_DLAB_MSB (ucast (drop_bit 8 divisor AND 0xFF)) s;
             s = write_reg_u8 env PITON_UART_LINE_CONTROL 0x03 s;
             s = write_reg_u8 env PITON_UART_MODEM_CONTROL 0x20 s
         in Some s))"

fun piton_print_uart_loop :: "'d env \<Rightarrow> string \<Rightarrow> int \<Rightarrow> 'd cstate \<Rightarrow> (int \<times> 'd cstate) option" where
  "piton_print_uart_loop env [] num s = Some (num, s)"
| "piton_print_uart_loop env (cur # rest) num s =
     (if cur \<noteq> CHR 0x00 then do {
        s \<leftarrow> piton_write_serial env (of_char cur) s;
        piton_print_uart_loop env rest (num + 1) s
      } else Some (num, s))"

definition piton_print_uart :: "'d env \<Rightarrow> string \<Rightarrow> 'd cstate \<Rightarrow> (int \<times> 'd cstate) option" where
  "piton_print_uart env str s = piton_print_uart_loop env str 0 s"

text \<open>\<open>for (i = 9; i > -1; i--)\<close>: the first argument after \<open>env\<close> is \<open>i + 1\<close>.\<close>

primrec piton_print_uart_dec_loop ::
    "'d env \<Rightarrow> nat \<Rightarrow> u32 \<Rightarrow> u32 \<Rightarrow> u32 \<Rightarrow> int \<Rightarrow> 'd cstate \<Rightarrow> (int \<times> 'd cstate) option" where
  "piton_print_uart_dec_loop env 0 val k digits num s = Some (num, s)"
| "piton_print_uart_dec_loop env (Suc i) val k digits num s =
     (let cur = val div k;
          val = val - cur * k;
          k = k div 10
      in if cur \<noteq> 0 \<or> of_nat i < digits then do {
           s \<leftarrow> piton_write_serial env (bin_to_hex_table ! unat (cur AND 0xf)) s;
           piton_print_uart_dec_loop env i val k (of_nat i) (num + 1) s
         } else piton_print_uart_dec_loop env i val k digits num s)"

definition piton_print_uart_dec :: "'d env \<Rightarrow> u32 \<Rightarrow> u32 \<Rightarrow> 'd cstate \<Rightarrow> (int \<times> 'd cstate) option" where
  "piton_print_uart_dec env val digits s = piton_print_uart_dec_loop env 10 val 1000000000 digits 0 s"

primrec piton_print_uart_hex_loop ::
    "'d env \<Rightarrow> u64 \<Rightarrow> nat \<Rightarrow> 'd cstate \<Rightarrow> 'd cstate option" where
  "piton_print_uart_hex_loop env addr 0 s = Some s"
| "piton_print_uart_hex_loop env addr (Suc i) s =
     (let cur = ucast (drop_bit (i * 8) addr AND 0xff); (hex0, hex1) = bin_to_hex cur in do {
        s \<leftarrow> piton_write_serial env hex0 s;
        s \<leftarrow> piton_write_serial env hex1 s;
        piton_print_uart_hex_loop env addr i s
      })"

primrec piton_print_uart_int_loop ::
    "'d env \<Rightarrow> u32 \<Rightarrow> nat \<Rightarrow> 'd cstate \<Rightarrow> 'd cstate option" where
  "piton_print_uart_int_loop env addr 0 s = Some s"
| "piton_print_uart_int_loop env addr (Suc i) s =
     (let cur = ucast (drop_bit (i * 8) addr AND 0xff); (hex0, hex1) = bin_to_hex cur in do {
        s \<leftarrow> piton_write_serial env hex0 s;
        s \<leftarrow> piton_write_serial env hex1 s;
        piton_print_uart_int_loop env addr i s
      })"

definition piton_print_uart_int :: "'d env \<Rightarrow> u32 \<Rightarrow> 'd cstate \<Rightarrow> (int \<times> 'd cstate) option" where
  "piton_print_uart_int env addr s = do { s \<leftarrow> piton_print_uart_int_loop env addr 4 s; Some (8, s) }"

definition piton_print_uart_addr :: "'d env \<Rightarrow> u64 \<Rightarrow> 'd cstate \<Rightarrow> (int \<times> 'd cstate) option" where
  "piton_print_uart_addr env addr s = do { s \<leftarrow> piton_print_uart_hex_loop env addr 8 s; Some (16, s) }"

definition piton_print_uart_byte :: "'d env \<Rightarrow> u8 \<Rightarrow> 'd cstate \<Rightarrow> (int \<times> 'd cstate) option" where
  "piton_print_uart_byte env byte s =
     (let (hex0, hex1) = bin_to_hex byte in do {
        s \<leftarrow> piton_write_serial env hex0 s;
        s \<leftarrow> piton_write_serial env hex1 s;
        Some (2, s)
      })"

section \<open>The driver is a polled port\<close>

lemma piton_write_serial_put:
  "piton_write_serial env = polled_put env PITON_UART_BASE PITON_UART_LINE_STATUS"
  unfolding polled_put_def piton_write_serial_def [abs_def] piton_is_transmit_empty_def [abs_def]
  by (simp add: split_beta Let_def PITON_UART_THR_def)

interpretation piton: polled_port "piton_write_serial env" env PITON_UART_BASE 1 PITON_UART_LINE_STATUS view
  for env :: "'d env" and view :: "'d \<Rightarrow> 'v"
  unfolding piton_write_serial_put by (rule polled_put_port)

text \<open>\<open>say env bs\<close>: send \<open>bs\<close> and return how many bytes that were.\<close>

definition say :: "'d env \<Rightarrow> u8 list \<Rightarrow> 'd cstate \<Rightarrow> (int \<times> 'd cstate) option" where
  "say env bs s = emit (piton_write_serial env) bs s \<bind> (\<lambda>s. Some (int (length bs), s))"

lemma piton_print_uart_say: "piton_print_uart env str s = say env (cstr_bytes str) s"
proof -
  have "piton_print_uart_loop env str num s
      = emit (piton_write_serial env) (cstr_bytes str) s \<bind> (\<lambda>s. Some (num + int (length (cstr_bytes str)), s))" for num
    by (induction env str num s rule: piton_print_uart_loop.induct)
      (auto simp: cstr_bytes_simps intro!: Option.bind_cong)
  then show ?thesis by (simp add: piton_print_uart_def say_def)
qed

lemma piton_print_uart_byte_say: "piton_print_uart_byte env b s = say env (hex2 b) s"
  by (simp add: piton_print_uart_byte_def say_def bin_to_hex_eq hex2_def cong: Option.bind_cong)

lemma piton_print_uart_int_say: "piton_print_uart_int env w s = say env (hex_be 4 w) s"
proof -
  have "piton_print_uart_int_loop env w n s = emit (piton_write_serial env) (hex_be n w) s" for n
    by (induction n arbitrary: s)
      (simp_all add: ucast_and_0xff bin_to_hex_eq hex2_def Let_def mult.commute cong: Option.bind_cong)
  then show ?thesis by (simp add: piton_print_uart_int_def say_def)
qed

lemma piton_print_uart_addr_say: "piton_print_uart_addr env w s = say env (hex_be 8 w) s"
proof -
  have "piton_print_uart_hex_loop env w n s = emit (piton_write_serial env) (hex_be n w) s" for n
    by (induction n arbitrary: s)
      (simp_all add: ucast_and_0xff bin_to_hex_eq hex2_def Let_def mult.commute cong: Option.bind_cong)
  then show ?thesis by (simp add: piton_print_uart_addr_def say_def)
qed

section \<open>Decimal numbers\<close>

text \<open>The digits of \<open>v\<close> at the positions below \<open>i\<close>, without leading zeros above position \<open>d\<close>.\<close>

fun dec_text :: "nat \<Rightarrow> nat \<Rightarrow> nat \<Rightarrow> u8 list" where
  "dec_text 0 v d = []"
| "dec_text (Suc i) v d =
     (if v div 10 ^ i \<noteq> 0 \<or> i < d then hex_char (v div 10 ^ i) # dec_text i (v mod 10 ^ i) i
      else dec_text i (v mod 10 ^ i) d)"

lemma unat_pow10: "i \<le> 9 \<Longrightarrow> unat ((10 :: u32) ^ i) = 10 ^ i"
proof -
  assume "i \<le> 9"
  then have "(10 :: nat) ^ i \<le> 10 ^ 9" by (rule power_increasing) simp
  then have "(10 :: nat) ^ i < 2 ^ 32" by simp
  moreover have "((10 :: u32) ^ i) = of_nat (10 ^ i)" by simp
  ultimately show ?thesis by (simp only: unat_of_nat len_bit0 len_num1) simp
qed

lemma dec_step:
  fixes val :: u32
  assumes "i \<le> 9" "unat val < 10 ^ Suc i"
  shows "unat (val div 10 ^ i) = unat val div 10 ^ i" "unat (val div 10 ^ i) < 10"
    "unat (val - val div 10 ^ i * 10 ^ i) = unat val mod 10 ^ i"
    "unat (val div 10 ^ i AND 0xf) = unat val div 10 ^ i"
proof -
  show d: "unat (val div 10 ^ i) = unat val div 10 ^ i" using unat_pow10 [OF assms(1)] by (simp add: unat_div)
  have "val - val div 10 ^ i * 10 ^ i = val mod 10 ^ i"
    by (metis minus_div_mult_eq_mod)
  then show "unat (val - val div 10 ^ i * 10 ^ i) = unat val mod 10 ^ i"
    using unat_pow10 [OF assms(1)] by (simp add: unat_mod)
  have lt: "unat val div 10 ^ i < 10" using assms(2) by (simp add: less_mult_imp_div_less mult.commute)
  with d show "unat (val div 10 ^ i) < 10" by simp
  have "val div 10 ^ i AND 0xf = take_bit 4 (val div 10 ^ i)" by (simp add: take_bit_eq_mask mask_numeral)
  then have "unat (val div 10 ^ i AND 0xf) = take_bit 4 (unat (val div 10 ^ i))" by (simp only: unsigned_take_bit_eq)
  then show "unat (val div 10 ^ i AND 0xf) = unat val div 10 ^ i"
    using lt by (simp add: d take_bit_nat_eq_self)
qed

lemma piton_dec_loop_say:
  "i \<le> 10 \<Longrightarrow> unat val < 10 ^ i \<Longrightarrow> (0 < i \<longrightarrow> k = 10 ^ (i - 1)) \<Longrightarrow>
   piton_print_uart_dec_loop env i val k digits num s =
     emit (piton_write_serial env) (dec_text i (unat val) (unat digits)) s \<bind>
       (\<lambda>s. Some (num + int (length (dec_text i (unat val) (unat digits))), s))"
proof (induction i arbitrary: val k digits num s)
  case 0
  show ?case by simp
next
  case (Suc i)
  have i: "i \<le> 9" and k: "k = 10 ^ i" using Suc.prems by simp_all
  note st = dec_step [OF i Suc.prems(2)]
  have k': "0 < i \<longrightarrow> k div 10 = 10 ^ (i - 1)"
  proof
    assume "0 < i"
    then have "unat (k div 10) = 10 ^ (i - 1)"
      using unat_pow10 [OF i] by (cases i) (simp_all add: k unat_div)
    also have "\<dots> = unat ((10 :: u32) ^ (i - 1))" using unat_pow10 [of "i - 1"] i by simp
    finally show "k div 10 = 10 ^ (i - 1)" by (simp only: word_unat_eq_iff)
  qed
  have r: "unat (val - val div k * k) = unat val mod 10 ^ i" by (simp add: k st(3))
  then have rest: "unat (val - val div k * k) < 10 ^ i" by simp
  have digit: "bin_to_hex_table ! unat (val div k AND 0xf) = hex_char (unat val div 10 ^ i)"
    using st unfolding k by (simp add: bin_to_hex_table_nth)
  have small: "of_nat i < digits \<longleftrightarrow> i < unat digits" "unat (of_nat i :: u32) = i"
    using i by (simp_all add: word_less_nat_alt unat_of_nat)
  have "val div k = 0 \<longleftrightarrow> unat (val div k) = 0" by (simp add: unat_eq_zero)
  then have zero: "val div k \<noteq> 0 \<longleftrightarrow> unat val div 10 ^ i \<noteq> 0" unfolding k st(1) by simp
  have loop: "piton_print_uart_dec_loop env i (val - val div k * k) (k div 10) dg nm s' =
      emit (piton_write_serial env) (dec_text i (unat val mod 10 ^ i) (unat dg)) s' \<bind>
       (\<lambda>s. Some (nm + int (length (dec_text i (unat val mod 10 ^ i) (unat dg))), s))" for dg nm s'
    using Suc.IH [OF _ rest k'] i unfolding r by simp
  show ?case
    unfolding piton_print_uart_dec_loop.simps Let_def dec_text.simps zero small(1) digit loop small(2)
    by (simp add: ac_simps cong: Option.bind_cong)
qed

lemma piton_print_uart_dec_say: "piton_print_uart_dec env val digits s = say env (dec_text 10 (unat val) (unat digits)) s"
proof -
  have "unat val < 10 ^ 10" using unsigned_less [of val, where 'a = nat] by simp
  then show ?thesis by (simp add: piton_print_uart_dec_def piton_dec_loop_say say_def)
qed

lemmas piton_say = piton_print_uart_say piton_print_uart_byte_say piton_print_uart_int_say
  piton_print_uart_addr_say piton_print_uart_dec_say

lemma dec_text_all: "v < 10 ^ i \<Longrightarrow> i \<le> d \<Longrightarrow> length (dec_text i v d) = i"
  by (induction i arbitrary: v d) simp_all

lemma parse_dec_text: "v < 10 ^ i \<Longrightarrow> parse_radix 10 (dec_text i v d) = v"
proof (induction i arbitrary: v d)
  case 0
  then show ?case by (simp add: parse_radix_def)
next
  case (Suc i)
  let ?q = "v div 10 ^ i" and ?r = "v mod 10 ^ i"
  have q: "?q < 10" using Suc.prems by (simp add: less_mult_imp_div_less mult.commute)
  have r: "?r < 10 ^ i" by simp
  show ?case
  proof (cases "?q \<noteq> 0 \<or> i < d")
    case True
    have "parse_radix 10 (hex_char ?q # dec_text i ?r i) = ?q * 10 ^ length (dec_text i ?r i) + ?r"
      using parse_radix_append [of 10 "[hex_char ?q]" "dec_text i ?r i"] q Suc.IH [OF r]
      by (simp add: parse_radix_def digit_val_hex_char)
    then have "parse_radix 10 (hex_char ?q # dec_text i ?r i) = ?q * 10 ^ i + ?r"
      by (simp only: dec_text_all [OF r order_refl])
    then have "parse_radix 10 (hex_char ?q # dec_text i ?r i) = v" by (simp only: div_mult_mod_eq)
    with True show ?thesis by simp
  next
    case False
    then have "?r = v" by (metis div_mult_mod_eq mult_0 add_0)
    with False Suc.IH [OF r] show ?thesis by simp
  qed
qed

text \<open>At least the asked number of digits, and no leading zero beyond it.\<close>

lemma dec_text_canonical:
  "v < 10 ^ i \<Longrightarrow> d \<le> i \<Longrightarrow> d \<le> length (dec_text i v d) \<and>
   (d < length (dec_text i v d) \<longrightarrow> hd (dec_text i v d) \<noteq> hex_char 0)"
proof (induction i arbitrary: v d)
  case 0
  then show ?case by simp
next
  case (Suc i)
  let ?q = "v div 10 ^ i" and ?r = "v mod 10 ^ i"
  have q: "?q < 10" using Suc.prems by (simp add: less_mult_imp_div_less mult.commute)
  have ne: "hex_char ?q \<noteq> hex_char 0" if "?q \<noteq> 0"
    using that q digit_val_hex_char [of ?q] digit_val_hex_char [of 0] by auto
  have len: "length (dec_text i ?r i) = i" by (rule dec_text_all) simp_all
  show ?case
  proof (cases "?q \<noteq> 0 \<or> i < d")
    case True
    with len Suc.prems(2) ne show ?thesis by auto
  next
    case False
    with Suc.IH [of ?r d] show ?thesis by simp
  qed
qed

section \<open>Properties\<close>

abbreviation piton_console :: "'d cstate \<Rightarrow> uart16550" where
  "piton_console s \<equiv> uart_of PITON_UART_BASE 1 (trace s)"

abbreviation piton_ready :: "'d env \<Rightarrow> ('d \<Rightarrow> 'v) \<Rightarrow> 'd cstate \<Rightarrow> bool" where
  "piton_ready env view \<equiv> console_ok PITON_UART_BASE 1 PITON_UART_LINE_STATUS env view"

text \<open>
  With a live UART, \<open>print_uart_dec\<close> of the OpenPiton boot code sends the decimal digits
  of the number: reading them back gives the number, there are at least as many as asked for (up to
  ten) and no leading zero beyond that, and the result is the number of characters sent.
\<close>

theorem piton_print_dec_roundtrip:
  assumes "piton_ready env view s" and "digits \<le> 10"
  shows "tw (piton_print_uart_dec env val digits s) (\<lambda>(num, s'). \<exists>txt.
     sent (piton_console s') = sent (piton_console s) @ txt \<and> num = int (length txt) \<and>
     parse_radix 10 txt = unat val \<and> unat digits \<le> length txt \<and>
     (if unat digits < length txt then hd txt \<noteq> of_char (CHR ''0'') else True) \<and> ram s' = ram s)"
proof -
  let ?txt = "dec_text 10 (unat val) (unat digits)"
  have v: "unat val < 10 ^ 10" using unsigned_less [of val, where 'a = nat] by simp
  have d: "unat digits \<le> 10" using assms(2) by (simp add: word_le_nat_alt)
  have z: "hex_char 0 = of_char (CHR ''0'')" by (simp add: hex_char_def)
  show ?thesis unfolding piton_print_uart_dec_say say_def
    by (rule tw_bind [OF piton.emit_total [OF assms(1)]])
      (use parse_dec_text [OF v] dec_text_canonical [OF v d] z in auto)
qed

theorem piton_print_dec_roundtrip_witness:
  "tw (piton_print_uart_dec (bench_env script_exch) 305 1 (bench_state [])) (\<lambda>(num, s'). \<exists>txt.
     sent (piton_console s') = sent (piton_console (bench_state [] :: u8 list bench cstate)) @ txt \<and>
     num = int (length txt) \<and> parse_radix 10 txt = unat (305 :: u32) \<and> unat (1 :: u32) \<le> length txt \<and>
     (if unat (1 :: u32) < length txt then hd txt \<noteq> of_char (CHR ''0'') else True) \<and>
     ram s' = ram (bench_state [] :: u8 list bench cstate))"
  by (rule piton_print_dec_roundtrip [OF bench_console_ok [where view = b_card]]) simp

text \<open>
  \<open>print_uart\<close> of the OpenPiton boot code sends the string up to its terminator and
  returns its length; the hexadecimal printers send and count two digits per byte. Whatever the
  devices do, each byte follows a read of the line status register that showed the transmitter
  empty, and nothing else is accessed.
\<close>

theorem piton_printing_is_paced:
  "ifret (piton_print_uart env str s) (\<lambda>(num, s'). num = int (length (cstr_bytes str)) \<and>
     console_run PITON_UART_BASE PITON_UART_LINE_STATUS (cstr_bytes str) s s') \<and>
   ifret (piton_print_uart_byte env b s) (\<lambda>(num, s'). num = 2 \<and>
     console_run PITON_UART_BASE PITON_UART_LINE_STATUS (hex2 b) s s') \<and>
   ifret (piton_print_uart_int env w s) (\<lambda>(num, s'). num = 8 \<and>
     console_run PITON_UART_BASE PITON_UART_LINE_STATUS (hex_be 4 w) s s') \<and>
   ifret (piton_print_uart_addr env x s) (\<lambda>(num, s'). num = 16 \<and>
     console_run PITON_UART_BASE PITON_UART_LINE_STATUS (hex_be 8 x) s s')"
proof -
  have "ifret (say env bs s) (\<lambda>(num, s'). num = int (length bs) \<and>
      console_run PITON_UART_BASE PITON_UART_LINE_STATUS bs s s')" for bs
    unfolding say_def by (rule ifret_bind [OF piton.emit_run]) simp
  from this [of "cstr_bytes str"] this [of "hex2 b"] this [of "hex_be 4 w"] this [of "hex_be 8 x"]
  show ?thesis by (simp add: piton_say hex2_def)
qed

end
