(* ===== verification/Piton_Sd.thy ===== *)
theory Piton_Sd
  imports Piton_Uart Gpt_Format
begin

text \<open>
  \<open>corev_apu/openpiton/bootrom/linux/src/sd.c\<close>: on OpenPiton the SD card is a window of the
  address space, so \<open>sd_copy\<close> is a copy loop with a progress display. The window is part of
  memory in the model.
\<close>

section \<open>The code\<close>

definition PITON_SD_BASE_ADDR :: addr where "PITON_SD_BASE_ADDR = 0xf000000000"
definition PITON_SD_LENGTH :: addr where "PITON_SD_LENGTH = 0xff0300000"

definition piton_init_sd :: "'d env \<Rightarrow> 'd cstate \<Rightarrow> (int \<times> 'd cstate) option" where
  "piton_init_sd env s = do {
     (_, s) \<leftarrow> piton_print_uart env (''initializing SD... '' @ CRLF) s;
     Some (0, s)
   }"

text \<open>The progress display; the result is the new \<open>num_chars\<close>.\<close>

definition piton_sd_progress ::
    "'d env \<Rightarrow> u32 \<Rightarrow> u32 \<Rightarrow> u32 \<Rightarrow> 'd cstate \<Rightarrow> (u32 \<times> 'd cstate) option" where
  "piton_sd_progress env blk sz num_chars s = do {
     s \<leftarrow> for_upto (unat num_chars) (\<lambda>k s. do { (_, s) \<leftarrow> piton_print_uart env [CHR 0x08] s; Some s }) s;
     (n, s) \<leftarrow> piton_print_uart env ''copying block '' s;
     let num_chars = of_int n;
     (n, s) \<leftarrow> piton_print_uart_dec env blk 1 s;
     let num_chars = num_chars + of_int n;
     (n, s) \<leftarrow> piton_print_uart env '' of '' s;
     let num_chars = num_chars + of_int n;
     (n, s) \<leftarrow> piton_print_uart_dec env sz 1 s;
     let num_chars = num_chars + of_int n;
     (n, s) \<leftarrow> piton_print_uart env '' blocks ('' s;
     let num_chars = num_chars + of_int n;
     (n, s) \<leftarrow> piton_print_uart_dec env ((blk * 100) div sz) 1 s;
     let num_chars = num_chars + of_int n;
     (n, s) \<leftarrow> piton_print_uart env '' %)'' s;
     let num_chars = num_chars + of_int n;
     Some (num_chars, s)
   }"

text \<open>\<open>for (offset = 0; offset < 64; offset++) *(p++) = *(addr++);\<close> on \<open>uint64_t\<close>.\<close>

definition piton_copy_block :: "addr \<Rightarrow> addr \<Rightarrow> (addr \<Rightarrow> u8) \<Rightarrow> (addr \<Rightarrow> u8)" where
  "piton_copy_block addr p m =
     foldl (\<lambda>m i. store_bytes (p + of_nat (8 * i))
         (le_bytes 8 (le_word (ram_bytes m (addr + of_nat (8 * i)) 8) :: u64)) m) m [0..<64]"

function piton_copy_loop ::
    "'d env \<Rightarrow> u32 \<Rightarrow> u32 \<Rightarrow> u32 \<Rightarrow> addr \<Rightarrow> addr \<Rightarrow> 'd cstate \<Rightarrow> 'd cstate option" where
  "piton_copy_loop env sz blk num_chars addr p s =
     (if blk < sz then do {
        (num_chars, s) \<leftarrow> (if blk mod 100 = 0 then piton_sd_progress env blk sz num_chars s
                           else Some (num_chars, s));
        let s = s\<lparr>ram := piton_copy_block addr p (ram s)\<rparr>;
        piton_copy_loop env sz (blk + 1) num_chars (addr + 512) (p + 512) s
      } else Some s)"
  by pat_completeness auto
termination
  by (relation "measure (\<lambda>(env, sz, blk, num_chars, addr, p, s). unat sz - unat blk)")
    (auto simp: unat_next word_less_nat_alt intro!: diff_less_mono2)

definition piton_sd_copy ::
    "'d env \<Rightarrow> addr \<Rightarrow> u32 \<Rightarrow> u32 \<Rightarrow> 'd cstate \<Rightarrow> (int \<times> 'd cstate) option" where
  "piton_sd_copy env dst src_lba sz s = do {
     let raw_addr = PITON_SD_BASE_ADDR + push_bit 9 (ucast src_lba);
     s \<leftarrow> piton_copy_loop env sz 0 0 raw_addr dst s;
     (_, s) \<leftarrow> piton_print_uart env CRLF s;
     Some (0, s)
   }"

declare piton_copy_loop.simps [simp del]

section \<open>Printing leaves memory alone\<close>

text \<open>The console and the view of the other devices; memory is the frame.\<close>

lemma say_then:
  assumes "piton_ready env view s"
    and "\<And>n s'. piton_ready env view s' \<Longrightarrow> ram s' = ram s \<Longrightarrow> tw (k n s') Q"
  shows "tw (say env bs s \<bind> (\<lambda>(n, s'). k n s')) Q"
  unfolding say_def Option.bind_assoc bind.bind_lunit prod.case
  by (rule tw_bind [OF piton.emit_total [OF assms(1)]]) (use assms(2) in auto)

lemma say_quiet:
  "quiet (piton_ready env view) ram q \<Longrightarrow>
   quiet (piton_ready env view) ram (\<lambda>s. say env (f s) s \<bind> (\<lambda>(_, s). q s))"
  unfolding quiet_def by (auto intro!: say_then elim!: tw_weaken)

lemma piton_sd_progress_quiet:
  assumes "piton_ready env view s"
  shows "tw (piton_sd_progress env blk sz n s) (\<lambda>(n', s'). piton_ready env view s' \<and> ram s' = ram s)"
proof -
  have erase: "quiet (piton_ready env view) ram
      (for_upto k (\<lambda>k s. say env (cstr_bytes [CHR 0x08]) s \<bind> (\<lambda>(_, s). Some s)))" for k
    by (intro quiet_for say_quiet quiet_skip)
  show ?thesis unfolding piton_sd_progress_def piton_say Let_def
    by (rule quiet_then [OF erase assms], (erule say_then)+) simp
qed

section \<open>Copying\<close>

lemma piton_copy_words:
  assumes "disjoint_obj addr (8 * n) p (8 * n)" "8 * n \<le> 2 ^ 64"
  shows "i \<le> n \<Longrightarrow> foldl (\<lambda>m i. store_bytes (p + of_nat (8 * i))
      (le_bytes 8 (le_word (ram_bytes m (addr + of_nat (8 * i)) 8) :: u64)) m) m [0..<i]
    = store_bytes p (ram_bytes m addr (8 * i)) m"
proof (induction i)
  case 0
  show ?case by (simp add: ram_bytes_def)
next
  case (Suc i)
  let ?m = "store_bytes p (ram_bytes m addr (8 * i)) m" and ?a = "addr + of_nat (8 * i)"
  have "disjoint_obj p (8 * i) ?a 8"
    using disjoint_obj_shift [OF disjoint_obj_sym [OF assms(1)], of "8 * i" 8] Suc.prems
    by (auto elim: disjoint_obj_mono)
  then have src: "ram_bytes ?m ?a 8 = ram_bytes m ?a 8"
    by (intro ram_bytes_store_disjoint) (simp_all add: disjoint_obj_sym)
  have word: "le_bytes 8 (le_word (ram_bytes m ?a 8) :: u64) = ram_bytes m ?a 8"
    using le_bytes_le_word [of "ram_bytes m ?a 8", where 'a = 64] by simp
  have "store_bytes (p + of_nat (8 * i)) (ram_bytes m ?a 8) ?m
      = store_bytes p (ram_bytes m addr (8 * i) @ ram_bytes m ?a 8) m"
    using store_bytes_append [of "ram_bytes m addr (8 * i)" "ram_bytes m ?a 8" p m] Suc.prems assms(2) by simp
  also have "ram_bytes m addr (8 * i) @ ram_bytes m ?a 8 = ram_bytes m addr (8 * Suc i)"
    using ram_bytes_add [of m addr "8 * i" 8] by (simp add: add.commute)
  finally show ?case using Suc by (simp add: src word del: of_nat_mult)
qed

lemma piton_copy_block_eq:
  "disjoint_obj addr 512 p 512 \<Longrightarrow> piton_copy_block addr p m = store_bytes p (ram_bytes m addr 512) m"
  using piton_copy_words [of addr 64 p 64 m] by (simp add: piton_copy_block_def del: of_nat_mult)

lemma piton_copy_loop_copies:
  "piton_ready env view s \<Longrightarrow> unat sz - unat blk = k \<Longrightarrow> disjoint_obj addr (512 * k) p (512 * k) \<Longrightarrow>
   512 * k \<le> 2 ^ 64 \<Longrightarrow>
   tw (piton_copy_loop env sz blk num_chars addr p s)
     (\<lambda>s'. piton_ready env view s' \<and> ram s' = store_bytes p (ram_bytes (ram s) addr (512 * k)) (ram s))"
proof (induction k arbitrary: blk num_chars addr p s)
  case 0
  then have "\<not> blk < sz" by (simp add: word_less_nat_alt)
  with "0.prems"(1) show ?case by (simp add: piton_copy_loop.simps ram_bytes_def)
next
  case (Suc k)
  have blk: "blk < sz" and blk': "unat sz - unat (blk + 1) = k"
    using Suc.prems(2) unat_next [of blk sz] by (auto simp: word_less_nat_alt)
  let ?b = "ram_bytes (ram s) addr 512"
  have dis: "disjoint_obj addr 512 p 512" using Suc.prems(3) by (rule disjoint_obj_mono) simp_all
  have dis': "disjoint_obj (addr + 512) (512 * k) (p + 512) (512 * k)"
    using disjoint_obj_shift [OF disjoint_obj_sym [OF disjoint_obj_shift [OF Suc.prems(3), of 512 "512 * k"]], of 512 "512 * k"]
    by (simp add: disjoint_obj_sym)
  have src: "ram_bytes (store_bytes p ?b (ram s)) (addr + 512) (512 * k) = ram_bytes (ram s) (addr + 512) (512 * k)"
  proof (rule ram_bytes_store_disjoint)
    have "disjoint_obj p 512 (addr + 512) (512 * k)"
      using disjoint_obj_shift [OF disjoint_obj_sym [OF Suc.prems(3)], of 512 "512 * k"]
      by (auto elim: disjoint_obj_mono)
    then show "disjoint_obj (addr + 512) (512 * k) p (length ?b)" by (simp add: disjoint_obj_sym)
  qed (use Suc.prems(4) in simp)
  have all: "?b @ ram_bytes (ram s) (addr + 512) (512 * k) = ram_bytes (ram s) addr (512 * Suc k)"
    using ram_bytes_add [of "ram s" addr 512 "512 * k"] by simp
  have mem: "store_bytes (p + 512) (ram_bytes (ram s) (addr + 512) (512 * k)) (store_bytes p ?b (ram s))
      = store_bytes p (ram_bytes (ram s) addr (512 * Suc k)) (ram s)"
    using store_bytes_append [of ?b "ram_bytes (ram s) (addr + 512) (512 * k)" p "ram s"] Suc.prems(4)
    by (simp only: all) simp
  have rest: "tw (piton_copy_loop env sz (blk + 1) n (addr + 512) (p + 512) (s1\<lparr>ram := piton_copy_block addr p (ram s1)\<rparr>))
      (\<lambda>s'. piton_ready env view s' \<and> ram s' = store_bytes p (ram_bytes (ram s) addr (512 * Suc k)) (ram s))"
    if "piton_ready env view s1" "ram s1 = ram s" for n s1
  proof -
    let ?s = "s1\<lparr>ram := piton_copy_block addr p (ram s1)\<rparr>"
    have "ram ?s = store_bytes p ?b (ram s)" using that(2) piton_copy_block_eq [OF dis] by simp
    moreover have "piton_ready env view ?s" using that(1) by (simp add: console_ok_def)
    ultimately show ?thesis using Suc.IH [of ?s "blk + 1" "addr + 512" "p + 512" n] blk' dis' Suc.prems(4)
      by (simp add: src mem)
  qed
  show ?case
    using blk rest Suc.prems(1) piton_sd_progress_quiet [OF Suc.prems(1), of blk sz num_chars]
    by (subst piton_copy_loop.simps) (auto simp: Let_def intro!: tw_bind2)
qed

section \<open>The window is a block device\<close>

definition sd_window :: "(nat \<Rightarrow> u8 list) \<Rightarrow> nat \<Rightarrow> (addr \<Rightarrow> u8) \<Rightarrow> bool" where
  "sd_window disk cap m \<longleftrightarrow> 512 * cap \<le> unat PITON_SD_LENGTH \<and>
     (\<forall>l < cap. ram_bytes m (PITON_SD_BASE_ADDR + of_nat (512 * l)) 512 = disk l)"

definition window_ok :: "'d env \<Rightarrow> (nat \<Rightarrow> u8 list) \<Rightarrow> nat \<Rightarrow> 'd cstate \<Rightarrow> bool" where
  "window_ok env disk cap s \<longleftrightarrow> piton_ready env (\<lambda>_. ()) s \<and> sd_window disk cap (ram s)"

lemma window_blocks:
  assumes "sd_window disk cap m"
  shows "l + n \<le> cap \<Longrightarrow>
    ram_bytes m (PITON_SD_BASE_ADDR + of_nat (512 * l)) (512 * n) = concat (map disk [l..<l + n])"
proof (induction n)
  case 0
  show ?case by (simp add: ram_bytes_def)
next
  case (Suc n)
  let ?a = "PITON_SD_BASE_ADDR + of_nat (512 * l)"
  have "ram_bytes m ?a (512 * Suc n) = ram_bytes m ?a (512 * n) @ ram_bytes m (?a + of_nat (512 * n)) 512"
    using ram_bytes_add [of m ?a "512 * n" 512] by (simp add: add.commute)
  moreover have "?a + of_nat (512 * n) = PITON_SD_BASE_ADDR + of_nat (512 * (l + n))"
    by (simp add: distrib_left)
  then have "ram_bytes m (?a + of_nat (512 * n)) 512 = disk (l + n)"
    using assms Suc.prems by (simp only: sd_window_def)
  ultimately show ?case using Suc by simp
qed

lemma window_kept:
  assumes "sd_window disk cap m" "disjoint_obj PITON_SD_BASE_ADDR (512 * cap) dst (length bs)"
  shows "sd_window disk cap (store_bytes dst bs m)"
proof -
  have "ram_bytes (store_bytes dst bs m) (PITON_SD_BASE_ADDR + of_nat (512 * l)) 512
      = ram_bytes m (PITON_SD_BASE_ADDR + of_nat (512 * l)) 512" if "l < cap" for l
  proof (rule ram_bytes_store_disjoint)
    have "disjoint_obj dst (length bs) (PITON_SD_BASE_ADDR + of_nat (512 * l)) 512"
      using disjoint_obj_shift [OF disjoint_obj_sym [OF assms(2)], of "512 * l" 512] that by simp
    then show "disjoint_obj (PITON_SD_BASE_ADDR + of_nat (512 * l)) 512 dst (length bs)" by (rule disjoint_obj_sym)
  qed simp
  with assms(1) show ?thesis by (simp add: sd_window_def)
qed

lemma block_address: "push_bit 9 (ucast lba) = (of_nat (512 * unat lba) :: addr)" for lba :: u32
proof -
  have "(of_nat (512 * unat lba) :: addr) = 512 * ucast lba" by simp
  then show ?thesis by (simp add: push_bit_eq_mult mult.commute)
qed

text \<open>What a copy does to memory, for any destination outside the window.\<close>

lemma piton_sd_copy_copies:
  assumes ok: "window_ok env disk cap s" and fits: "unat lba + unat sz \<le> cap"
    and dis: "disjoint_obj PITON_SD_BASE_ADDR (512 * cap) dst (512 * unat sz)"
  shows "tw (piton_sd_copy env dst lba sz s) (\<lambda>(rc, s'). rc = 0 \<and> window_ok env disk cap s' \<and>
     ram s' = store_bytes dst (concat (map disk [unat lba..<unat lba + unat sz])) (ram s))"
proof -
  let ?a = "PITON_SD_BASE_ADDR + of_nat (512 * unat lba)"
  let ?bs = "concat (map disk [unat lba..<unat lba + unat sz])"
  from ok have r: "piton_ready env (\<lambda>_. ()) s" and w: "sd_window disk cap (ram s)" by (simp_all add: window_ok_def)
  have src: "ram_bytes (ram s) ?a (512 * unat sz) = ?bs" by (rule window_blocks [OF w fits])
  then have len: "length ?bs = 512 * unat sz" by (metis length_ram_bytes)
  have "disjoint_obj dst (512 * unat sz) ?a (512 * unat sz)"
    using disjoint_obj_shift [OF disjoint_obj_sym [OF dis], of "512 * unat lba" "512 * unat sz"] fits by simp
  then have d: "disjoint_obj ?a (512 * unat sz) dst (512 * unat sz)" by (rule disjoint_obj_sym)
  have "512 * unat sz \<le> 2 ^ 64" using unsigned_less [of sz, where 'a = nat] by simp
  from piton_copy_loop_copies [OF r _ d this, of sz 0 0]
  have loop: "tw (piton_copy_loop env sz 0 0 ?a dst s)
      (\<lambda>s'. piton_ready env (\<lambda>_. ()) s' \<and> ram s' = store_bytes dst ?bs (ram s))"
    unfolding src by (simp only: unsigned_0 diff_zero)
  have "sd_window disk cap (store_bytes dst ?bs (ram s))"
    using dis by (intro window_kept [OF w]) (simp add: len)
  then show ?thesis
    unfolding piton_sd_copy_def Let_def block_address piton_say
    by (intro tw_bind [OF loop]) (auto simp: window_ok_def intro!: say_then)
qed

interpretation window: block_device "piton_sd_copy env" "window_ok env disk cap" ram disk cap
    PITON_SD_BASE_ADDR "512 * cap"
  for env :: "'d env" and disk cap
proof unfold_locales
  fix s :: "'d cstate" and sz lba :: u32 and dst
  assume "window_ok env disk cap s" "0 < unat sz" "unat lba + unat sz \<le> cap"
    "disjoint_obj PITON_SD_BASE_ADDR (512 * cap) dst (512 * unat sz)"
  note copy = piton_sd_copy_copies [OF this(1,3,4)]
  let ?bs = "concat (map disk [unat lba..<unat lba + unat sz])"
  have len: "length ?bs = 512 * unat sz"
    using window_blocks [of disk cap "ram s" "unat lba" "unat sz"] \<open>window_ok env disk cap s\<close> \<open>unat lba + unat sz \<le> cap\<close>
    by (metis length_ram_bytes window_ok_def)
  then have fits: "length ?bs \<le> 2 ^ 64" using unsigned_less [of sz, where 'a = nat] by simp
  show "tw (piton_sd_copy env dst lba sz s) (\<lambda>(rc, s'). rc = 0 \<and> window_ok env disk cap s' \<and>
      ram_bytes (ram s') dst (512 * unat sz) = ?bs \<and>
      touches [(dst, 512 * unat sz), (PITON_SD_BASE_ADDR, 512 * cap)] (ram s) (ram s'))"
    by (rule tw_weaken [OF copy]) (use ram_bytes_store_same [OF fits] len in \<open>auto intro!: touches_store\<close>)
qed

text \<open>
  Claim C28: \<open>sd_copy\<close> of the OpenPiton boot code returns 0 and copies exactly the requested
  blocks of the memory-mapped card, and nothing when asked for none; apart from them it leaves
  memory, and with it the card's window, as it was. The progress display does not affect the data.
\<close>

theorem piton_sd_copy_exact:
  assumes "window_ok env disk cap s" and "unat lba + unat sz \<le> cap"
    and "disjoint_obj PITON_SD_BASE_ADDR (512 * cap) dst (512 * unat sz)"
  shows "tw (piton_sd_copy env dst lba sz s) (\<lambda>(rc, s'). rc = 0 \<and> window_ok env disk cap s' \<and>
     ram s' = store_bytes dst (concat (map disk [unat lba..<unat lba + unat sz])) (ram s))"
  by (rule piton_sd_copy_copies [OF assms])

text \<open>The witness: a card window in which every byte is the low byte of its address.\<close>

definition counting_state :: "u8 list bench cstate" where
  "counting_state = (bench_state [])\<lparr>ram := (\<lambda>a. ucast a)\<rparr>"

definition counting_disk :: "nat \<Rightarrow> u8 list" where
  "counting_disk l = ram_bytes (\<lambda>a. ucast a) (PITON_SD_BASE_ADDR + of_nat (512 * l)) 512"

theorem piton_sd_copy_exact_witness:
  "tw (piton_sd_copy (bench_env script_exch) 0x80000008 3 2 counting_state) (\<lambda>(rc, s'). rc = 0 \<and>
     window_ok (bench_env script_exch) counting_disk 10 s' \<and>
     ram s' = store_bytes 0x80000008
       (concat (map counting_disk [unat (3 :: u32)..<unat (3 :: u32) + unat (2 :: u32)])) (ram counting_state))"
proof (rule piton_sd_copy_exact)
  have "sd_window counting_disk 10 (ram counting_state)"
    by (simp add: sd_window_def counting_state_def counting_disk_def PITON_SD_LENGTH_def)
  moreover have "piton_ready (bench_env script_exch) (\<lambda>_. ()) counting_state"
    using bench_console_ok by (simp add: counting_state_def bench_state_def console_ok_def)
  ultimately show "window_ok (bench_env script_exch) counting_disk 10 counting_state" by (simp add: window_ok_def)
qed (auto simp: PITON_SD_BASE_ADDR_def intro!: disjoint_obj_sym [OF disjoint_objI])

end
