(* ===== verification/Piton_Boot.thy ===== *)
theory Piton_Boot
  imports Piton_Sd Demo_Disk
begin

text \<open>
  \<open>corev_apu/openpiton/bootrom/linux/src/gpt.c\<close> and \<open>main.c\<close>: the OpenPiton boot code reads the
  partition table from the memory-mapped card and returns to its start code, which jumps to the
  loaded image. \<open>UART_FREQ\<close> is set by the build and \<open>info\<close> is a generated string; both are
  parameters.
\<close>

section \<open>The code\<close>

record piton_stack =
  piton_stack_low :: addr
  piton_lba1_buf :: addr
  piton_lba2_buf :: addr

definition piton_gpt_copy_failed :: "'d env \<Rightarrow> int \<Rightarrow> 'd cstate \<Rightarrow> (int \<times> 'd cstate) option" where
  "piton_gpt_copy_failed env res s = do {
     (_, s) \<leftarrow> piton_print_uart env (''SD card failed!'' @ CRLF) s;
     (_, s) \<leftarrow> piton_print_uart env ''sd copy return value: '' s;
     (_, s) \<leftarrow> piton_print_uart_addr env (of_int res) s;
     (_, s) \<leftarrow> piton_print_uart env CRLF s;
     Some (- 2, s)
   }"

definition piton_gpt_print_header :: "'d env \<Rightarrow> addr \<Rightarrow> 'd cstate \<Rightarrow> 'd cstate option" where
  "piton_gpt_print_header env lba1 s = do {
     (_, s) \<leftarrow> piton_print_uart env ''gpt partition table header:'' s;
     (_, s) \<leftarrow> piton_print_uart env (CRLF @ TAB @ ''signature:'' @ TAB) s;
     (_, s) \<leftarrow> piton_print_uart_addr env (signature (gpt_pth_at (ram s) lba1)) s;
     (_, s) \<leftarrow> piton_print_uart env (CRLF @ TAB @ ''revision:'' @ TAB) s;
     (_, s) \<leftarrow> piton_print_uart_int env (revision (gpt_pth_at (ram s) lba1)) s;
     (_, s) \<leftarrow> piton_print_uart env (CRLF @ TAB @ ''size:'' @ TAB @ TAB) s;
     (_, s) \<leftarrow> piton_print_uart_int env (header_size (gpt_pth_at (ram s) lba1)) s;
     (_, s) \<leftarrow> piton_print_uart env (CRLF @ TAB @ ''crc_header:'' @ TAB) s;
     (_, s) \<leftarrow> piton_print_uart_int env (crc_header (gpt_pth_at (ram s) lba1)) s;
     (_, s) \<leftarrow> piton_print_uart env (CRLF @ TAB @ ''reserved:'' @ TAB) s;
     (_, s) \<leftarrow> piton_print_uart_int env (reserved (gpt_pth_at (ram s) lba1)) s;
     (_, s) \<leftarrow> piton_print_uart env (CRLF @ TAB @ ''current lba:'' @ TAB) s;
     (_, s) \<leftarrow> piton_print_uart_addr env (current_lba (gpt_pth_at (ram s) lba1)) s;
     (_, s) \<leftarrow> piton_print_uart env (CRLF @ TAB @ ''backup lda:'' @ TAB) s;
     (_, s) \<leftarrow> piton_print_uart_addr env (backup_lba (gpt_pth_at (ram s) lba1)) s;
     (_, s) \<leftarrow> piton_print_uart env (CRLF @ TAB @ ''partition entries lba:   '' @ TAB) s;
     (_, s) \<leftarrow> piton_print_uart_addr env (partition_entries_lba (gpt_pth_at (ram s) lba1)) s;
     (_, s) \<leftarrow> piton_print_uart env (CRLF @ TAB @ ''number partition entries:'' @ TAB) s;
     (_, s) \<leftarrow> piton_print_uart_int env (nr_partition_entries (gpt_pth_at (ram s) lba1)) s;
     (_, s) \<leftarrow> piton_print_uart env (CRLF @ TAB @ ''size partition entries:  '' @ TAB) s;
     (_, s) \<leftarrow> piton_print_uart_int env (size_partition_entry (gpt_pth_at (ram s) lba1)) s;
     (_, s) \<leftarrow> piton_print_uart env CRLF s;
     Some s
   }"

definition piton_gpt_print_entry :: "'d env \<Rightarrow> addr \<Rightarrow> nat \<Rightarrow> 'd cstate \<Rightarrow> 'd cstate option" where
  "piton_gpt_print_entry env buf i s =
     (let part_entry = (\<lambda>s. partition_entries_at (ram s) (buf + of_nat (i * 128))) in do {
        (_, s) \<leftarrow> piton_print_uart env ''gpt partition entry '' s;
        (_, s) \<leftarrow> piton_print_uart_byte env (of_nat i) s;
        (_, s) \<leftarrow> piton_print_uart env (CRLF @ TAB @ ''partition type guid:'' @ TAB) s;
        s \<leftarrow> for_upto 16 (\<lambda>j s. do { (_, s) \<leftarrow> piton_print_uart_byte env (partition_type_guid (part_entry s) ! j) s; Some s }) s;
        (_, s) \<leftarrow> piton_print_uart env (CRLF @ TAB @ ''partition guid:     '' @ TAB) s;
        s \<leftarrow> for_upto 16 (\<lambda>j s. do { (_, s) \<leftarrow> piton_print_uart_byte env (partition_guid (part_entry s) ! j) s; Some s }) s;
        (_, s) \<leftarrow> piton_print_uart env (CRLF @ TAB @ ''first lba:'' @ TAB) s;
        (_, s) \<leftarrow> piton_print_uart_addr env (first_lba (part_entry s)) s;
        (_, s) \<leftarrow> piton_print_uart env (CRLF @ TAB @ ''last lba:'' @ TAB) s;
        (_, s) \<leftarrow> piton_print_uart_addr env (last_lba (part_entry s)) s;
        (_, s) \<leftarrow> piton_print_uart env (CRLF @ TAB @ ''attributes:'' @ TAB) s;
        (_, s) \<leftarrow> piton_print_uart_addr env (attributes (part_entry s)) s;
        (_, s) \<leftarrow> piton_print_uart env (CRLF @ TAB @ ''name:'' @ TAB) s;
        s \<leftarrow> for_upto 72 (\<lambda>j s. do { (_, s) \<leftarrow> piton_print_uart_byte env (part_name (part_entry s) ! j) s; Some s }) s;
        (_, s) \<leftarrow> piton_print_uart env CRLF s;
        Some s
      })"

definition piton_gpt_find_boot_partition ::
    "'d env \<Rightarrow> piton_stack \<Rightarrow> addr \<Rightarrow> u32 \<Rightarrow> 'd cstate \<Rightarrow> (int \<times> 'd cstate) option" where
  "piton_gpt_find_boot_partition env st dest sz s = do {
     (ret, s) \<leftarrow> piton_init_sd env s;
     if ret \<noteq> 0 then do {
       (_, s) \<leftarrow> piton_print_uart env (''could not initialize sd... exiting'' @ CRLF) s;
       Some (- 1, s)
     } else do {
       (_, s) \<leftarrow> piton_print_uart env (''sd initialized!'' @ CRLF) s;
       (res, s) \<leftarrow> piton_sd_copy env (piton_lba1_buf st) 1 1 s;
       if res \<noteq> 0 then piton_gpt_copy_failed env res s else do {
         s \<leftarrow> piton_gpt_print_header env (piton_lba1_buf st) s;
         (res, s) \<leftarrow> piton_sd_copy env (piton_lba2_buf st)
            (ucast (partition_entries_lba (gpt_pth_at (ram s) (piton_lba1_buf st)))) 1 s;
         if res \<noteq> 0 then piton_gpt_copy_failed env res s else do {
           s \<leftarrow> for_upto 4 (piton_gpt_print_entry env (piton_lba2_buf st)) s;
           (_, s) \<leftarrow> piton_print_uart env ''copying boot image '' s;
           (_, s) \<leftarrow> piton_print_uart env CRLF s;
           (res, s) \<leftarrow> piton_sd_copy env dest
              (ucast (first_lba (partition_entries_at (ram s) (piton_lba2_buf st))))
              (ucast (last_lba (partition_entries_at (ram s) (piton_lba2_buf st))
                 - first_lba (partition_entries_at (ram s) (piton_lba2_buf st)) + 1)) s;
           if res \<noteq> 0 then piton_gpt_copy_failed env res s else do {
             (_, s) \<leftarrow> piton_print_uart env ('' done!'' @ CRLF) s;
             Some (0, s)
           }
         }
       }
     }
   }"

definition piton_main ::
    "'d env \<Rightarrow> piton_stack \<Rightarrow> u32 \<Rightarrow> string \<Rightarrow> 'd cstate \<Rightarrow> (int \<times> 'd cstate) option" where
  "piton_main env st UART_FREQ info s = do {
     s \<leftarrow> piton_init_uart env UART_FREQ 115200 s;
     (_, s) \<leftarrow> piton_print_uart env info s;
     (_, s) \<leftarrow> piton_print_uart env (''sd initialized!'' @ CRLF) s;
     (res, s) \<leftarrow> piton_gpt_find_boot_partition env st 0x80000000 (2 * 16384) s;
     Some (0, s)
   }"

definition piton_handle_trap :: "'d cstate \<Rightarrow> 'd cstate" where
  "piton_handle_trap s = s"

section \<open>Printing does not disturb the card's window\<close>

lemma window_ready: "window_ok env disk cap s \<longleftrightarrow> piton_ready env (\<lambda>_. ()) s \<and> sd_window disk cap (ram s)"
  by (simp add: window_ok_def)

lemma quiet_window: "quiet (piton_ready env (\<lambda>_. ())) ram p \<Longrightarrow> quiet (window_ok env disk cap) ram p"
  unfolding quiet_def window_ready by (auto elim!: tw_weaken)

lemma header_quiet': "quiet (window_ok env disk cap) ram (piton_gpt_print_header env a)"
  unfolding piton_gpt_print_header_def [abs_def] piton_say
  by (intro quiet_window say_quiet quiet_skip)

lemma entries_quiet': "quiet (piton_ready env (\<lambda>_. ())) ram (for_upto 4 (piton_gpt_print_entry env a))"
  unfolding piton_gpt_print_entry_def [abs_def] Let_def piton_say
  by (intro quiet_for quiet_bind say_quiet quiet_skip)

section \<open>Loading\<close>

text \<open>The local arrays of the two functions; \<open>buf\<close> of \<open>sd_copy\<close> is never accessed.\<close>

definition piton_arrays :: "piton_stack \<Rightarrow> (addr \<times> nat) list" where
  "piton_arrays st = [(piton_lba1_buf st, 512), (piton_lba2_buf st, 512)]"

definition piton_layout :: "piton_stack \<Rightarrow> addr \<Rightarrow> nat \<Rightarrow> nat \<Rightarrow> bool" where
  "piton_layout st dest n cap \<longleftrightarrow>
     stack_layout (piton_stack_low st) (piton_arrays st) dest (512 * n) \<and>
     disjoint_obj PITON_SD_BASE_ADDR (512 * cap) dest (512 * n)"

definition piton_loaded :: "piton_stack \<Rightarrow> addr \<Rightarrow> (nat \<Rightarrow> u8 list) \<Rightarrow> (addr \<Rightarrow> u8) \<Rightarrow> (addr \<Rightarrow> u8) \<Rightarrow> bool" where
  "piton_loaded st dest disk m m' \<longleftrightarrow>
     ram_bytes m' dest (512 * boot_blocks disk) = boot_image disk \<and>
     frames_kept (piton_stack_low st) (piton_arrays st) m m'"

text \<open>The window of the card is above the stack.\<close>

lemma window_off_stack:
  assumes "512 * cap \<le> unat PITON_SD_LENGTH" and "in_obj PITON_SD_BASE_ADDR (512 * cap) x"
  shows "unat STACK_TOP \<le> unat x"
proof -
  have "unat PITON_SD_BASE_ADDR \<le> unat x"
    using in_obj_range [OF assms(2)] assms(1) by (simp add: PITON_SD_LENGTH_def PITON_SD_BASE_ADDR_def)
  then show ?thesis by (simp add: STACK_TOP_def PITON_SD_BASE_ADDR_def)
qed

lemma window_apart:
  assumes "512 * cap \<le> unat PITON_SD_LENGTH" and "unat a + n \<le> unat STACK_TOP"
  shows "disjoint_obj PITON_SD_BASE_ADDR (512 * cap) a n"
proof -
  have "unat a + n \<le> 2 ^ 64" using assms(2) unsigned_less [of STACK_TOP, where 'a = nat] by simp
  with assms show ?thesis
    by (force simp: disjoint_obj_def dest: window_off_stack [OF assms(1)] in_obj_range)
qed

lemma piton_layoutD:
  assumes "piton_layout st dest n cap" and "512 * cap \<le> unat PITON_SD_LENGTH"
  shows "disjoint_obj PITON_SD_BASE_ADDR (512 * cap) (piton_lba1_buf st) 512"
    "disjoint_obj PITON_SD_BASE_ADDR (512 * cap) (piton_lba2_buf st) 512"
    "disjoint_obj PITON_SD_BASE_ADDR (512 * cap) dest (512 * n)"
  using assms by (auto simp: piton_layout_def stack_layout_def piton_arrays_def intro: window_apart)

lemma piton_frames_kept:
  assumes "piton_layout st dest n cap" and "512 * cap \<le> unat PITON_SD_LENGTH"
    and "touches [(dest, 512 * n), (piton_lba1_buf st, 512), (piton_lba2_buf st, 512), (PITON_SD_BASE_ADDR, 512 * cap)] m m'"
  shows "frames_kept (piton_stack_low st) (piton_arrays st) m m'"
proof -
  have off: "\<not> in_obj PITON_SD_BASE_ADDR (512 * cap) x" if "in_obj low (unat STACK_TOP - unat low) x" for low x
  proof
    assume w: "in_obj PITON_SD_BASE_ADDR (512 * cap) x"
    have "unat low + (unat STACK_TOP - unat low) \<le> 2 ^ 64"
      using unsigned_less [of STACK_TOP, where 'a = nat] unsigned_less [of low, where 'a = nat] by simp
    from in_obj_range [OF that this] window_off_stack [OF assms(2) w] that show False by (auto simp: in_obj_def)
  qed
  with assms(1,3) show ?thesis
    by (auto simp: piton_layout_def stack_layout_def touches_def disjoint_obj_def frames_kept_def piton_arrays_def)
qed

lemma say_window_then:
  assumes "window_ok env disk cap s"
    and "\<And>n s'. window_ok env disk cap s' \<Longrightarrow> ram s' = ram s \<Longrightarrow> tw (k n s') Q"
  shows "tw (say env bs s \<bind> (\<lambda>(n, s'). k n s')) Q"
  using assms unfolding window_ready by (auto intro!: say_then)

lemma piton_gpt_find_loads:
  fixes s :: "'d cstate"
  assumes ok: "window_ok env disk cap s" and disk: "gpt_disk disk cap"
    and layout: "piton_layout st dest (boot_blocks disk) cap"
  shows "tw (piton_gpt_find_boot_partition env st dest sz s) (\<lambda>(rc, s'). rc = 0 \<and>
     piton_loaded st dest disk (ram s) (ram s'))"
proof -
  note rd = gpt_disk_reads [OF disk]
  have cap: "512 * cap \<le> unat PITON_SD_LENGTH" using ok by (simp add: window_ok_def sd_window_def)
  note l = piton_layoutD [OF layout cap]
  have fin: "tw (say env bs s2 \<bind> (\<lambda>(_, s). Some (0, s))) (\<lambda>(rc, s'). rc = 0 \<and> piton_loaded st dest disk (ram s) (ram s'))"
    if "window_ok env disk cap s2" "ram_bytes (ram s2) dest (512 * boot_blocks disk) = boot_image disk"
      "touches [(dest, 512 * boot_blocks disk), (piton_lba1_buf st, 512), (piton_lba2_buf st, 512),
         (PITON_SD_BASE_ADDR, 512 * cap)] (ram s) (ram s2)" for s2 bs
    by (rule say_window_then [OF that(1)])
      (use that(2,3) piton_frames_kept [OF layout cap] in \<open>auto simp: piton_loaded_def\<close>)
  have ents: "quiet (window_ok env disk cap) ram (\<lambda>s. for_upto 4 (piton_gpt_print_entry env (piton_lba2_buf st)) s \<bind>
      (\<lambda>s. say env b1 s \<bind> (\<lambda>(_, s). say env b2 s \<bind> (\<lambda>(_, s). Some s))))" for b1 b2
    by (intro quiet_window quiet_bind entries_quiet' say_quiet quiet_skip)
  have assoc: "m \<bind> (\<lambda>s. say env b1 s \<bind> (\<lambda>(_, s). say env b2 s \<bind> (\<lambda>(_, s). k s)))
      = m \<bind> (\<lambda>s. say env b1 s \<bind> (\<lambda>(_, s). say env b2 s \<bind> (\<lambda>(_, s). Some s))) \<bind> k"
    for m b1 b2 and k :: "_ \<Rightarrow> (int \<times> 'd cstate) option"
    by (cases m) (auto simp: split_beta intro!: Option.bind_cong)
  have init: "tw (piton_init_sd env s) (\<lambda>(ret, s'). ret = 0 \<and> window_ok env disk cap s' \<and> ram s' = ram s)"
    unfolding piton_init_sd_def piton_say by (rule say_window_then [OF ok]) simp
  show ?thesis
    unfolding piton_gpt_find_boot_partition_def piton_say assoc [of "for_upto _ _ _"]
  proof (rule tw_bind2 [OF init], simp only: prod.case simp_thms if_False, rule say_window_then, elim conjE, assumption)
    fix ret :: int and s1 n s2
    assume s1: "ret = 0 \<and> window_ok env disk cap s1 \<and> ram s1 = ram s"
      and s2: "window_ok env disk cap s2" and m: "ram s2 = ram s1"
    show "tw (piton_sd_copy env (piton_lba1_buf st) 1 1 s2 \<bind> (\<lambda>(res, s). if res \<noteq> 0 then piton_gpt_copy_failed env res s else
       piton_gpt_print_header env (piton_lba1_buf st) s \<bind> (\<lambda>s. piton_sd_copy env (piton_lba2_buf st)
          (ucast (partition_entries_lba (gpt_pth_at (ram s) (piton_lba1_buf st)))) 1 s \<bind>
       (\<lambda>(res, s). if res \<noteq> 0 then piton_gpt_copy_failed env res s else
       for_upto 4 (piton_gpt_print_entry env (piton_lba2_buf st)) s \<bind>
         (\<lambda>s. say env (cstr_bytes ''copying boot image '') s \<bind> (\<lambda>(_, s). say env (cstr_bytes CRLF) s \<bind> (\<lambda>(_, s). Some s))) \<bind>
       (\<lambda>s. piton_sd_copy env dest (ucast (first_lba (partition_entries_at (ram s) (piton_lba2_buf st))))
          (ucast (last_lba (partition_entries_at (ram s) (piton_lba2_buf st)) -
             first_lba (partition_entries_at (ram s) (piton_lba2_buf st)) + 1)) s \<bind>
       (\<lambda>(res, s). if res \<noteq> 0 then piton_gpt_copy_failed env res s
         else say env (cstr_bytes ('' done!'' @ CRLF)) s \<bind> (\<lambda>(_, s). Some (0, s))))))))
      (\<lambda>(rc, s'). rc = 0 \<and> piton_loaded st dest disk (ram s) (ram s'))"
      by (rule window.boot_chain [OF s2 header_quiet' ents rd(1-4)]) (use l rd(5,6) fin m s1 in auto)
  qed
qed

lemma piton_init_uart_ready:
  assumes "uart_live PITON_UART_LINE_STATUS env"
  shows "tw (piton_init_uart env freq 115200 s) (\<lambda>s'. piton_ready env (\<lambda>_. ()) s' \<and> ram s' = ram s)"
proof -
  have "\<not> bit (3 :: u8) 7" "bit (0x80 :: u8) 7" by simp_all
  then show ?thesis
    using assms by (simp add: piton_init_uart_def Let_def write_reg_u8_def console_ok_def uart_quiet_def
        uart_write_def dlab_def reg_defs)
qed

text \<open>
  Claim C27: the OpenPiton boot program. With a live console, a card window that holds a GUID partition
  table, and a boot partition that does not reach the stack below \<open>0x84000000\<close>, \<open>main\<close> returns with
  the whole boot partition at \<open>0x80000000\<close>, where the start code then jumps, for every clock frequency and
  every banner text of the build; on the stack only the two local buffers have changed, so the
  return addresses are intact.
\<close>

theorem piton_main_loads:
  assumes "uart_live PITON_UART_LINE_STATUS env" and "sd_window disk cap (ram s)" and "gpt_disk disk cap"
    and "piton_layout st 0x80000000 (boot_blocks disk) cap"
  shows "tw (piton_main env st freq info s) (\<lambda>(rc, s'). rc = 0 \<and> piton_loaded st 0x80000000 disk (ram s) (ram s'))"
  unfolding piton_main_def piton_say
proof (rule tw_bind [OF piton_init_uart_ready [OF assms(1)]])
  fix s1 assume s1: "piton_ready env (\<lambda>_. ()) s1 \<and> ram s1 = ram s"
  with assms(2) have "window_ok env disk cap s1" by (simp add: window_ready)
  then show "tw (say env (cstr_bytes info) s1 \<bind> (\<lambda>(_, s). say env (cstr_bytes (''sd initialized!'' @ CRLF)) s \<bind>
      (\<lambda>(_, s). piton_gpt_find_boot_partition env st 0x80000000 (2 * 16384) s \<bind> (\<lambda>(res, s). Some (0, s)))))
    (\<lambda>(rc, s'). rc = 0 \<and> piton_loaded st 0x80000000 disk (ram s) (ram s'))"
    using s1 by (intro say_window_then tw_bind2 [OF piton_gpt_find_loads [OF _ assms(3,4)]]) auto
qed

text \<open>Memory with the demonstration disk in the window.\<close>

definition demo_window :: "addr \<Rightarrow> u8" where
  "demo_window x = demo_disk (unat (x - PITON_SD_BASE_ADDR) div 512) ! (unat (x - PITON_SD_BASE_ADDR) mod 512)"

lemma demo_sd_window: "sd_window demo_disk 100 demo_window"
  unfolding sd_window_def
proof (intro conjI allI impI)
  show "512 * 100 \<le> unat PITON_SD_LENGTH" by (simp add: PITON_SD_LENGTH_def)
next
  fix l :: nat assume l: "l < 100"
  show "ram_bytes demo_window (PITON_SD_BASE_ADDR + of_nat (512 * l)) 512 = demo_disk l"
  proof (rule nth_equalityI)
    fix j assume "j < length (ram_bytes demo_window (PITON_SD_BASE_ADDR + of_nat (512 * l)) 512)"
    then have j: "j < 512" by simp
    have "unat (of_nat (512 * l + j) :: addr) = 512 * l + j" using l j by (simp only: unat_of_nat) simp
    then have "unat (PITON_SD_BASE_ADDR + of_nat (512 * l) + of_nat j - PITON_SD_BASE_ADDR) = 512 * l + j"
      by (simp add: add.assoc)
    then have "demo_window (PITON_SD_BASE_ADDR + of_nat (512 * l) + of_nat j) = demo_disk l ! j"
      unfolding demo_window_def using j by simp
    with j show "ram_bytes demo_window (PITON_SD_BASE_ADDR + of_nat (512 * l)) 512 ! j = demo_disk l ! j" by simp
  qed (simp add: length_demo_disk)
qed

definition demo_piton_stack :: piton_stack where
  "demo_piton_stack = \<lparr>piton_stack_low = 0x83fff000, piton_lba1_buf = 0x83fffc00, piton_lba2_buf = 0x83fffa00\<rparr>"

lemma demo_piton_layout: "piton_layout demo_piton_stack 0x80000000 (boot_blocks demo_disk) 100"
proof -
  have "disjoint_obj 0x83fffc00 512 0x83fffa00 512" "disjoint_obj 0xf000000000 (512 * 100) 0x80000000 (512 * 3)"
    by (rule disjoint_obj_sym, rule disjoint_objI, simp, simp)+
  moreover have "disjoint_obj 0x80000000 (512 * 3) 0x83fff000 (unat (0x84000000 :: addr) - unat (0x83fff000 :: addr))"
    by (rule disjoint_objI) simp_all
  ultimately show ?thesis
    by (simp add: piton_layout_def stack_layout_def demo_boot_blocks demo_piton_stack_def piton_arrays_def STACK_TOP_def
        PITON_SD_BASE_ADDR_def)
qed

theorem piton_main_loads_witness:
  "tw (piton_main (bench_env script_exch) demo_piton_stack 30000000 ''OpenPiton'' ((bench_state [])\<lparr>ram := demo_window\<rparr>))
     (\<lambda>(rc, s'). rc = 0 \<and> piton_loaded demo_piton_stack 0x80000000 demo_disk
        (ram ((bench_state [] :: u8 list bench cstate)\<lparr>ram := demo_window\<rparr>)) (ram s'))"
proof (rule piton_main_loads [OF bench_uart_live _ demo_gpt_disk demo_piton_layout])
  show "sd_window demo_disk 100 (ram ((bench_state [] :: u8 list bench cstate)\<lparr>ram := demo_window\<rparr>))"
    by (simp add: demo_sd_window)
qed

end
