(* ===== verification/Piton_Spi.thy ===== *)
theory Piton_Spi
  imports Piton_Uart Spi
begin

text \<open>
  \<open>corev_apu/openpiton/bootrom/linux/src/spi.c\<close>, the SPI driver that comes with the OpenPiton boot
  loader. Its registers (\<open>spi.h\<close>), its register access functions and its three loops are the same text
  as in the FPGA driver and share their definitions; what differs is the console it prints to, which
  returns the number of characters.
\<close>

definition piton_spi_init :: "'d env \<Rightarrow> 'd cstate \<Rightarrow> 'd cstate option" where
  "piton_spi_init env s = do {
     (_, s) \<leftarrow> piton_print_uart env (''init SPI'' @ CRLF) s;
     let s = write_reg env SPI_RESET_REG 0x0a s;
     let s = nops env 10 s;
     let s = write_reg env SPI_CONTROL_REG 0x104 s;
     let (status, s) = read_reg env SPI_STATUS_REG s;
     (_, s) \<leftarrow> piton_print_uart env ''status: 0x'' s;
     (_, s) \<leftarrow> piton_print_uart_addr env (ucast status) s;
     (_, s) \<leftarrow> piton_print_uart env CRLF s;
     let s = write_reg env SPI_CONTROL_REG 0x166 s;
     let (status, s) = read_reg env SPI_STATUS_REG s;
     (_, s) \<leftarrow> piton_print_uart env ''status: 0x'' s;
     (_, s) \<leftarrow> piton_print_uart_addr env (ucast status) s;
     (_, s) \<leftarrow> piton_print_uart env CRLF s;
     let s = write_reg env SPI_CONTROL_REG 0x06 s;
     (_, s) \<leftarrow> piton_print_uart env (''SPI initialized!'' @ CRLF) s;
     Some s
   }"

definition piton_spi_txrx :: "'d env \<Rightarrow> u8 \<Rightarrow> 'd cstate \<Rightarrow> (u8 \<times> 'd cstate) option" where
  "piton_spi_txrx env byte s = do {
     let s = write_reg env SPI_SLAVE_SELECT_REG 0xfffffffe s;
     let s = write_reg env SPI_TRANSMIT_REG (ucast byte) s;
     let s = nops env 100 s;
     let s = write_reg env SPI_CONTROL_REG 0x106 s;
     s \<leftarrow> spi_wait_rx env s;
     let (result, s) = read_reg env SPI_RECEIVE_REG s;
     let (status, s) = read_reg env SPI_STATUS_REG s;
     s \<leftarrow> (if status AND 0x1 \<noteq> 0x1 then do {
             (_, s) \<leftarrow> piton_print_uart env ''rx fifo not empty?? '' s;
             let (status, s) = read_reg env SPI_STATUS_REG s;
             (_, s) \<leftarrow> piton_print_uart_addr env (ucast status) s;
             (_, s) \<leftarrow> piton_print_uart env CRLF s;
             Some s
           } else Some s);
     let s = write_reg env SPI_SLAVE_SELECT_REG 0xffffffff s;
     let s = write_reg env SPI_CONTROL_REG 0x06 s;
     Some (ucast result, s)
   }"

definition piton_spi_write_bytes ::
    "'d env \<Rightarrow> addr \<Rightarrow> u32 \<Rightarrow> addr \<Rightarrow> 'd cstate \<Rightarrow> (int \<times> 'd cstate) option" where
  "piton_spi_write_bytes env bytes len ret s =
     (if len > 256 then Some (- 1, s)
      else do {
        let s = write_reg env SPI_SLAVE_SELECT_REG 0xfffffffe s;
        let s = spi_tx_loop env bytes 0 (unat len) s;
        let s = nops env 50 s;
        let s = write_reg env SPI_CONTROL_REG 0x106 s;
        s \<leftarrow> spi_wait_rx env s;
        s \<leftarrow> spi_rx_loop env ret 0 (unat len) s;
        let s = write_reg env SPI_SLAVE_SELECT_REG 0xffffffff s;
        let s = write_reg env SPI_CONTROL_REG 0x06 s;
        Some (0, s)
      })"

text \<open>
  On an SPI core that behaves as documented, sends in time and is idle and enabled, the OpenPiton driver
  never reaches its warning: exchanging a byte and exchanging a block do exactly what the FPGA
  driver does, access by access, and the byte exchange is one step of the card.
\<close>

theorem piton_spi_same:
  assumes "quad_spi env V exch" and "spi_timing env V n" and "spi_idle V (dev s)" and "\<not> vinh V (dev s)"
  shows "piton_spi_txrx env byte s = spi_txrx env byte s \<and>
    piton_spi_write_bytes env bytes len ret s = spi_write_bytes env bytes len ret s \<and>
    tw (piton_spi_txrx env byte s) (\<lambda>(r, s'). (r, vcard V (dev s')) = exch byte (vcard V (dev s)) \<and>
      spi_idle V (dev s') \<and> ram s' = ram s)"
proof -
  let ?r = "fst (exch byte (vcard V (dev s)))" and ?c = "snd (exch byte (vcard V (dev s)))"
  obtain s5 where s5: "spi_wait_rx env (write_reg env SPI_CONTROL_REG 0x106 (nops env 100 (write_reg env SPI_TRANSMIT_REG (ucast byte)
       (write_reg env SPI_SLAVE_SELECT_REG 0xfffffffe s)))) = Some s5"
    and r: "fst (read_reg env SPI_RECEIVE_REG s5) = ucast ?r"
    and st: "fst (read_reg env SPI_STATUS_REG (snd (read_reg env SPI_RECEIVE_REG s5))) AND 1 = 1"
    and s7: "spi_core V (dev (snd (read_reg env SPI_STATUS_REG (snd (read_reg env SPI_RECEIVE_REG s5))))) = (True, True, [], [], ?c)"
      "kept (snd (read_reg env SPI_STATUS_REG (snd (read_reg env SPI_RECEIVE_REG s5)))) = kept s"
    by (rule spi_exchange [OF assms])
  let ?s7 = "snd (read_reg env SPI_STATUS_REG (snd (read_reg env SPI_RECEIVE_REG s5)))"
  let ?s9 = "write_reg env SPI_CONTROL_REG 0x06 (write_reg env SPI_SLAVE_SELECT_REG 0xffffffff ?s7)"
  have piton: "piton_spi_txrx env byte s = Some (?r, ?s9)"
    unfolding piton_spi_txrx_def Let_def s5 using r st by (simp add: split_beta)
  have fpga: "spi_txrx env byte s = Some (?r, ?s9)"
    unfolding spi_txrx_def Let_def s5 using r st by (simp add: split_beta)
  have "spi_core V (dev ?s9) = (False, False, [], [], ?c)" "kept ?s9 = kept s"
    using spi_release [OF assms(1) s7(1)] s7(2) by simp_all
  then show ?thesis
    using piton fpga by (auto simp: piton_spi_write_bytes_def spi_write_bytes_def kept_def spi_idle_def dest!: spi_coreD)
qed

theorem piton_spi_same_witness:
  "piton_spi_txrx (bench_env script_exch) 0x40 (bench_state [7]) = spi_txrx (bench_env script_exch) 0x40 (bench_state [7])"
  using piton_spi_same [OF bench_quad_spi bench_spi_timing, of "bench_state [7]" script_exch "0x40"] by simp

end
