(* ===== verification/Smp.thy ===== *)
theory Smp
  imports Main
begin

text \<open>
  The multi-hart start of both boot codes: \<open>smp_pause\<close> and \<open>smp_resume\<close> of
  \<open>corev_apu/openpiton/bootrom/linux/src/smp.h\<close> (a barrier word in memory) and of
  \<open>corev_apu/fpga/src/bootrom/src/smp.h\<close> (software interrupts), around the call of \<open>main\<close> in
  the start code. Every load, store or atomic access to the shared word or register is one step;
  the harts interleave arbitrarily. Hart 0 is \<open>NONSMP_HART\<close>.
\<close>

section \<open>Start barriers\<close>

text \<open>
  What both protocols promise, from what their proofs establish: an invariant, and steps that make
  progress (\<open>moves\<close>, those that are not one more turn of a waiting loop), of which only \<open>left s\<close>
  many can still happen and of which one can happen until the barrier is \<open>opened\<close>.
\<close>

locale start_barrier =
  fixes step :: "'s \<Rightarrow> 's \<Rightarrow> bool" and moves :: "'s \<Rightarrow> 's \<Rightarrow> bool"
    and start :: 's and inv :: "'s \<Rightarrow> bool" and left :: "'s \<Rightarrow> nat" and opened :: "'s \<Rightarrow> bool"
  assumes inv_start: "inv start"
    and inv_step: "step s s' \<Longrightarrow> inv s \<Longrightarrow> inv s'"
    and moves_step: "moves s s' \<Longrightarrow> step s s'"
    and moves_left: "moves s s' \<Longrightarrow> inv s \<Longrightarrow> left s' < left s"
    and moves_possible: "inv s \<Longrightarrow> \<not> opened s \<Longrightarrow> \<exists>s'. moves s s'"
begin

lemma reachable_inv: "step\<^sup>*\<^sup>* start s \<Longrightarrow> inv s"
  by (induction rule: rtranclp_induct) (auto intro: inv_start inv_step)

lemma moves_bounded: "(moves ^^ n) s s' \<Longrightarrow> inv s \<Longrightarrow> inv s' \<and> n + left s' \<le> left s"
proof (induction n arbitrary: s')
  case (Suc n)
  then obtain t where t: "(moves ^^ n) s t" "moves t s'" by auto
  with Suc have "inv t" "n + left t \<le> left s" by auto
  moreover have "left s' < left t" "inv s'"
    using t(2) \<open>inv t\<close> moves_left inv_step moves_step by blast+
  ultimately show ?case by simp
qed simp

lemma opens: "inv s \<Longrightarrow> \<exists>s'. moves\<^sup>*\<^sup>* s s' \<and> opened s'"
proof (induction s rule: measure_induct_rule [of left])
  case (less s)
  show ?case
  proof (cases "opened s")
    case False
    then obtain t where t: "moves s t" using moves_possible less.prems by blast
    with less.prems have "inv t" "left t < left s" using inv_step moves_step moves_left by blast+
    with less.IH t show ?thesis by (meson converse_rtranclp_into_rtranclp)
  qed blast
qed

lemma reachable_opens: "step\<^sup>*\<^sup>* start s \<Longrightarrow> \<exists>s'. moves\<^sup>*\<^sup>* s s' \<and> opened s'"
  by (rule opens [OF reachable_inv])

lemma reachable_bounded: "step\<^sup>*\<^sup>* start s \<Longrightarrow> (moves ^^ n) s s' \<Longrightarrow> n \<le> left s"
  using moves_bounded [OF _ reachable_inv] by fastforce

end

lemma sum_update_less:
  fixes f :: "'p \<Rightarrow> nat" and N i :: nat
  assumes "i < N" "f p < f (g i)"
  shows "(\<Sum>j < N. f ((g(i := p)) j)) < (\<Sum>j < N. f (g j))"
  by (rule sum_strict_mono_ex1) (use assms in auto)

lemma sum_ranks_le:
  fixes f :: "'p \<Rightarrow> nat"
  assumes "\<And>j. j < N \<Longrightarrow> f (g j) \<le> c"
  shows "(\<Sum>j < (N::nat). f (g j)) \<le> c * N"
proof -
  have "(\<Sum>j < N. f (g j)) \<le> (\<Sum>j < N. c)" by (rule sum_mono) (use assms in auto)
  then show ?thesis by (simp add: mult.commute)
qed

section \<open>OpenPiton: a barrier word\<close>

text \<open>
  Where a hart is: inside \<open>main\<close> (hart 0 only), at the load of label 42, between the successful
  comparison and the \<open>amoswap\<close>, at the load of label 43, or past the barrier.
\<close>

datatype piton_pc = PMain | PTurn | PSwap | PWait | PDone

record piton_smp =
  barrier :: nat
  ppc :: "nat \<Rightarrow> piton_pc"

text \<open>Nothing initialises the barrier word, so it starts with what memory holds, \<open>b\<close>.\<close>

definition piton_smp_init :: "nat \<Rightarrow> piton_smp" where
  "piton_smp_init b = \<lparr>barrier = b, ppc = (\<lambda>i. if i = 0 then PMain else PTurn)\<rparr>"

text \<open>\<open>N\<close> is \<open>MAX_HARTS\<close>, the number of harts. The value stored by \<open>amoswap\<close> is the loaded value
  plus one, i.e.\ the hart's number plus one.\<close>

inductive piton_step :: "nat \<Rightarrow> piton_smp \<Rightarrow> piton_smp \<Rightarrow> bool" for N where
  piton_main: "0 < N \<Longrightarrow> ppc s 0 = PMain \<Longrightarrow> piton_step N s (s\<lparr>ppc := (ppc s)(0 := PTurn)\<rparr>)"
| piton_turn: "i < N \<Longrightarrow> ppc s i = PTurn \<Longrightarrow> barrier s = i \<Longrightarrow>
    piton_step N s (s\<lparr>ppc := (ppc s)(i := PSwap)\<rparr>)"
| piton_turn_again: "i < N \<Longrightarrow> ppc s i = PTurn \<Longrightarrow> barrier s \<noteq> i \<Longrightarrow> piton_step N s s"
| piton_swap: "i < N \<Longrightarrow> ppc s i = PSwap \<Longrightarrow>
    piton_step N s \<lparr>barrier = i + 1, ppc = (ppc s)(i := PWait)\<rparr>"
| piton_wait: "i < N \<Longrightarrow> ppc s i = PWait \<Longrightarrow> barrier s = N \<Longrightarrow>
    piton_step N s (s\<lparr>ppc := (ppc s)(i := PDone)\<rparr>)"
| piton_wait_again: "i < N \<Longrightarrow> ppc s i = PWait \<Longrightarrow> barrier s \<noteq> N \<Longrightarrow> piton_step N s s"

inductive_cases piton_stepE: "piton_step N s s'"

text \<open>What the barrier word says about a hart at each place.\<close>

fun piton_hart_ok :: "nat \<Rightarrow> nat \<Rightarrow> nat \<Rightarrow> piton_pc \<Rightarrow> bool" where
  "piton_hart_ok N b i PMain = (i = 0 \<and> b = 0)"
| "piton_hart_ok N b i PTurn = (b \<le> i)"
| "piton_hart_ok N b i PSwap = (b = i)"
| "piton_hart_ok N b i PWait = (i < b)"
| "piton_hart_ok N b i PDone = (b = N)"

definition piton_inv :: "nat \<Rightarrow> piton_smp \<Rightarrow> bool" where
  "piton_inv N s \<longleftrightarrow> barrier s \<le> N \<and> (\<forall>i < N. piton_hart_ok N (barrier s) i (ppc s i))"

lemma piton_invD: "piton_inv N s \<Longrightarrow> i < N \<Longrightarrow> piton_hart_ok N (barrier s) i (ppc s i)"
  by (simp add: piton_inv_def)

lemma piton_inv_init: "piton_inv N (piton_smp_init 0)"
  by (simp add: piton_inv_def piton_smp_init_def)

lemma piton_inv_step: "piton_step N s s' \<Longrightarrow> piton_inv N s \<Longrightarrow> piton_inv N s'"
proof (induction rule: piton_step.induct)
  case (piton_swap i s)
  have i: "barrier s = i" using piton_invD [OF piton_swap(3,1)] piton_swap(2) by simp
  have "piton_hart_ok N (i + 1) j (((ppc s)(i := PWait)) j)" if "j < N" for j
    using piton_invD [OF piton_swap(3) that] i piton_swap(1,2) by (cases "ppc s j"; cases "j = i") auto
  with piton_swap(1) show ?case unfolding piton_inv_def piton_smp.select_convs by simp
qed (auto simp: piton_inv_def)

text \<open>Steps that are not another turn of a waiting loop, and a bound on how many are left.\<close>

definition piton_progress :: "nat \<Rightarrow> piton_smp \<Rightarrow> piton_smp \<Rightarrow> bool" where
  "piton_progress N s s' \<longleftrightarrow> piton_step N s s' \<and> ppc s' \<noteq> ppc s"

fun piton_rank :: "piton_pc \<Rightarrow> nat" where
  "piton_rank PMain = 4"
| "piton_rank PTurn = 3"
| "piton_rank PSwap = 2"
| "piton_rank PWait = 1"
| "piton_rank PDone = 0"

definition piton_left :: "nat \<Rightarrow> piton_smp \<Rightarrow> nat" where
  "piton_left N s = (\<Sum>i < N. piton_rank (ppc s i))"

lemma piton_left_step: "piton_step N s s' \<Longrightarrow> ppc s' \<noteq> ppc s \<Longrightarrow> piton_left N s' < piton_left N s"
  unfolding piton_left_def
  by (induction rule: piton_step.induct) (auto simp del: fun_upd_apply intro!: sum_update_less)

lemma piton_can_progress:
  assumes inv: "piton_inv N s" and "i < N" "ppc s i \<noteq> PDone"
  shows "\<exists>s'. piton_progress N s s'"
proof (cases "barrier s = N")
  case True
  have "ppc s i = PWait" using piton_invD [OF inv assms(2)] assms(2,3) True by (cases "ppc s i") auto
  then have "(ppc s)(i := PDone) \<noteq> ppc s" by (simp add: fun_upd_idem_iff)
  with piton_wait [OF assms(2) \<open>ppc s i = PWait\<close> True] show ?thesis by (auto simp: piton_progress_def)
next
  case False
  let ?b = "barrier s"
  have b: "?b < N" using inv False by (simp add: piton_inv_def)
  note ok = piton_invD [OF inv b]
  have upd: "ppc s ?b \<noteq> p \<Longrightarrow> (ppc s)(?b := p) \<noteq> ppc s" for p by (simp add: fun_upd_idem_iff)
  show ?thesis
  proof (cases "ppc s ?b")
    case PMain
    with ok have "?b = 0" by simp
    with piton_main [of N s] b PMain upd [of PTurn] show ?thesis by (auto simp: piton_progress_def)
  next
    case PTurn
    with piton_turn [OF b PTurn refl] upd [of PSwap] show ?thesis by (auto simp: piton_progress_def)
  next
    case PSwap
    with piton_swap [OF b PSwap] upd [of PWait] show ?thesis by (auto simp: piton_progress_def)
  qed (use ok False in auto)
qed

definition piton_opened :: "nat \<Rightarrow> piton_smp \<Rightarrow> bool" where
  "piton_opened N s \<longleftrightarrow> (\<forall>i < N. ppc s i = PDone)"

interpretation pbarrier: start_barrier "piton_step N" "piton_progress N" "piton_smp_init 0" "piton_inv N"
    "piton_left N" "piton_opened N" for N
proof unfold_locales
  show "piton_progress N s s' \<Longrightarrow> piton_inv N s \<Longrightarrow> piton_left N s' < piton_left N s" for s s'
    using piton_left_step [of N s s'] by (auto simp: piton_progress_def)
  show "piton_inv N s \<Longrightarrow> \<not> piton_opened N s \<Longrightarrow> \<exists>s'. piton_progress N s s'" for s
    using piton_can_progress by (auto simp: piton_opened_def)
qed (auto simp: piton_progress_def intro: piton_inv_init piton_inv_step)

text \<open>
  Claim C29: if the barrier word is 0 when the harts start, no hart leaves the OpenPiton start barrier
  early. In every reachable state of every interleaving, once some hart is past the barrier, hart 0
  has finished \<open>main\<close> (so the image is loaded) and every hart has taken its turn.
\<close>

theorem piton_barrier_safe:
  assumes "(piton_step N)\<^sup>*\<^sup>* (piton_smp_init 0) s" and "i < N" and "ppc s i = PDone" and "j < N"
  shows "ppc s j \<in> {PWait, PDone}"
proof -
  note inv = pbarrier.reachable_inv [OF assms(1)]
  have "barrier s = N" using piton_invD [OF inv assms(2)] assms(3) by simp
  with piton_invD [OF inv assms(4)] assms(4) show ?thesis by (cases "ppc s j") auto
qed

text \<open>From hart \<open>b\<close> on, every hart can take its turn when the word says so.\<close>

lemma piton_turns:
  assumes "k \<le> N" "b \<le> k" "0 < b"
  shows "(piton_step N)\<^sup>*\<^sup>* (piton_smp_init b)
    \<lparr>barrier = k, ppc = (\<lambda>i. if b \<le> i \<and> i < k then PWait else ppc (piton_smp_init b) i)\<rparr>"
  using assms(1,2)
proof (induction k)
  case (Suc k)
  let ?p = "\<lambda>k i. if b \<le> i \<and> i < k then PWait else ppc (piton_smp_init b) i"
  show ?case
  proof (cases "b \<le> k")
    case True
    let ?s = "\<lparr>barrier = k, ppc = ?p k\<rparr>"
    have k: "k < N" "ppc ?s k = PTurn" "barrier ?s = k" using Suc.prems assms(3) True by (simp_all add: piton_smp_init_def)
    note 1 = piton_turn [OF k] and 2 = piton_swap [OF k(1), of "?s\<lparr>ppc := (ppc ?s)(k := PSwap)\<rparr>"]
    have "(?p k)(k := PWait) = ?p (Suc k)" using True by (auto simp: fun_eq_iff)
    with 1 2 have "(piton_step N)\<^sup>*\<^sup>* ?s \<lparr>barrier = Suc k, ppc = ?p (Suc k)\<rparr>" by (auto intro: converse_rtranclp_into_rtranclp)
    with Suc.IH True Suc.prems show ?thesis by (auto intro: rtranclp_trans)
  next
    case False
    then have b: "b = Suc k" using Suc.prems by simp
    then have "\<lparr>barrier = Suc k, ppc = ?p (Suc k)\<rparr> = piton_smp_init b" by (auto simp: piton_smp_init_def)
    then show ?thesis by simp
  qed
qed (use assms(3) in simp)

lemma piton_nobody_passes:
  assumes "(piton_step N)\<^sup>*\<^sup>* (piton_smp_init b) s" "N \<le> b"
  shows "barrier s = b \<and> (\<forall>i < N. ppc s i \<in> {PMain, PTurn})"
  using assms(1)
proof (induction rule: rtranclp_induct)
  case (step s s')
  from step(2) show ?case by cases (use step(3) assms(2) in \<open>auto\<close>)
qed (simp add: piton_smp_init_def)

text \<open>
  Claim C30: with other contents of the barrier word, which no code initialises, the OpenPiton start
  barrier fails: a hart can get past it while hart 0 is still in \<open>main\<close> exactly if the word is the
  number of another hart.
\<close>

theorem piton_barrier_uninitialised:
  "(\<exists>s. (piton_step N)\<^sup>*\<^sup>* (piton_smp_init b) s \<and> ppc s 0 = PMain \<and> (\<exists>i < N. ppc s i = PDone)) \<longleftrightarrow> 0 < b \<and> b < N"
proof
  assume "\<exists>s. (piton_step N)\<^sup>*\<^sup>* (piton_smp_init b) s \<and> ppc s 0 = PMain \<and> (\<exists>i < N. ppc s i = PDone)"
  then obtain s i where s: "(piton_step N)\<^sup>*\<^sup>* (piton_smp_init b) s" "ppc s 0 = PMain" "i < N" "ppc s i = PDone" by blast
  have "b < N" using piton_nobody_passes [OF s(1)] s(3,4) by (cases "N \<le> b") auto
  moreover have "b \<noteq> 0"
  proof
    assume "b = 0"
    with s(1) have inv: "piton_inv N s" using pbarrier.reachable_inv by simp
    have "barrier s = N" "barrier s = 0" using piton_invD [OF inv s(3)] piton_invD [OF inv, of 0] s(2-4) by auto
    with s(3) show False by simp
  qed
  ultimately show "0 < b \<and> b < N" by simp
next
  assume b: "0 < b \<and> b < N"
  let ?s = "\<lparr>barrier = N, ppc = (\<lambda>i. if b \<le> i \<and> i < N then PWait else ppc (piton_smp_init b) i)\<rparr>"
  have "piton_step N ?s (?s\<lparr>ppc := (ppc ?s)(b := PDone)\<rparr>)" by (rule piton_wait) (use b in auto)
  with piton_turns [of N N b] b have "(piton_step N)\<^sup>*\<^sup>* (piton_smp_init b) (?s\<lparr>ppc := (ppc ?s)(b := PDone)\<rparr>)" by simp
  with b show "\<exists>s. (piton_step N)\<^sup>*\<^sup>* (piton_smp_init b) s \<and> ppc s 0 = PMain \<and> (\<exists>i < N. ppc s i = PDone)"
    by (intro exI [of _ "?s\<lparr>ppc := (ppc ?s)(b := PDone)\<rparr>"]) (auto simp: piton_smp_init_def)
qed

lemma piton_demo_run:
  "(piton_step 2)\<^sup>*\<^sup>* (piton_smp_init 0) \<lparr>barrier = 2, ppc = ((ppc (piton_smp_init 0))(0 := PDone, 1 := PWait))\<rparr>"
proof -
  let ?f = "ppc (piton_smp_init 0)"
  let ?s1 = "\<lparr>barrier = 0, ppc = ?f(0 := PTurn)\<rparr>" and ?s2 = "\<lparr>barrier = 0, ppc = ?f(0 := PSwap)\<rparr>"
    and ?s3 = "\<lparr>barrier = 1, ppc = ?f(0 := PWait)\<rparr>" and ?s4 = "\<lparr>barrier = 1, ppc = ?f(0 := PWait, 1 := PSwap)\<rparr>"
    and ?s5 = "\<lparr>barrier = 2, ppc = ?f(0 := PWait, 1 := PWait)\<rparr>"
    and ?s6 = "\<lparr>barrier = 2, ppc = ?f(0 := PDone, 1 := PWait)\<rparr>"
  have 1: "piton_step 2 (piton_smp_init 0) ?s1" using piton_main [of 2 "piton_smp_init 0"] by (simp add: piton_smp_init_def)
  have 2: "piton_step 2 ?s1 ?s2" using piton_turn [of 0 2 ?s1] by simp
  have 3: "piton_step 2 ?s2 ?s3" using piton_swap [of 0 2 ?s2] by simp
  have 4: "piton_step 2 ?s3 ?s4" using piton_turn [of 1 2 ?s3] by (simp add: piton_smp_init_def)
  have 5: "piton_step 2 ?s4 ?s5" using piton_swap [of 1 2 ?s4] by (simp add: numeral_2_eq_2)
  have 6: "piton_step 2 ?s5 ?s6" using piton_wait [of 0 2 ?s5] by (simp add: fun_upd_twist)
  from 1 2 3 4 5 6 show ?thesis by (meson converse_rtranclp_into_rtranclp rtranclp.rtrancl_refl)
qed

theorem piton_barrier_safe_witness:
  "ppc \<lparr>barrier = 2, ppc = ((ppc (piton_smp_init 0))(0 := PDone, 1 := PWait))\<rparr> 1 \<in> {PWait, PDone}"
  by (rule piton_barrier_safe [OF piton_demo_run, of 0 1]) simp_all

text \<open>
  The OpenPiton barrier does not get stuck if the word is 0 at the start and \<open>main\<close> returns. From every
  reachable state it can be opened, with every hart past it, and a run takes at most \<open>4 * N\<close> steps
  other than repeating a wait: no interleaving is a deadlock and none makes progress for ever.
\<close>

theorem piton_barrier_live:
  assumes "(piton_step N)\<^sup>*\<^sup>* (piton_smp_init 0) s"
  shows "(\<exists>s'. (piton_progress N)\<^sup>*\<^sup>* s s' \<and> (\<forall>i < N. ppc s' i = PDone)) \<and>
    (\<forall>n s'. (piton_progress N ^^ n) s s' \<longrightarrow> n \<le> 4 * N)"
proof -
  have "piton_rank p \<le> 4" for p by (cases p) auto
  then have "piton_left N s \<le> 4 * N" unfolding piton_left_def by (rule sum_ranks_le)
  with pbarrier.reachable_opens [OF assms] pbarrier.reachable_bounded [OF assms] show ?thesis
    unfolding piton_opened_def by (meson le_trans)
qed

theorem piton_barrier_live_witness:
  "\<exists>s'. (piton_progress 2)\<^sup>*\<^sup>* (piton_smp_init 0) s' \<and> ppc s' 0 = PDone \<and> ppc s' 1 = PDone"
  using piton_barrier_live [of 2 "piton_smp_init 0"] by auto

section \<open>The CLINT\<close>

text \<open>
  The software interrupt registers of \<open>corev_apu/clint/clint.sv\<close> for \<open>H = NR_CORES\<close> harts, as the RV64
  core reaches them with 32-bit accesses at \<open>CLINT_CTRL_ADDR + 4 * k\<close>. The decoder takes the range
  \<open>[MSIP_BASE : MSIP_BASE + 4 * NR_CORES]\<close>, bounds included, and selects the register by the
  \<open>AddrSelWidth\<close> low bits of \<open>k\<close>. A write stores bit 0 of the word, for odd \<open>k\<close> found in the upper half
  of the bus. A read puts the register in bit 0 of the 64-bit bus whatever \<open>k\<close> is, and the load unit
  takes the upper half of the bus for odd \<open>k\<close>: there it finds 0. A selection outside the registers
  writes nothing and reads an undefined value, \<open>x\<close>.
\<close>

fun clog2 :: "nat \<Rightarrow> nat" where
  "clog2 n = (if n \<le> 1 then 0 else Suc (clog2 ((n + 1) div 2)))"

declare clog2.simps [simp del]

definition clint_width :: "nat \<Rightarrow> nat" where
  "clint_width H = (if H = 1 then 1 else clog2 H)"

definition clint_sel :: "nat \<Rightarrow> nat \<Rightarrow> nat" where
  "clint_sel H k = k mod 2 ^ clint_width H"

definition clint_write :: "nat \<Rightarrow> nat \<Rightarrow> bool \<Rightarrow> (nat \<Rightarrow> bool) \<Rightarrow> nat \<Rightarrow> bool" where
  "clint_write H k v r = (if k \<le> H \<and> clint_sel H k < H then r(clint_sel H k := v) else r)"

definition clint_lw :: "nat \<Rightarrow> bool \<Rightarrow> nat \<Rightarrow> (nat \<Rightarrow> bool) \<Rightarrow> bool" where
  "clint_lw H x k r \<longleftrightarrow> even k \<and> k \<le> H \<and> (if clint_sel H k < H then r (clint_sel H k) else x)"

lemma clog2_le: "n \<le> 2 ^ clog2 n"
proof (induction n rule: clog2.induct)
  case (1 n)
  show ?case
  proof (cases "n \<le> 1")
    case False
    from "1.IH" [OF False] have "n \<le> 2 * 2 ^ clog2 ((n + 1) div 2)" by linarith
    with False show ?thesis by (simp add: clog2.simps [of n])
  qed (simp add: clog2.simps)
qed

lemma clint_sel_small: "k < H \<Longrightarrow> clint_sel H k = k"
  using clog2_le [of H] by (auto simp: clint_sel_def clint_width_def)

lemma clint_write_own: "k < H \<Longrightarrow> clint_write H k v r = r(k := v)"
  by (simp add: clint_write_def clint_sel_small)

text \<open>The register behind the last one is the first one or none.\<close>

lemma clint_sel_end: "0 < H \<Longrightarrow> clint_sel H H < H \<Longrightarrow> clint_sel H H = 0"
  using clog2_le [of H] by (cases "H = 2 ^ clint_width H") (auto simp: clint_sel_def clint_width_def split: if_splits)

lemma clint_write_beyond: "H \<le> k \<Longrightarrow> 0 < H \<Longrightarrow> r 0 \<Longrightarrow> clint_write H k True r = r"
  using clint_sel_end [of H] by (auto simp: clint_write_def fun_upd_idem)

lemma clint_write_ge: "\<forall>l \<ge> H. \<not> r l \<Longrightarrow> \<forall>l \<ge> H. \<not> clint_write H k v r l"
  by (auto simp: clint_write_def)

lemma clint_lw_own: "k < H \<Longrightarrow> clint_lw H x k r \<longleftrightarrow> even k \<and> r k"
  by (simp add: clint_lw_def clint_sel_small)

lemma clint_lw_clear: "\<forall>l. \<not> r l \<Longrightarrow> \<not> clint_lw H False k r"
  by (simp add: clint_lw_def)

section \<open>FPGA: software interrupts\<close>

text \<open>
  Where a hart is: in the single-threaded work between \<open>smp_pause\<close> and \<open>smp_resume\<close> (hart 0 only),
  about to write the \<open>msip\<close> register number \<open>k\<close>, at
  the \<open>wfi\<close> of label 42 and the load of \<open>mip\<close> that follows, about to clear its own register, about
  to load register \<open>k\<close> in the last loop, or past \<open>smp_resume\<close>. A \<open>wfi\<close> may end at any time, so only
  the load of \<open>mip\<close> counts, whose bit 3 is the hart's own \<open>msip\<close> register.
\<close>

datatype smp_pc = SMain | SSend nat | SSleep | SAck | SCheck nat | SGo

record smp =
  msip :: "nat \<Rightarrow> bool"
  pc :: "nat \<Rightarrow> smp_pc"

definition smp_init :: smp where
  "smp_init = \<lparr>msip = (\<lambda>_. False), pc = (\<lambda>i. if i = 0 then SMain else SSleep)\<rparr>"

text \<open>\<open>M\<close> is \<open>MAX_HARTS\<close>, the number of registers that the loops go through.\<close>

definition smp_next_send :: "nat \<Rightarrow> nat \<Rightarrow> smp_pc" where
  "smp_next_send M k = (if k + 1 < M then SSend (k + 1) else SSleep)"

definition smp_next_check :: "nat \<Rightarrow> nat \<Rightarrow> smp_pc" where
  "smp_next_check M k = (if k + 1 < M then SCheck (k + 1) else SGo)"

text \<open>
  The step \<open>smp_main\<close> is the end of the single-threaded work. (The \<open>main\<close> of the FPGA boot loader never
  takes it; see \<open>Boot_Start\<close>.)
\<close>

inductive smp_step :: "nat \<Rightarrow> nat \<Rightarrow> bool \<Rightarrow> smp \<Rightarrow> smp \<Rightarrow> bool" for H M x where
  smp_main: "0 < H \<Longrightarrow> pc s 0 = SMain \<Longrightarrow> smp_step H M x s (s\<lparr>pc := (pc s)(0 := SSend 0)\<rparr>)"
| smp_send: "i < H \<Longrightarrow> pc s i = SSend k \<Longrightarrow>
    smp_step H M x s \<lparr>msip = clint_write H k True (msip s),
      pc = (pc s)(i := smp_next_send M k)\<rparr>"
| smp_wake: "i < H \<Longrightarrow> pc s i = SSleep \<Longrightarrow> msip s i \<Longrightarrow> smp_step H M x s (s\<lparr>pc := (pc s)(i := SAck)\<rparr>)"
| smp_sleep: "i < H \<Longrightarrow> pc s i = SSleep \<Longrightarrow> \<not> msip s i \<Longrightarrow> smp_step H M x s s"
| smp_ack: "i < H \<Longrightarrow> pc s i = SAck \<Longrightarrow>
    smp_step H M x s \<lparr>msip = clint_write H i False (msip s), pc = (pc s)(i := SCheck 0)\<rparr>"
| smp_check: "i < H \<Longrightarrow> pc s i = SCheck k \<Longrightarrow> \<not> clint_lw H x k (msip s) \<Longrightarrow>
    smp_step H M x s (s\<lparr>pc := (pc s)(i := smp_next_check M k)\<rparr>)"
| smp_check_again: "i < H \<Longrightarrow> pc s i = SCheck k \<Longrightarrow> clint_lw H x k (msip s) \<Longrightarrow> smp_step H M x s s"

text \<open>How many registers hart 0 has written, and what that says about a hart at each place.\<close>

fun smp_sent :: "nat \<Rightarrow> smp_pc \<Rightarrow> nat" where
  "smp_sent M SMain = 0"
| "smp_sent M (SSend k) = k"
| "smp_sent M _ = M"

fun smp_hart_ok :: "nat \<Rightarrow> nat \<Rightarrow> nat \<Rightarrow> (nat \<Rightarrow> bool) \<Rightarrow> nat \<Rightarrow> smp_pc \<Rightarrow> bool" where
  "smp_hart_ok H M n r i SMain = (i = 0 \<and> \<not> r 0)"
| "smp_hart_ok H M n r i (SSend k) = (i = 0 \<and> k < M \<and> (r 0 \<longleftrightarrow> 0 < k))"
| "smp_hart_ok H M n r i SSleep = (r i \<longleftrightarrow> i < n)"
| "smp_hart_ok H M n r i SAck = (r i \<and> i < n)"
| "smp_hart_ok H M n r i (SCheck k) = (\<not> r i \<and> i < n \<and> k < M \<and> (0 < k \<longrightarrow> n = M) \<and>
     (\<forall>l < k. even l \<longrightarrow> l < H \<longrightarrow> \<not> r l))"
| "smp_hart_ok H M n r i SGo = (n = M \<and> \<not> r i \<and> (\<forall>l < H. even l \<longrightarrow> \<not> r l))"

definition smp_inv :: "nat \<Rightarrow> nat \<Rightarrow> smp \<Rightarrow> bool" where
  "smp_inv H M s \<longleftrightarrow> (\<forall>i \<ge> H. \<not> msip s i) \<and>
    (\<forall>i < H. smp_hart_ok H M (smp_sent M (pc s 0)) (msip s) i (pc s i))"

lemma smp_invD: "smp_inv H M s \<Longrightarrow> i < H \<Longrightarrow> smp_hart_ok H M (smp_sent M (pc s 0)) (msip s) i (pc s i)"
  by (simp add: smp_inv_def)

lemma smp_inv_init: "smp_inv H M smp_init"
  by (simp add: smp_inv_def smp_init_def)

text \<open>A hart that was woken and reads register 0 as clear knows that every register was written.\<close>

lemma smp_all_sent:
  assumes "smp_inv H M s" "0 < H" "i < smp_sent M (pc s 0)" "\<not> msip s 0"
  shows "smp_sent M (pc s 0) = M"
  using smp_invD [OF assms(1,2)] assms(3,4) by (cases "pc s 0") auto

lemma smp_invI:
  assumes "\<And>i. H \<le> i \<Longrightarrow> \<not> r i" "smp_sent M (p 0) = n" "\<And>i. i < H \<Longrightarrow> smp_hart_ok H M n r i (p i)"
  shows "smp_inv H M \<lparr>msip = r, pc = p\<rparr>"
  using assms by (simp add: smp_inv_def)

lemma smp_inv_send:
  assumes inv: "smp_inv H M s" and i: "i < H" "pc s i = SSend k"
  shows "smp_inv H M \<lparr>msip = clint_write H k True (msip s),
    pc = (pc s)(i := smp_next_send M k)\<rparr>"
proof -
  have i0: "i = 0" and k: "k < M" "msip s 0 \<longleftrightarrow> 0 < k" using smp_invD [OF inv i(1)] i(2) by auto
  have w: "clint_write H k True (msip s) = (if k < H then (msip s)(k := True) else msip s)"
    using clint_write_own [of k H] clint_write_beyond [of H k "msip s"] i(1) k(2) by auto
  show ?thesis unfolding w i0
  proof (rule smp_invI)
    show "smp_sent M (((pc s)(0 := smp_next_send M k)) 0) = k + 1" using k by (auto simp: smp_next_send_def)
    show "H \<le> j \<Longrightarrow> \<not> (if k < H then (msip s)(k := True) else msip s) j" for j
      using inv by (auto simp: smp_inv_def)
    show "smp_hart_ok H M (k + 1) (if k < H then (msip s)(k := True) else msip s) j
      (((pc s)(0 := smp_next_send M k)) j)" if "j < H" for j
      using smp_invD [OF inv that] that k i i0 by (cases "pc s j"; cases "j = 0") (auto simp: smp_next_send_def)
  qed
qed

lemma smp_inv_ack:
  assumes inv: "smp_inv H M s" and i: "i < H" "pc s i = SAck"
  shows "smp_inv H M \<lparr>msip = clint_write H i False (msip s), pc = (pc s)(i := SCheck 0)\<rparr>"
  unfolding clint_write_own [OF i(1)]
proof (rule smp_invI)
  let ?n = "smp_sent M (pc s 0)"
  have r: "msip s i" "i < ?n" using smp_invD [OF inv i(1)] i(2) by auto
  show n: "smp_sent M (((pc s)(i := SCheck 0)) 0) = ?n" using i by auto
  show "H \<le> j \<Longrightarrow> \<not> ((msip s)(i := False)) j" for j using inv by (auto simp: smp_inv_def)
  have M: "0 < M" using r(2) smp_invD [OF inv, of 0] i by (cases "pc s 0") auto
  show "smp_hart_ok H M ?n ((msip s)(i := False)) j (((pc s)(i := SCheck 0)) j)" if "j < H" for j
    using smp_invD [OF inv that] that r i M by (cases "pc s j"; cases "j = i") auto
qed

lemma smp_inv_check:
  assumes inv: "smp_inv H M s" and i: "i < H" "pc s i = SCheck k" and k: "\<not> clint_lw H x k (msip s)"
    and HM: "H \<le> M"
  shows "smp_inv H M (s\<lparr>pc := (pc s)(i := smp_next_check M k)\<rparr>)"
proof -
  let ?n = "smp_sent M (pc s 0)" and ?p = "(pc s)(i := smp_next_check M k)"
  have ok: "\<not> msip s i" "i < ?n" "\<forall>l < k. even l \<longrightarrow> l < H \<longrightarrow> \<not> msip s l" "k < M" "0 < k \<longrightarrow> ?n = M"
    using smp_invD [OF inv i(1)] i(2) by auto
  have n: "?n = M" using smp_all_sent [OF inv _ ok(2)] ok(5) k i(1) by (cases "k = 0") (auto simp: clint_lw_own)
  have H: "\<forall>i \<ge> H. \<not> msip s i" using inv by (simp add: smp_inv_def)
  have below: "\<not> msip s l" if "l < k + 1" "even l" "l < H" for l
    using that ok(3) k by (cases "l = k") (auto simp: clint_lw_own)
  have hart: "smp_hart_ok H M ?n (msip s) j (?p j)" if "j < H" for j
  proof (cases "j = i")
    case True
    with below ok n HM show ?thesis by (auto simp: smp_next_check_def)
  next
    case False
    then show ?thesis using smp_invD [OF inv that] by simp
  qed
  have "smp_sent M (?p 0) = ?n" using n i by (auto simp: smp_next_check_def)
  then have "smp_inv H M \<lparr>msip = msip s, pc = ?p\<rparr>" using H hart by (intro smp_invI [of H _ M _ ?n]) auto
  then show ?thesis by (simp add: smp_inv_def)
qed

lemma smp_inv_step: "smp_step H M x s s' \<Longrightarrow> H \<le> M \<Longrightarrow> smp_inv H M s \<Longrightarrow> smp_inv H M s'"
proof (induction rule: smp_step.induct)
  case (smp_main s)
  then show ?case by (auto simp: smp_inv_def)
next
  case (smp_wake i s)
  then show ?case using smp_invD [OF smp_wake(5,1)] by (auto simp: smp_inv_def)
qed (auto simp del: One_nat_def intro: smp_inv_send smp_inv_ack smp_inv_check)

text \<open>Steps other than one more turn of a waiting loop.\<close>

definition smp_progress :: "nat \<Rightarrow> nat \<Rightarrow> bool \<Rightarrow> smp \<Rightarrow> smp \<Rightarrow> bool" where
  "smp_progress H M x s s' \<longleftrightarrow> smp_step H M x s s' \<and> pc s' \<noteq> pc s"

fun smp_rank :: "nat \<Rightarrow> smp_pc \<Rightarrow> nat" where
  "smp_rank M SMain = 2 * M + 3"
| "smp_rank M (SSend k) = M + 2 + (M - k)"
| "smp_rank M SSleep = M + 2"
| "smp_rank M SAck = M + 1"
| "smp_rank M (SCheck k) = M - k"
| "smp_rank M SGo = 0"

definition smp_left :: "nat \<Rightarrow> nat \<Rightarrow> smp \<Rightarrow> nat" where
  "smp_left H M s = (\<Sum>i < H. smp_rank M (pc s i))"

lemma smp_left_step:
  "smp_step H M x s s' \<Longrightarrow> smp_inv H M s \<Longrightarrow> pc s' \<noteq> pc s \<Longrightarrow> smp_left H M s' < smp_left H M s"
proof (induction rule: smp_step.induct)
  case (smp_send i s k)
  have "smp_rank M (smp_next_send M k) < smp_rank M (pc s i)"
    using smp_invD [OF smp_send(3,1)] smp_send(2) by (auto simp: smp_next_send_def)
  with smp_send(1) show ?case unfolding smp_left_def smp.select_convs by (rule sum_update_less)
next
  case (smp_check i s k)
  have "smp_rank M (smp_next_check M k) < smp_rank M (pc s i)"
    using smp_invD [OF smp_check(4,1)] smp_check(2) by (auto simp: smp_next_check_def)
  with smp_check(1) show ?case unfolding smp_left_def by (simp del: fun_upd_apply add: sum_update_less)
qed (auto simp: smp_left_def simp del: fun_upd_apply intro!: sum_update_less)

lemma smp_progressI:
  "smp_step H M x s s' \<Longrightarrow> pc s' = (pc s)(i := p) \<Longrightarrow> pc s i \<noteq> p \<Longrightarrow> \<exists>s'. smp_progress H M x s s'"
  unfolding smp_progress_def using fun_upd_idem_iff by metis

lemma smp_hart_moves:
  assumes inv: "smp_inv H M s" and i: "i < H" "pc s i \<noteq> SGo"
    and ready: "pc s i = SSleep \<Longrightarrow> msip s i" "\<And>k. pc s i = SCheck k \<Longrightarrow> \<not> clint_lw H x k (msip s)"
  shows "\<exists>s'. smp_progress H M x s s'"
proof (cases "pc s i")
  case SMain
  with smp_invD [OF inv i(1)] have "i = 0" by simp
  with SMain i smp_main [of H s M x] show ?thesis by (intro smp_progressI [of H M x s _ 0 "SSend 0"]) auto
next
  case (SSend k)
  then show ?thesis by (intro smp_progressI [OF smp_send [OF i(1) SSend], where i = i and p = "smp_next_send M k"])
    (auto simp: smp_next_send_def)
next
  case SSleep
  then show ?thesis by (intro smp_progressI [OF smp_wake [OF i(1) SSleep ready(1)], where i = i and p = SAck]) auto
next
  case SAck
  then show ?thesis by (intro smp_progressI [OF smp_ack [OF i(1) SAck], where i = i and p = "SCheck 0"]) auto
next
  case (SCheck k)
  then show ?thesis by (intro smp_progressI [OF smp_check [OF i(1) SCheck ready(2)], where i = i and p = "smp_next_check M k"])
    (auto simp: smp_next_check_def)
qed (use i in simp)

definition smp_opened :: "nat \<Rightarrow> smp \<Rightarrow> bool" where
  "smp_opened H s \<longleftrightarrow> (\<forall>i < H. pc s i = SGo)"

text \<open>
  Hart 0 moves while it is sending; then the harts whose register is set; then everybody, if a read
  outside the registers gives 0.
\<close>

lemma smp_can_progress:
  assumes inv: "smp_inv H M s" and HM: "H \<le> M" and i: "i < H" "pc s i \<noteq> SGo"
  shows "\<exists>s'. smp_progress H M False s s'"
proof (cases "smp_sent M (pc s 0) = M")
  case False
  then show ?thesis using smp_hart_moves [OF inv, of 0] i by (cases "pc s 0") auto
next
  case True
  show ?thesis
  proof (cases "\<exists>j < H. msip s j")
    case False
    with inv have clear: "\<not> msip s k" for k by (cases "k < H") (auto simp: smp_inv_def)
    have "pc s i \<noteq> SSleep" using smp_invD [OF inv i(1)] True clear i(1) HM by auto
    with smp_hart_moves [OF inv i, of False] clear clint_lw_clear show ?thesis by blast
  next
    case set: True
    then obtain j where j: "j < H" "msip s j" by auto
    have "pc s j \<noteq> SGo" "pc s j \<noteq> SCheck k" for k using smp_invD [OF inv j(1)] j by auto
    with smp_hart_moves [OF inv j(1)] j(2) show ?thesis by auto
  qed
qed

text \<open>\<open>A\<close> is the number of registers of harts that are not there: \<open>MAX_HARTS\<close> is at least the number
  of harts.\<close>

interpretation ibarrier: start_barrier "smp_step H (H + A) False" "smp_progress H (H + A) False" smp_init
    "smp_inv H (H + A)" "smp_left H (H + A)" "smp_opened H" for H A
proof unfold_locales
  show "smp_progress H (H + A) False s s' \<Longrightarrow> smp_inv H (H + A) s \<Longrightarrow> smp_left H (H + A) s' < smp_left H (H + A) s" for s s'
    using smp_left_step [of H "H + A" False s s'] by (simp add: smp_progress_def)
  show "smp_inv H (H + A) s \<Longrightarrow> \<not> smp_opened H s \<Longrightarrow> \<exists>s'. smp_progress H (H + A) False s s'" for s
    using smp_can_progress [of H "H + A" s] by (auto simp: smp_opened_def)
  show "smp_step H (H + A) False s s' \<Longrightarrow> smp_inv H (H + A) s \<Longrightarrow> smp_inv H (H + A) s'" for s s'
    by (rule smp_inv_step) auto
qed (auto simp: smp_progress_def smp_inv_init)

lemma smp_reachable_inv:
  assumes "H \<le> M" "(smp_step H M x)\<^sup>*\<^sup>* smp_init s"
  shows "smp_inv H M s"
  using assms(2) by (induction rule: rtranclp_induct) (auto intro: smp_inv_init smp_inv_step [OF _ assms(1)])

lemma smp_left_le:
  assumes "H \<le> M"
  shows "smp_left H M s \<le> (2 * M + 3) * H"
proof -
  have "smp_rank M p \<le> 2 * M + 3" for p by (cases p) auto
  then show ?thesis unfolding smp_left_def by (rule sum_ranks_le)
qed

text \<open>
  Claim C5: \<open>smp_resume\<close> of the FPGA boot code, around any single-threaded work that ends, on the CLINT
  of the repository: for every number of harts up to \<open>MAX_HARTS\<close> and every interleaving, once some hart
  is past it, hart 0 has finished the work and sent all interrupts, and every hart with an even number
  has woken up and acknowledged its interrupt. Nothing is promised for the harts with odd numbers: the
  CLINT shows their registers as 0. For one hart, as the FPGA has it, this is all that is asked.
\<close>

theorem smp_resume_safe:
  assumes "H \<le> M" and "(smp_step H M x)\<^sup>*\<^sup>* smp_init s" and "i < H" and "pc s i = SGo" and "j < H" and "even j"
  shows "(pc s j = SGo \<or> (\<exists>k < M. pc s j = SCheck k)) \<and> \<not> msip s j"
proof -
  note inv = smp_invD [OF smp_reachable_inv [OF assms(1,2)]]
  have "smp_sent M (pc s 0) = M" "\<forall>l < H. even l \<longrightarrow> \<not> msip s l" using inv [OF assms(3)] assms(4) by auto
  moreover have "\<not> (pc s 0 = SSend k)" for k using inv [of 0] assms(3) calculation by auto
  ultimately show ?thesis using inv [OF assms(5)] assms(1,5,6) by (cases "pc s j") auto
qed

text \<open>Hart 0 running alone through the loops, when there are two harts.\<close>

lemma smp_sends_rest:
  assumes "r 0" "k < M" "2 \<le> k"
  shows "(smp_step 2 M x)\<^sup>*\<^sup>* \<lparr>msip = r, pc = q(0 := SSend k)\<rparr> \<lparr>msip = r, pc = q(0 := SSleep)\<rparr>"
  using assms(2,3)
proof (induction "M - k" arbitrary: k)
  case (Suc d)
  have "smp_step 2 M x \<lparr>msip = r, pc = q(0 := SSend k)\<rparr> \<lparr>msip = r, pc = q(0 := smp_next_send M k)\<rparr>"
    using smp_send [of 0 2 "\<lparr>msip = r, pc = q(0 := SSend k)\<rparr>" k M x] clint_write_beyond [of 2 k r] Suc(4) assms(1) by simp
  moreover have "k + 1 < M \<Longrightarrow>
      (smp_step 2 M x)\<^sup>*\<^sup>* \<lparr>msip = r, pc = q(0 := SSend (k + 1))\<rparr> \<lparr>msip = r, pc = q(0 := SSleep)\<rparr>"
    using Suc by (intro Suc.hyps(1)) auto
  ultimately show ?case
    by (cases "k + 1 < M") (auto simp: smp_next_send_def intro: converse_rtranclp_into_rtranclp)
qed simp

lemma smp_checks_rest:
  assumes "\<not> r 0" "k < M"
  shows "(smp_step 2 M x)\<^sup>*\<^sup>* \<lparr>msip = r, pc = q(0 := SCheck k)\<rparr> \<lparr>msip = r, pc = q(0 := SGo)\<rparr>"
  using assms(2)
proof (induction "M - k" arbitrary: k)
  case (Suc d)
  have "clint_sel 2 2 = 0" by (simp add: clint_sel_def clint_width_def clog2.simps)
  then have "\<not> clint_lw 2 x k r" using assms(1) clint_lw_own [of k 2 x r] by (cases "k = 2"; cases "k = 0") (auto simp: clint_lw_def)
  then have "smp_step 2 M x \<lparr>msip = r, pc = q(0 := SCheck k)\<rparr> \<lparr>msip = r, pc = q(0 := smp_next_check M k)\<rparr>"
    using smp_check [of 0 2 "\<lparr>msip = r, pc = q(0 := SCheck k)\<rparr>" k x M] by simp
  moreover have "k + 1 < M \<Longrightarrow>
      (smp_step 2 M x)\<^sup>*\<^sup>* \<lparr>msip = r, pc = q(0 := SCheck (k + 1))\<rparr> \<lparr>msip = r, pc = q(0 := SGo)\<rparr>"
    using Suc by (intro Suc.hyps(1)) auto
  ultimately show ?case
    by (cases "k + 1 < M") (auto simp: smp_next_check_def intro: converse_rtranclp_into_rtranclp)
qed simp

lemma smp_early_run:
  assumes "2 < M"
  shows "(smp_step 2 M x)\<^sup>*\<^sup>* smp_init \<lparr>msip = (\<lambda>_. False)(1 := True), pc = (\<lambda>_. SSleep)(0 := SGo)\<rparr>"
proof -
  let ?s = "\<lambda>a b p. \<lparr>msip = (\<lambda>_. False)(0 := a, 1 := b), pc = (\<lambda>_. SSleep)(0 := p)\<rparr>"
  have 0: "smp_init = ?s False False SMain" by (auto simp: smp_init_def fun_eq_iff)
  have 1: "smp_step 2 M x (?s False False SMain) (?s False False (SSend 0))"
    using smp_main [of 2 "?s False False SMain" M x] by simp
  have 2: "smp_step 2 M x (?s False False (SSend 0)) (?s True False (SSend 1))"
    using smp_send [of 0 2 "?s False False (SSend 0)" 0 M x] assms
    by (simp add: clint_write_own smp_next_send_def fun_upd_twist)
  have 3: "smp_step 2 M x (?s True False (SSend 1)) (?s True True (SSend 2))"
    using smp_send [of 0 2 "?s True False (SSend 1)" 1 M x] assms
    by (simp add: clint_write_own smp_next_send_def numeral_2_eq_2)
  have 4: "(smp_step 2 M x)\<^sup>*\<^sup>* (?s True True (SSend 2)) (?s True True SSleep)"
    by (rule smp_sends_rest) (use assms in auto)
  have 5: "smp_step 2 M x (?s True True SSleep) (?s True True SAck)"
    using smp_wake [of 0 2 "?s True True SSleep" M x] by simp
  have 6: "smp_step 2 M x (?s True True SAck) (?s False True (SCheck 0))"
    using smp_ack [of 0 2 "?s True True SAck" M x] by (simp add: clint_write_own fun_upd_twist)
  have 7: "(smp_step 2 M x)\<^sup>*\<^sup>* (?s False True (SCheck 0)) (?s False True SGo)"
    by (rule smp_checks_rest) (use assms in auto)
  have a: "(smp_step 2 M x)\<^sup>*\<^sup>* smp_init (?s True True (SSend 2))"
    unfolding 0 by (rule 1 2 3 converse_rtranclp_into_rtranclp rtranclp.rtrancl_refl)+
  have b: "(smp_step 2 M x)\<^sup>*\<^sup>* (?s True True SSleep) (?s False True (SCheck 0))"
    by (rule 5 6 converse_rtranclp_into_rtranclp rtranclp.rtrancl_refl)+
  have "(smp_step 2 M x)\<^sup>*\<^sup>* smp_init (?s False True SGo)"
    by (rule rtranclp_trans [OF rtranclp_trans [OF rtranclp_trans [OF a 4] b] 7])
  then show ?thesis by (simp add: fun_upd_idem)
qed

theorem smp_resume_safe_witness:
  "(let s = \<lparr>msip = (\<lambda>_. False)(1 := True), pc = (\<lambda>_. SSleep)(0 := SGo)\<rparr> in
    (pc s 0 = SGo \<or> (\<exists>k < 256. pc s 0 = SCheck k)) \<and> \<not> msip s 0)"
  unfolding Let_def by (rule smp_resume_safe [OF _ smp_early_run, of 256 0]) simp_all

text \<open>
  With two harts, \<open>smp_resume\<close> lets hart 0 leave before hart 1 has woken up: there is a run
  after which hart 0 is past it while hart 1 still sleeps with its interrupt pending, because hart 0
  reads the odd register as 0.
\<close>

theorem smp_resume_misses_odd:
  "\<exists>s. (smp_step 2 256 x)\<^sup>*\<^sup>* smp_init s \<and> pc s 0 = SGo \<and> pc s 1 = SSleep \<and> msip s 1"
  by (rule exI, rule conjI, rule smp_early_run) simp_all

text \<open>
  Claim C31: \<open>smp_resume\<close> of the FPGA boot code does not get stuck. From every reachable state in which
  the single-threaded work has ended, all harts can get past it without waiting for that again, and a run
  takes at most \<open>(2 * MAX_HARTS + 3)\<close> steps per hart other than repeating a wait; this takes a CLINT that
  reads as 0 outside its registers.
\<close>

theorem smp_resume_live:
  assumes "H \<le> M" and "(smp_step H M False)\<^sup>*\<^sup>* smp_init s" and "pc s 0 \<noteq> SMain"
  shows "(\<exists>s'. (smp_progress H M False)\<^sup>*\<^sup>* s s' \<and> (\<forall>i < H. pc s' i = SGo)) \<and>
    (\<forall>n s'. (smp_progress H M False ^^ n) s s' \<longrightarrow> n \<le> (2 * M + 3) * H)"
proof -
  obtain A where M: "M = H + A" using assms(1) le_Suc_ex by blast
  note run = assms(2) [unfolded M]
  show ?thesis
    using ibarrier.reachable_opens [OF run] ibarrier.reachable_bounded [OF run] smp_left_le [OF assms(1), of s]
    unfolding smp_opened_def M by (meson le_trans)
qed

theorem smp_resume_live_witness:
  "\<exists>s'. (smp_progress 2 256 False)\<^sup>*\<^sup>* \<lparr>msip = (\<lambda>_. False)(1 := True), pc = (\<lambda>_. SSleep)(0 := SGo)\<rparr> s' \<and>
    pc s' 0 = SGo \<and> pc s' 1 = SGo"
  using smp_resume_live [OF _ smp_early_run, of 256] by auto

end
