(* ===== verification/Bitbang.thy ===== *)
theory Bitbang
  imports Boot_Prelude
begin

text \<open>
  The JTAG remote-bitbang server of the debug test bench,
  \<open>corev_apu/riscv-dbg/tb/remote_bitbang/remote_bitbang.c\<close> with its caller \<open>sim_jtag.c\<close> and its
  test \<open>rbs_test.c\<close>. A debugger connects over TCP and sends one-character commands; every
  simulation tick executes one of them and drives the JTAG pins.

  The global variables are the record \<open>rbs\<close>. The operating system is a parameter: a record \<open>sys\<close>
  says how it answers each system call, and its own state is a field. A run of the server code is
  \<open>None\<close> when it does not return, \<open>Some (Inl s)\<close> when it calls \<open>abort\<close> in state \<open>s\<close>, and
  \<open>Some (Inr r)\<close> when it returns. The messages on standard error are recorded by their format
  strings; \<open>VERBOSE\<close> is 0, so the messages it guards are not there.
\<close>

section \<open>System calls\<close>

text \<open>The error numbers the code distinguishes.\<close>

datatype errno = EAGAIN | EOTHER int

record 'o sys =
  sys_socket :: "'o \<Rightarrow> (errno + int) \<times> 'o"
  sys_nonblock :: "int \<Rightarrow> 'o \<Rightarrow> 'o"
  sys_reuseaddr :: "int \<Rightarrow> 'o \<Rightarrow> (errno + unit) \<times> 'o"
  sys_bind :: "int \<Rightarrow> u16 \<Rightarrow> 'o \<Rightarrow> (errno + unit) \<times> 'o"
  sys_listen :: "int \<Rightarrow> int \<Rightarrow> 'o \<Rightarrow> (errno + unit) \<times> 'o"
  sys_getsockname :: "int \<Rightarrow> 'o \<Rightarrow> (errno + u16) \<times> 'o"
  sys_accept :: "int \<Rightarrow> 'o \<Rightarrow> (errno + int) \<times> 'o"
  sys_read1 :: "int \<Rightarrow> 'o \<Rightarrow> (errno + char option) \<times> 'o"
  sys_write1 :: "int \<Rightarrow> char \<Rightarrow> 'o \<Rightarrow> (errno + nat) \<times> 'o"
  sys_close :: "int \<Rightarrow> 'o \<Rightarrow> 'o"

text \<open>
  \<open>sys_read1\<close> is \<open>read\<close> of one byte: an error, end of file (\<open>None\<close>, the call returns 0) or the byte.
  \<open>sys_write1\<close> is \<open>write\<close> of one byte with the number of bytes written.
\<close>

record 'o rbs =
  rbs_err :: int
  tck :: u8
  tms :: u8
  tdi :: u8
  trstn :: u8
  tdo :: u8
  quit :: u8
  socket_fd :: int
  client_fd :: int
  recv_start :: int
  recv_end :: int
  os :: 'o
  stderr :: "string list"

type_synonym ('o, 'a) run = "('o rbs + 'a) option"

definition say_err :: "string \<Rightarrow> 'o rbs \<Rightarrow> 'o rbs" where
  "say_err fmt s = s\<lparr>stderr := stderr s @ [fmt]\<rparr>"

definition abort :: "string \<Rightarrow> 'o rbs \<Rightarrow> ('o, 'a) run" where
  "abort fmt s = Some (Inl (say_err fmt s))"

definition and_then :: "('e + 'a) option \<Rightarrow> ('a \<Rightarrow> ('e + 'b) option) \<Rightarrow> ('e + 'b) option" where
  "and_then m f = m \<bind> (\<lambda>r. case r of Inl e \<Rightarrow> Some (Inl e) | Inr x \<Rightarrow> f x)"

text \<open>A call that must not fail: its state change, and \<open>abort\<close> with a message if it does.\<close>

definition must :: "string \<Rightarrow> ('o \<Rightarrow> (errno + 'v) \<times> 'o) \<Rightarrow> 'o rbs \<Rightarrow> ('o, 'v \<times> 'o rbs) run" where
  "must fmt call s =
     (let (r, o') = call (os s); s = s\<lparr>os := o'\<rparr> in
      case r of Inl _ \<Rightarrow> abort fmt s | Inr v \<Rightarrow> Some (Inr (v, s)))"

abbreviation LF :: string where "LF \<equiv> [CHR 0x0A]"

section \<open>remote_bitbang.c\<close>

text \<open>On failure \<open>socket\<close> returns -1, which is assigned to \<open>socket_fd\<close> before the test.\<close>

definition rbs_init :: "'o sys \<Rightarrow> u16 \<Rightarrow> 'o rbs \<Rightarrow> ('o, int \<times> 'o rbs) run" where
  "rbs_init net port s =
     (let s = s\<lparr>socket_fd := 0, client_fd := 0, recv_start := 0, recv_end := 0, rbs_err := 0\<rparr>;
          (r, o') = sys_socket net (os s); s = s\<lparr>os := o'\<rparr> in
      case r of
        Inl _ \<Rightarrow> abort (''remote_bitbang failed to make socket: %s (%d)'' @ LF) (s\<lparr>socket_fd := - 1\<rparr>)
      | Inr fd \<Rightarrow>
          (let s = s\<lparr>socket_fd := fd, os := sys_nonblock net fd (os s)\<rparr> in
           and_then (must (''remote_bitbang failed setsockopt: %s (%d)'' @ LF) (sys_reuseaddr net fd) s) (\<lambda>(_, s).
           and_then (must (''remote_bitbang failed to bind socket: %s (%d)'' @ LF) (sys_bind net fd port) s) (\<lambda>(_, s).
           and_then (must (''remote_bitbang failed to listen on socket: %s (%d)'' @ LF) (sys_listen net fd 1) s) (\<lambda>(_, s).
           and_then (must (''remote_bitbang getsockname failed: %s (%d)'' @ LF) (sys_getsockname net fd) s) (\<lambda>(_, s).
           (let s = s\<lparr>tck := 1, tms := 1, tdi := 1, trstn := 1, quit := 0\<rparr>;
                s = say_err (''JTAG remote bitbang server is ready'' @ LF) s;
                s = say_err (''Listening on port %d'' @ LF) s in
            Some (Inr (1, s)))))))))"

partial_function (option) rbs_accept_loop :: "'o sys \<Rightarrow> 'o rbs \<Rightarrow> ('o, 'o rbs) run" where
  "rbs_accept_loop net s =
     (let (r, o') = sys_accept net (socket_fd s) (os s); s = s\<lparr>os := o'\<rparr> in
      case r of
        Inl e \<Rightarrow>
          (let s = s\<lparr>client_fd := - 1\<rparr> in
           if e = EAGAIN then rbs_accept_loop net s
           else abort (''failed to accept on socket: %s (%d)'' @ LF) s)
      | Inr fd \<Rightarrow>
          Some (Inr (say_err ''Accepted successfully.'' (s\<lparr>client_fd := fd, os := sys_nonblock net fd (os s)\<rparr>))))"

definition rbs_accept :: "'o sys \<Rightarrow> 'o rbs \<Rightarrow> ('o, 'o rbs) run" where
  "rbs_accept net s = rbs_accept_loop net (say_err (''Attempting to accept client socket'' @ LF) s)"

definition rbs_reset :: "'o rbs \<Rightarrow> 'o rbs" where
  "rbs_reset s = s"

definition rbs_set_pins :: "u8 \<Rightarrow> u8 \<Rightarrow> u8 \<Rightarrow> 'o rbs \<Rightarrow> 'o rbs" where
  "rbs_set_pins c m d s = s\<lparr>tck := c, tms := m, tdi := d\<rparr>"

text \<open>The first loop of \<open>rbs_execute_command\<close>: the command, or \<open>None\<close> at the early return.\<close>

partial_function (option) rbs_read_loop :: "'o sys \<Rightarrow> 'o rbs \<Rightarrow> ('o, char option \<times> 'o rbs) run" where
  "rbs_read_loop net s =
     (let (r, o') = sys_read1 net (client_fd s) (os s); s = s\<lparr>os := o'\<rparr> in
      case r of
        Inl e \<Rightarrow> if e = EAGAIN then rbs_read_loop net s
                 else abort (''remote_bitbang failed to read on socket: %s (%d)'' @ LF) s
      | Inr None \<Rightarrow> Some (Inr (None, say_err (''No command received. Stopping further reads.'' @ LF) s))
      | Inr (Some c) \<Rightarrow> Some (Inr (Some c, s)))"

text \<open>The switch: \<open>dosend\<close>, \<open>tosend\<close> and the state after it.\<close>

definition rbs_switch :: "char \<Rightarrow> 'o rbs \<Rightarrow> bool \<times> char \<times> 'o rbs" where
  "rbs_switch command s =
     (if command = CHR ''B'' then (False, CHR ''?'', s)
      else if command = CHR ''b'' then (False, CHR ''?'', s)
      else if command = CHR ''r'' then (False, CHR ''?'', rbs_reset s)
      else if command = CHR ''s'' then (False, CHR ''?'', rbs_reset s)
      else if command = CHR ''t'' then (False, CHR ''?'', rbs_reset s)
      else if command = CHR ''u'' then (False, CHR ''?'', rbs_reset s)
      else if command = CHR ''0'' then (False, CHR ''?'', rbs_set_pins 0 0 0 s)
      else if command = CHR ''1'' then (False, CHR ''?'', rbs_set_pins 0 0 1 s)
      else if command = CHR ''2'' then (False, CHR ''?'', rbs_set_pins 0 1 0 s)
      else if command = CHR ''3'' then (False, CHR ''?'', rbs_set_pins 0 1 1 s)
      else if command = CHR ''4'' then (False, CHR ''?'', rbs_set_pins 1 0 0 s)
      else if command = CHR ''5'' then (False, CHR ''?'', rbs_set_pins 1 0 1 s)
      else if command = CHR ''6'' then (False, CHR ''?'', rbs_set_pins 1 1 0 s)
      else if command = CHR ''7'' then (False, CHR ''?'', rbs_set_pins 1 1 1 s)
      else if command = CHR ''R'' then (True, if tdo s \<noteq> 0 then CHR ''1'' else CHR ''0'', s)
      else if command = CHR ''Q'' then (False, CHR ''?'', s\<lparr>quit := 1\<rparr>)
      else (False, CHR ''?'', say_err (''remote_bitbang got unsupported command '' @ [CHR 0x27] @ ''%c'' @ [CHR 0x27] @ LF) s))"

partial_function (option) rbs_send_loop :: "'o sys \<Rightarrow> char \<Rightarrow> 'o rbs \<Rightarrow> ('o, 'o rbs) run" where
  "rbs_send_loop net c s =
     (let (r, o') = sys_write1 net (client_fd s) c (os s); s = s\<lparr>os := o'\<rparr> in
      case r of
        Inl e \<Rightarrow> abort (''failed to write to socket: %s (%d)'' @ LF) s
      | Inr bytes \<Rightarrow> if bytes > 0 then Some (Inr s) else rbs_send_loop net c s)"

definition rbs_hangup :: "'o sys \<Rightarrow> 'o rbs \<Rightarrow> 'o rbs" where
  "rbs_hangup net s =
     (if quit s \<noteq> 0 then
        (let s = say_err (''Remote end disconnected'' @ LF) s in
         s\<lparr>os := sys_close net (client_fd s) (os s), client_fd := 0\<rparr>)
      else s)"

definition rbs_obey :: "'o sys \<Rightarrow> char \<Rightarrow> 'o rbs \<Rightarrow> ('o, 'o rbs) run" where
  "rbs_obey net command s =
     (let (dosend, tosend, s) = rbs_switch command s in
      and_then (if dosend then rbs_send_loop net tosend s else Some (Inr s))
        (\<lambda>s. Some (Inr (rbs_hangup net s))))"

definition rbs_execute_command :: "'o sys \<Rightarrow> 'o rbs \<Rightarrow> ('o, 'o rbs) run" where
  "rbs_execute_command net s =
     and_then (rbs_read_loop net s)
       (\<lambda>(r, s). case r of None \<Rightarrow> Some (Inr s) | Some command \<Rightarrow> rbs_obey net command s)"

text \<open>The four values that \<open>rbs_tick\<close> stores through its pointers.\<close>

type_synonym pins = "u8 \<times> u8 \<times> u8 \<times> u8"

definition rbs_pins :: "'o rbs \<Rightarrow> pins" where
  "rbs_pins s = (tck s, tms s, tdi s, trstn s)"

definition rbs_tick :: "'o sys \<Rightarrow> u8 \<Rightarrow> 'o rbs \<Rightarrow> ('o, pins \<times> 'o rbs) run" where
  "rbs_tick net jtag_tdo s =
     and_then (if client_fd s > 0 then rbs_execute_command net (s\<lparr>tdo := jtag_tdo\<rparr>) else rbs_accept net s)
       (\<lambda>s. Some (Inr (rbs_pins s, s)))"

definition rbs_done :: "'o rbs \<Rightarrow> u8" where
  "rbs_done s = quit s"

definition rbs_exit_code :: "'o rbs \<Rightarrow> int" where
  "rbs_exit_code s = rbs_err s"

section \<open>sim_jtag.c and rbs_test.c\<close>

text \<open>The variable \<open>init\<close> of \<open>sim_jtag.c\<close> is passed along with the server. The port number is
  converted to 16 bits by the call of \<open>rbs_init\<close>.\<close>

definition jtag_result :: "'o rbs \<Rightarrow> int" where
  "jtag_result s = (if rbs_done s \<noteq> 0 then (rbs_exit_code s * 2) OR 1 else 0)"

definition jtag_tick :: "'o sys \<Rightarrow> int \<Rightarrow> u8 \<Rightarrow> int \<times> 'o rbs \<Rightarrow> ('o, (int \<times> pins) \<times> int \<times> 'o rbs) run" where
  "jtag_tick net port jtag_TDO = (\<lambda>(init, s).
     and_then
       (if init = 0 then
          (let s = if port < 0 \<or> port > 65535 then say_err (''Port number of out range: %d'' @ LF) s else s in
           rbs_init net (of_int port) s)
        else Some (Inr (init, s)))
       (\<lambda>(init, s). and_then (rbs_tick net jtag_TDO s)
          (\<lambda>(p, s). Some (Inr ((jtag_result s, p), init, s)))))"

text \<open>The test prints on standard output; the model returns the value it prints last.\<close>

definition rbs_test_main :: "'o sys \<Rightarrow> 'o rbs \<Rightarrow> ('o, u8 \<times> 'o rbs) run" where
  "rbs_test_main net s =
     and_then (rbs_init net 0 s) (\<lambda>(v, s).
     and_then (rbs_tick net 0 s) (\<lambda>(p, s). Some (Inr (rbs_done s, s))))"

end
