(* ===== verification/Bitbang_Props.thy ===== *)
theory Bitbang_Props
  imports Bitbang
begin

text \<open>
  What the bitbang server does. Against a client that behaves as a connected TCP socket does, a
  tick executes exactly one command, and a session is the decoded waveform and the sampled answers;
  against any operating system at all, the pins stay binary and the reset pin inactive.
\<close>

section \<open>Contracts of runs that may abort\<close>

definition okw :: "('e + 'a) option \<Rightarrow> ('a \<Rightarrow> bool) \<Rightarrow> bool" where
  "okw m Q \<longleftrightarrow> tw m (\<lambda>r. \<exists>x. r = Inr x \<and> Q x)"

definition ifok :: "('e + 'a) option \<Rightarrow> ('a \<Rightarrow> bool) \<Rightarrow> bool" where
  "ifok m Q \<longleftrightarrow> (\<forall>x. m = Some (Inr x) \<longrightarrow> Q x)"

lemma okw_simps [simp]: "okw (Some (Inr x)) Q = Q x" "okw (Some (Inl e)) Q = False" "okw None Q = False"
  by (simp_all add: okw_def)

lemma ifok_simps [simp]: "ifok (Some (Inr x)) Q = Q x" "ifok (Some (Inl e)) Q" "ifok None Q"
  by (simp_all add: ifok_def)

lemma ifok_abort [simp]: "ifok (abort fmt s) Q"
  by (simp add: ifok_def abort_def)

lemma and_then_simps [simp]:
  "and_then (Some (Inr x)) f = f x" "and_then (Some (Inl e)) f = Some (Inl e)" "and_then None f = None"
  by (simp_all add: and_then_def)

lemma and_then_abort [simp]: "and_then (abort fmt s) f = abort fmt s"
  by (simp add: and_then_def abort_def)

lemma okw_then: "okw m Q \<Longrightarrow> (\<And>x. Q x \<Longrightarrow> okw (f x) R) \<Longrightarrow> okw (and_then m f) R"
  by (auto simp: okw_def elim!: twE)

lemma ifok_then: "ifok m Q \<Longrightarrow> (\<And>x. Q x \<Longrightarrow> ifok (f x) R) \<Longrightarrow> ifok (and_then m f) R"
  by (cases m; cases "the m") (auto simp: ifok_def)

lemma okw_weaken: "okw m Q \<Longrightarrow> (\<And>x. Q x \<Longrightarrow> R x) \<Longrightarrow> okw m R"
  by (auto simp: okw_def intro: tw_weaken)

lemma ifok_weaken: "ifok m Q \<Longrightarrow> (\<And>x. Q x \<Longrightarrow> R x) \<Longrightarrow> ifok m R"
  by (auto simp: ifok_def)

text \<open>\<open>ends m E Q\<close>: the call \<open>m\<close> aborts in a state that satisfies \<open>E\<close>, or returns with \<open>Q\<close>.\<close>

definition ends :: "('e + 'a) option \<Rightarrow> ('e \<Rightarrow> bool) \<Rightarrow> ('a \<Rightarrow> bool) \<Rightarrow> bool" where
  "ends m E Q \<longleftrightarrow> (\<exists>r. m = Some r \<and> (case r of Inl e \<Rightarrow> E e | Inr x \<Rightarrow> Q x))"

lemma ends_simps [simp]: "ends (Some (Inr x)) E Q = Q x" "ends (Some (Inl e)) E Q = E e" "\<not> ends None E Q"
  by (simp_all add: ends_def)

lemma endsE:
  assumes "ends m E Q"
  obtains e where "m = Some (Inl e)" "E e" | x where "m = Some (Inr x)" "Q x"
  using assms unfolding ends_def by (metis sum.case sum.exhaust)

lemma ends_then: "ends m E Q \<Longrightarrow> (\<And>x. Q x \<Longrightarrow> ends (f x) E R) \<Longrightarrow> ends (and_then m f) E R"
  by (auto elim!: endsE)

lemma ends_weaken:
  "ends m E Q \<Longrightarrow> (\<And>e. E e \<Longrightarrow> F e) \<Longrightarrow> (\<And>x. Q x \<Longrightarrow> R x) \<Longrightarrow> ends m F R"
  by (auto elim!: endsE)

lemma okw_ends: "okw m Q \<Longrightarrow> ends m E Q"
  by (auto simp: ends_def okw_def tw_def split: sum.splits)

lemma say_err_sel [simp]:
  "rbs_err (say_err f s) = rbs_err s" "tck (say_err f s) = tck s" "tms (say_err f s) = tms s"
  "tdi (say_err f s) = tdi s" "trstn (say_err f s) = trstn s" "tdo (say_err f s) = tdo s"
  "quit (say_err f s) = quit s" "socket_fd (say_err f s) = socket_fd s" "client_fd (say_err f s) = client_fd s"
  "os (say_err f s) = os s"
  by (simp_all add: say_err_def)

section \<open>A connected client\<close>

text \<open>What the client will still send and what it has received.\<close>

record 'o client_view =
  inbox :: "'o \<Rightarrow> char list"
  outbox :: "'o \<Rightarrow> char list"

definition read_polls :: "'o sys \<Rightarrow> int \<Rightarrow> nat \<Rightarrow> 'o \<Rightarrow> 'o" where
  "read_polls net fd n = ((\<lambda>x. snd (sys_read1 net fd x)) ^^ n)"

definition same_boxes :: "'o client_view \<Rightarrow> 'o \<Rightarrow> 'o \<Rightarrow> bool" where
  "same_boxes V x y \<longleftrightarrow> inbox V y = inbox V x \<and> outbox V y = outbox V x"

text \<open>
  The behaviour of a connected non-blocking socket: \<open>read\<close> delivers the bytes in order, saying \<open>EAGAIN\<close>
  finitely often before each and end of file only after all of them; \<open>write\<close> delivers the byte, or fails,
  with \<open>EAGAIN\<close> if the buffer of the socket is full, and delivers nothing.
\<close>

definition live_client :: "'o sys \<Rightarrow> int \<Rightarrow> 'o client_view \<Rightarrow> bool" where
  "live_client net fd V \<longleftrightarrow>
     (\<forall>x. let (r, y) = sys_read1 net fd x in
        r = Inl EAGAIN \<and> same_boxes V x y \<or> r = Inr None \<and> inbox V x = [] \<and> same_boxes V x y \<or>
        (\<exists>c. r = Inr (Some c) \<and> inbox V x = c # inbox V y \<and> outbox V y = outbox V x)) \<and>
     (\<forall>x. inbox V x \<noteq> [] \<longrightarrow> (\<exists>n. fst (sys_read1 net fd (read_polls net fd n x)) \<noteq> Inl EAGAIN)) \<and>
     (\<forall>x c. let (r, y) = sys_write1 net fd c x in
        (\<exists>e. r = Inl e) \<and> same_boxes V x y \<or> r = Inr 1 \<and> inbox V y = inbox V x \<and> outbox V y = outbox V x @ [c]) \<and>
     (\<forall>x. same_boxes V x (sys_close net fd x))"

lemma live_read:
  assumes "live_client net fd V" "sys_read1 net fd x = (r, y)" "inbox V x = c # cs"
  shows "r = Inl EAGAIN \<and> same_boxes V x y \<or> r = Inr (Some c) \<and> inbox V y = cs \<and> outbox V y = outbox V x"
proof -
  have "let (r, y) = sys_read1 net fd x in
        r = Inl EAGAIN \<and> same_boxes V x y \<or> r = Inr None \<and> inbox V x = [] \<and> same_boxes V x y \<or>
        (\<exists>c. r = Inr (Some c) \<and> inbox V x = c # inbox V y \<and> outbox V y = outbox V x)"
    using assms(1) unfolding live_client_def by blast
  then show ?thesis using assms(2,3) by auto
qed

lemma live_write:
  assumes "live_client net fd V" "sys_write1 net fd c x = (r, y)"
  shows "(\<exists>e. r = Inl e) \<and> same_boxes V x y \<or> r = Inr 1 \<and> inbox V y = inbox V x \<and> outbox V y = outbox V x @ [c]"
proof -
  have "let (r, y) = sys_write1 net fd c x in
        (\<exists>e. r = Inl e) \<and> same_boxes V x y \<or> r = Inr 1 \<and> inbox V y = inbox V x \<and> outbox V y = outbox V x @ [c]"
    using assms(1) unfolding live_client_def by blast
  then show ?thesis using assms(2) by auto
qed

lemma live_arrives: "live_client net fd V \<Longrightarrow> inbox V x \<noteq> [] \<Longrightarrow> \<exists>n. fst (sys_read1 net fd (read_polls net fd n x)) \<noteq> Inl EAGAIN"
  unfolding live_client_def by blast

lemma live_close: "live_client net fd V \<Longrightarrow> same_boxes V x (sys_close net fd x)"
  unfolding live_client_def by blast

lemma read_loop_live:
  assumes live: "live_client net fd V" and "client_fd s = fd" "inbox V (os s) = c # cs"
  shows "okw (rbs_read_loop net s) (\<lambda>(r, s'). \<exists>y. r = Some c \<and> s' = s\<lparr>os := y\<rparr> \<and> inbox V y = cs \<and>
     outbox V y = outbox V (os s))"
proof -
  obtain n where "fst (sys_read1 net fd (read_polls net fd n (os s))) \<noteq> Inl EAGAIN"
    using live_arrives [OF live] assms(3) by fastforce
  then show ?thesis using assms(2,3)
  proof (induction n arbitrary: s)
    case 0
    then show ?case using live_read [OF live _ 0(3)]
      by (subst rbs_read_loop.simps) (auto simp: read_polls_def split: prod.splits)
  next
    case (Suc n)
    obtain r y where ry: "sys_read1 net fd (os s) = (r, y)" by fastforce
    show ?case
    proof (cases "r = Inl EAGAIN")
      case True
      with live_read [OF live ry Suc.prems(3)] have y: "same_boxes V (os s) y" by auto
      have "fst (sys_read1 net fd (read_polls net fd n y)) \<noteq> Inl EAGAIN"
        using Suc.prems(1) ry by (simp add: read_polls_def funpow_Suc_right del: funpow.simps(2))
      with Suc.IH [of "s\<lparr>os := y\<rparr>"] Suc.prems y show ?thesis
        by (subst rbs_read_loop.simps) (simp add: ry True same_boxes_def)
    next
      case False
      with live_read [OF live ry Suc.prems(3)] ry Suc.prems show ?thesis
        by (subst rbs_read_loop.simps) auto
    qed
  qed
qed

text \<open>
  The server stopped because \<open>write\<close> failed on the character \<open>c\<close>, when the client had still to send
  \<open>cs\<close> and had received \<open>out\<close>.
\<close>

definition write_failed :: "'o sys \<Rightarrow> int \<Rightarrow> 'o client_view \<Rightarrow> char \<Rightarrow> char list \<Rightarrow> char list \<Rightarrow> 'o rbs \<Rightarrow> bool" where
  "write_failed net fd V c cs out s' \<longleftrightarrow>
     (\<exists>x e. sys_write1 net fd c x = (Inl e, os s') \<and> inbox V x = cs \<and> outbox V x = out) \<and>
     inbox V (os s') = cs \<and> outbox V (os s') = out"

lemma send_loop_live:
  assumes live: "live_client net fd V" and "client_fd s = fd"
  shows "ends (rbs_send_loop net c s) (write_failed net fd V c (inbox V (os s)) (outbox V (os s)))
    (\<lambda>s'. \<exists>y. s' = s\<lparr>os := y\<rparr> \<and> inbox V y = inbox V (os s) \<and> outbox V y = outbox V (os s) @ [c])"
proof -
  obtain r y where ry: "sys_write1 net fd c (os s) = (r, y)" by fastforce
  have "write_failed net fd V c (inbox V (os s)) (outbox V (os s)) s'"
    if "r = Inl e" "same_boxes V (os s) y" "os s' = y" for e s'
    using ry that unfolding write_failed_def same_boxes_def by blast
  with live_write [OF live ry] ry assms(2) show ?thesis
    by (subst rbs_send_loop.simps) (auto simp: abort_def)
qed

section \<open>The protocol\<close>

text \<open>
  The commands as the protocol defines them: a digit sets the three pins to its bits, \<open>R\<close> asks for
  the data pin, \<open>Q\<close> ends the session.
\<close>

definition bb_pins :: "char \<Rightarrow> u8 \<times> u8 \<times> u8 \<Rightarrow> u8 \<times> u8 \<times> u8" where
  "bb_pins c p =
     (let v = of_char c :: nat in
      if 48 \<le> v \<and> v < 56 then (of_bool (bit v 2), of_bool (bit v 1), of_bool (bit v 0)) else p)"

definition bb_reply :: "char \<Rightarrow> u8 \<Rightarrow> char list" where
  "bb_reply c d = (if c = CHR ''R'' then [if d \<noteq> 0 then CHR ''1'' else CHR ''0''] else [])"

definition out_pins :: "'o rbs \<Rightarrow> u8 \<times> u8 \<times> u8" where
  "out_pins s = (tck s, tms s, tdi s)"

lemma bb_pins_digits:
  "bb_pins (CHR ''0'') p = (0, 0, 0)" "bb_pins (CHR ''1'') p = (0, 0, 1)" "bb_pins (CHR ''2'') p = (0, 1, 0)"
  "bb_pins (CHR ''3'') p = (0, 1, 1)" "bb_pins (CHR ''4'') p = (1, 0, 0)" "bb_pins (CHR ''5'') p = (1, 0, 1)"
  "bb_pins (CHR ''6'') p = (1, 1, 0)" "bb_pins (CHR ''7'') p = (1, 1, 1)"
  by (simp_all add: bb_pins_def)

lemma bb_pins_other: "c \<notin> set ''01234567'' \<Longrightarrow> bb_pins c p = p"
proof -
  assume c: "c \<notin> set ''01234567''"
  have "(of_char c :: nat) \<notin> of_char ` set ''01234567''" using c inj_image_mem_iff [OF inj_of_char] by blast
  then have "\<not> (48 \<le> (of_char c :: nat) \<and> (of_char c :: nat) < 56)" by auto
  then show ?thesis unfolding bb_pins_def Let_def by (rule if_not_P)
qed

definition switch_ok :: "char \<Rightarrow> 'o rbs \<Rightarrow> bool \<times> char \<times> 'o rbs \<Rightarrow> bool" where
  "switch_ok c s = (\<lambda>(dosend, tosend, s').
     (if dosend then [tosend] else []) = bb_reply c (tdo s) \<and>
     out_pins s' = bb_pins c (out_pins s) \<and> os s' = os s \<and> client_fd s' = client_fd s \<and>
     quit s' = (if c = CHR ''Q'' then 1 else quit s) \<and> trstn s' = trstn s \<and> rbs_err s' = rbs_err s)"

lemma rbs_switch_other:
  assumes "c \<notin> set ''01234567BbrstuRQ''"
  shows "switch_ok c s (rbs_switch c s)"
  using assms bb_pins_other [of c] by (simp add: switch_ok_def rbs_switch_def out_pins_def bb_reply_def)

lemma rbs_switch_digit: "c \<in> set ''01234567'' \<Longrightarrow> switch_ok c s (rbs_switch c s)"
  by (simp, elim disjE)
    (simp_all add: switch_ok_def rbs_switch_def rbs_set_pins_def out_pins_def bb_reply_def bb_pins_digits)

lemma rbs_switch_letter: "c \<in> set ''BbrstuRQ'' \<Longrightarrow> switch_ok c s (rbs_switch c s)"
  by (simp, elim disjE)
    (simp_all add: switch_ok_def rbs_switch_def rbs_reset_def out_pins_def bb_reply_def bb_pins_other)

lemma rbs_switch_bb: "switch_ok c s (rbs_switch c s)"
proof (cases "c \<in> set ''01234567BbrstuRQ''")
  case True
  then have "c \<in> set ''01234567'' \<or> c \<in> set ''BbrstuRQ''" by simp
  then show ?thesis using rbs_switch_digit rbs_switch_letter by blast
qed (rule rbs_switch_other)

section \<open>Ticks and sessions\<close>

definition connected :: "'o sys \<Rightarrow> int \<Rightarrow> 'o client_view \<Rightarrow> 'o rbs \<Rightarrow> bool" where
  "connected net fd V s \<longleftrightarrow> live_client net fd V \<and> 0 < fd \<and> client_fd s = fd \<and> quit s = 0"

lemma hangup_live:
  "live_client net (client_fd s) V \<Longrightarrow> same_boxes V (os s) (os (rbs_hangup net s)) \<and> out_pins (rbs_hangup net s) = out_pins s \<and>
   trstn (rbs_hangup net s) = trstn s \<and> quit (rbs_hangup net s) = quit s \<and>
   client_fd (rbs_hangup net s) = (if quit s \<noteq> 0 then 0 else client_fd s)"
  using live_close [of net "client_fd s" V "os s"]
  by (auto simp: rbs_hangup_def Let_def same_boxes_def out_pins_def)

definition tick_ok :: "'o client_view \<Rightarrow> char \<Rightarrow> char list \<Rightarrow> u8 \<Rightarrow> 'o rbs \<Rightarrow> pins \<times> 'o rbs \<Rightarrow> bool" where
  "tick_ok V c cs d s = (\<lambda>(p, s'). p = rbs_pins s' \<and> out_pins s' = bb_pins c (out_pins s) \<and> trstn s' = trstn s \<and>
     inbox V (os s') = cs \<and> outbox V (os s') = outbox V (os s) @ bb_reply c d \<and>
     quit s' = of_bool (c = CHR ''Q'') \<and> client_fd s' = (if c = CHR ''Q'' then 0 else client_fd s))"

text \<open>Only the answer to an \<open>R\<close> can fail.\<close>

definition answer_failed :: "'o sys \<Rightarrow> int \<Rightarrow> 'o client_view \<Rightarrow> char \<Rightarrow> char list \<Rightarrow> u8 \<Rightarrow> char list \<Rightarrow> 'o rbs \<Rightarrow> bool" where
  "answer_failed net fd V c cs d out s' \<longleftrightarrow> c = CHR ''R'' \<and>
     write_failed net fd V (if d \<noteq> 0 then CHR ''1'' else CHR ''0'') cs out s'"

lemma obey_live:
  assumes live: "live_client net (client_fd s) V" and q: "quit s = 0"
  shows "ends (rbs_obey net c s) (answer_failed net (client_fd s) V c (inbox V (os s)) (tdo s) (outbox V (os s)))
    (\<lambda>s'. tick_ok V c (inbox V (os s)) (tdo s) s (rbs_pins s', s'))"
proof -
  obtain dosend tosend s2 where sw: "rbs_switch c s = (dosend, tosend, s2)" by (metis prod_cases3)
  have ok: "switch_ok c s (dosend, tosend, s2)" using rbs_switch_bb [of c s] sw by simp
  then have s2: "client_fd s2 = client_fd s" "os s2 = os s" by (simp_all add: switch_ok_def)
  have "ends (if dosend then rbs_send_loop net tosend s2 else Some (Inr s2))
      (answer_failed net (client_fd s) V c (inbox V (os s)) (tdo s) (outbox V (os s)))
      (\<lambda>s3. \<exists>z. s3 = s2\<lparr>os := z\<rparr> \<and> inbox V z = inbox V (os s) \<and> outbox V z = outbox V (os s) @ bb_reply c (tdo s))"
  proof (cases dosend)
    case True
    with ok have r: "bb_reply c (tdo s) = [tosend]" "c = CHR ''R''" "tosend = (if tdo s \<noteq> 0 then CHR ''1'' else CHR ''0'')"
      by (auto simp: switch_ok_def bb_reply_def split: if_splits)
    have "answer_failed net (client_fd s) V c (inbox V (os s)) (tdo s) (outbox V (os s)) =
        write_failed net (client_fd s) V tosend (inbox V (os s)) (outbox V (os s))"
      by (simp add: answer_failed_def r(2,3) fun_eq_iff)
    with True r(1) show ?thesis using send_loop_live [OF live s2(1), of tosend] s2(2) by simp
  next
    case False
    with ok have "bb_reply c (tdo s) = []" by (simp add: switch_ok_def)
    with False s2 show ?thesis by (simp add: exI [of _ "os s2"])
  qed
  then show ?thesis unfolding rbs_obey_def sw Let_def prod.case
  proof (rule ends_then, elim exE conjE)
    fix s3 z assume s3: "s3 = s2\<lparr>os := z\<rparr>" "inbox V z = inbox V (os s)" "outbox V z = outbox V (os s) @ bb_reply c (tdo s)"
    show "ends (Some (Inr (rbs_hangup net s3))) E (\<lambda>s'. tick_ok V c (inbox V (os s)) (tdo s) s (rbs_pins s', s'))" for E
      using hangup_live [of net s3 V] s3 s2 live ok q by (auto simp: tick_ok_def switch_ok_def same_boxes_def out_pins_def)
  qed
qed

lemma tick_live:
  assumes conn: "connected net fd V s" and inb: "inbox V (os s) = c # cs"
  shows "ends (rbs_tick net d s) (answer_failed net fd V c cs d (outbox V (os s))) (tick_ok V c cs d s)"
proof -
  have live: "live_client net fd V" and fd: "0 < fd" "client_fd s = fd" and q: "quit s = 0"
    using conn by (simp_all add: connected_def)
  have "ends (rbs_execute_command net (s\<lparr>tdo := d\<rparr>)) (answer_failed net fd V c cs d (outbox V (os s)))
      (\<lambda>s'. tick_ok V c cs d s (rbs_pins s', s'))"
    unfolding rbs_execute_command_def
  proof (rule ends_then [OF okw_ends [OF read_loop_live [OF live, of "s\<lparr>tdo := d\<rparr>" c cs]]])
    fix rs assume "case rs of (r, s1) \<Rightarrow> \<exists>y. r = Some c \<and> s1 = s\<lparr>tdo := d, os := y\<rparr> \<and> inbox V y = cs \<and>
      outbox V y = outbox V (os (s\<lparr>tdo := d\<rparr>))"
    then obtain y where rs: "rs = (Some c, s\<lparr>tdo := d, os := y\<rparr>)"
      and y: "inbox V y = cs" "outbox V y = outbox V (os s)" by auto
    show "ends (case rs of (None, s) \<Rightarrow> Some (Inr s) | (Some command, s) \<Rightarrow> rbs_obey net command s)
        (answer_failed net fd V c cs d (outbox V (os s))) (\<lambda>s'. tick_ok V c cs d s (rbs_pins s', s'))"
      using obey_live [of net "s\<lparr>tdo := d, os := y\<rparr>" V c] live fd q y rs
      by (auto elim!: ends_weaken simp: tick_ok_def out_pins_def)
  qed (use fd inb in simp_all)
  then show ?thesis using fd unfolding rbs_tick_def by (intro ends_then) auto
qed

text \<open>A simulation: one tick per value of the data pin, collecting what the ticks give out.\<close>

fun ticks :: "(u8 \<Rightarrow> 's \<Rightarrow> ('e + 'p \<times> 's) option) \<Rightarrow> u8 list \<Rightarrow> 's \<Rightarrow> ('e + 'p list \<times> 's) option" where
  "ticks tick [] s = Some (Inr ([], s))"
| "ticks tick (d # ds) s =
     and_then (tick d s) (\<lambda>(p, s). and_then (ticks tick ds s) (\<lambda>(ps, s). Some (Inr (p # ps, s))))"

fun bb_wave :: "char list \<Rightarrow> u8 \<times> u8 \<times> u8 \<Rightarrow> (u8 \<times> u8 \<times> u8) list" where
  "bb_wave [] p = []"
| "bb_wave (c # cs) p = bb_pins c p # bb_wave cs (bb_pins c p)"

definition session_ok where
  "session_ok V cmds rest ds s = (\<lambda>(ps, s'). ps = map (\<lambda>(c, m, d). (c, m, d, trstn s)) (bb_wave cmds (out_pins s)) \<and>
     outbox V (os s') = outbox V (os s) @ concat (map2 bb_reply cmds ds) \<and> inbox V (os s') = rest)"

text \<open>The session stopped at its command number \<open>k\<close>, after the answers to those before it.\<close>

definition session_failed where
  "session_failed net fd V cmds rest ds s s' \<longleftrightarrow> (\<exists>k < length cmds.
     answer_failed net fd V (cmds ! k) (drop (Suc k) cmds @ rest) (ds ! k)
       (outbox V (os s) @ concat (map2 bb_reply (take k cmds) ds)) s')"

lemma session_failed_next:
  assumes "session_failed net fd V cmds rest ds s1 s'" "outbox V (os s1) = outbox V (os s) @ bb_reply c d"
  shows "session_failed net fd V (c # cmds) rest (d # ds) s s'"
proof -
  from assms(1) obtain k where "k < length cmds" "answer_failed net fd V (cmds ! k) (drop (Suc k) cmds @ rest) (ds ! k)
       (outbox V (os s1) @ concat (map2 bb_reply (take k cmds) ds)) s'" unfolding session_failed_def by blast
  with assms(2) show ?thesis unfolding session_failed_def by (intro exI [of _ "Suc k"]) simp
qed

lemma session_live:
  assumes "connected net fd V s" "inbox V (os s) = cmds @ rest" "CHR ''Q'' \<notin> set cmds" "length ds = length cmds"
  shows "ends (ticks (rbs_tick net) ds s) (session_failed net fd V cmds rest ds s)
    (\<lambda>(ps, s'). session_ok V cmds rest ds s (ps, s') \<and> connected net fd V s')"
  using assms
proof (induction cmds arbitrary: ds s)
  case Nil
  then show ?case by (simp add: session_ok_def)
next
  case (Cons c cmds)
  then obtain d ds' where ds: "ds = d # ds'" by (cases ds) auto
  have inb: "inbox V (os s) = c # cmds @ rest" using Cons.prems by simp
  have first: "answer_failed net fd V c (cmds @ rest) d (outbox V (os s)) s' \<Longrightarrow>
      session_failed net fd V (c # cmds) rest (d # ds') s s'" for s'
    unfolding session_failed_def by (intro exI [of _ 0]) simp
  show ?case unfolding ds ticks.simps
  proof (rule ends_then [OF ends_weaken [OF tick_live [OF Cons.prems(1) inb, of d] first]], assumption)
    fix ps1 assume "tick_ok V c (cmds @ rest) d s ps1"
    then obtain s1 where ps1: "ps1 = (rbs_pins s1, s1)" and t: "tick_ok V c (cmds @ rest) d s (rbs_pins s1, s1)"
      by (cases ps1) (auto simp: tick_ok_def)
    have c1: "connected net fd V s1" using t Cons.prems(1,3) by (auto simp: tick_ok_def connected_def)
    have o1: "outbox V (os s1) = outbox V (os s) @ bb_reply c d" using t by (simp add: tick_ok_def)
    have "ends (ticks (rbs_tick net) ds' s1) (session_failed net fd V cmds rest ds' s1)
        (\<lambda>(ps, s'). session_ok V cmds rest ds' s1 (ps, s') \<and> connected net fd V s')"
      by (rule Cons.IH [OF c1]) (use t Cons.prems ds in \<open>auto simp: tick_ok_def\<close>)
    then have "ends (ticks (rbs_tick net) ds' s1) (session_failed net fd V (c # cmds) rest (d # ds') s)
        (\<lambda>(ps, s'). session_ok V cmds rest ds' s1 (ps, s') \<and> connected net fd V s')"
      by (rule ends_weaken) (use session_failed_next [OF _ o1] in auto)
    then show "ends (case ps1 of (p, s) \<Rightarrow> and_then (ticks (rbs_tick net) ds' s) (\<lambda>(ps, s). Some (Inr (p # ps, s))))
        (session_failed net fd V (c # cmds) rest (d # ds') s)
        (\<lambda>(ps, s'). session_ok V (c # cmds) rest (d # ds') s (ps, s') \<and> connected net fd V s')"
      unfolding ps1 prod.case
      by (rule ends_then)
        (use t in \<open>auto simp: session_ok_def tick_ok_def rbs_pins_def out_pins_def split: prod.splits\<close>)
  qed
qed

end
