(* ===== verification/Bitbang_Dpi.thy ===== *)
theory Bitbang_Dpi
  imports Bitbang
begin

text \<open>
  The bitbang server of the CVA6 test bench, the class \<open>remote_bitbang_t\<close> of
  \<open>corev_apu/tb/dpi/remote_bitbang.cc\<close> and \<open>remote_bitbang.h\<close>, with its caller \<open>SimJTAG.cc\<close>. The
  object has the same fields as the C server has variables, so it is the same record (\<open>err\<close> is
  \<open>rbs_err\<close>); the member functions are translated one by one.
\<close>

definition dpi_new :: "'o sys \<Rightarrow> u16 \<Rightarrow> 'o rbs \<Rightarrow> ('o, 'o rbs) run" where
  "dpi_new net port s =
     (let s = s\<lparr>socket_fd := 0, client_fd := 0, recv_start := 0, recv_end := 0, rbs_err := 0\<rparr>;
          (r, o') = sys_socket net (os s); s = s\<lparr>os := o'\<rparr> in
      case r of
        Inl _ \<Rightarrow> abort (''remote_bitbang failed to make socket: %s (%d)'' @ LF) (s\<lparr>socket_fd := - 1\<rparr>)
      | Inr fd \<Rightarrow>
          (let s = s\<lparr>socket_fd := fd, os := sys_nonblock net fd (os s)\<rparr> in
           and_then (must (''remote_bitbang failed setsockopt: %s (%d)'' @ LF) (sys_reuseaddr net fd) s) (\<lambda>(_, s).
           and_then (must (''remote_bitbang failed to bind socket: %s (%d)'' @ LF) (sys_bind net fd port) s) (\<lambda>(_, s).
           and_then (must (''remote_bitbang failed to listen on socket: %s (%d)'' @ LF) (sys_listen net fd 1) s) (\<lambda>(_, s).
           and_then (must (''remote_bitbang getsockname failed: %s (%d)'' @ LF) (sys_getsockname net fd) s) (\<lambda>(_, s).
           (let s = s\<lparr>tck := 1, tms := 1, tdi := 1, trstn := 1, quit := 0\<rparr>;
                s = say_err (''This emulator compiled with JTAG Remote Bitbang client. To enable, use +jtag_rbb_enable=1.'' @ LF) s;
                s = say_err (''Listening on port %d'' @ LF) s in
            Some (Inr s))))))))"

partial_function (option) dpi_accept_loop :: "'o sys \<Rightarrow> 'o rbs \<Rightarrow> ('o, 'o rbs) run" where
  "dpi_accept_loop net s =
     (let (r, o') = sys_accept net (socket_fd s) (os s); s = s\<lparr>os := o'\<rparr> in
      case r of
        Inl e \<Rightarrow>
          (let s = s\<lparr>client_fd := - 1\<rparr> in
           if e = EAGAIN then dpi_accept_loop net s
           else abort (''failed to accept on socket: %s (%d)'' @ LF) s)
      | Inr fd \<Rightarrow>
          Some (Inr (say_err ''Accepted successfully.'' (s\<lparr>client_fd := fd, os := sys_nonblock net fd (os s)\<rparr>))))"

definition dpi_accept :: "'o sys \<Rightarrow> 'o rbs \<Rightarrow> ('o, 'o rbs) run" where
  "dpi_accept net s = dpi_accept_loop net (say_err (''Attempting to accept client socket'' @ LF) s)"

definition dpi_reset :: "'o rbs \<Rightarrow> 'o rbs" where
  "dpi_reset s = s"

definition dpi_set_pins :: "u8 \<Rightarrow> u8 \<Rightarrow> u8 \<Rightarrow> 'o rbs \<Rightarrow> 'o rbs" where
  "dpi_set_pins c m d s = s\<lparr>tck := c, tms := m, tdi := d\<rparr>"

text \<open>At end of file this loop tries again, unlike the one of the C server.\<close>

partial_function (option) dpi_read_loop :: "'o sys \<Rightarrow> 'o rbs \<Rightarrow> ('o, char \<times> 'o rbs) run" where
  "dpi_read_loop net s =
     (let (r, o') = sys_read1 net (client_fd s) (os s); s = s\<lparr>os := o'\<rparr> in
      case r of
        Inl e \<Rightarrow> if e = EAGAIN then dpi_read_loop net s
                 else abort (''remote_bitbang failed to read on socket: %s (%d)'' @ LF) s
      | Inr None \<Rightarrow> dpi_read_loop net (say_err (''No Command Received.'' @ LF) s)
      | Inr (Some c) \<Rightarrow> Some (Inr (c, s)))"

definition dpi_switch :: "char \<Rightarrow> 'o rbs \<Rightarrow> bool \<times> char \<times> 'o rbs" where
  "dpi_switch command s =
     (if command = CHR ''B'' then (False, CHR ''?'', s)
      else if command = CHR ''b'' then (False, CHR ''?'', s)
      else if command = CHR ''r'' then (False, CHR ''?'', dpi_reset s)
      else if command = CHR ''0'' then (False, CHR ''?'', dpi_set_pins 0 0 0 s)
      else if command = CHR ''1'' then (False, CHR ''?'', dpi_set_pins 0 0 1 s)
      else if command = CHR ''2'' then (False, CHR ''?'', dpi_set_pins 0 1 0 s)
      else if command = CHR ''3'' then (False, CHR ''?'', dpi_set_pins 0 1 1 s)
      else if command = CHR ''4'' then (False, CHR ''?'', dpi_set_pins 1 0 0 s)
      else if command = CHR ''5'' then (False, CHR ''?'', dpi_set_pins 1 0 1 s)
      else if command = CHR ''6'' then (False, CHR ''?'', dpi_set_pins 1 1 0 s)
      else if command = CHR ''7'' then (False, CHR ''?'', dpi_set_pins 1 1 1 s)
      else if command = CHR ''R'' then (True, if tdo s \<noteq> 0 then CHR ''1'' else CHR ''0'', s)
      else if command = CHR ''Q'' then (False, CHR ''?'', s\<lparr>quit := 1\<rparr>)
      else (False, CHR ''?'', say_err (''remote_bitbang got unsupported command '' @ [CHR 0x27] @ ''%c'' @ [CHR 0x27] @ LF) s))"

partial_function (option) dpi_send_loop :: "'o sys \<Rightarrow> char \<Rightarrow> 'o rbs \<Rightarrow> ('o, 'o rbs) run" where
  "dpi_send_loop net c s =
     (let (r, o') = sys_write1 net (client_fd s) c (os s); s = s\<lparr>os := o'\<rparr> in
      case r of
        Inl e \<Rightarrow> abort (''failed to write to socket: %s (%d)'' @ LF) s
      | Inr bytes \<Rightarrow> if bytes > 0 then Some (Inr s) else dpi_send_loop net c s)"

definition dpi_hangup :: "'o sys \<Rightarrow> 'o rbs \<Rightarrow> 'o rbs" where
  "dpi_hangup net s =
     (if quit s \<noteq> 0 then
        (let s = say_err (''Remote end disconnected'' @ LF) s in
         s\<lparr>os := sys_close net (client_fd s) (os s), client_fd := 0\<rparr>)
      else s)"

definition dpi_execute_command :: "'o sys \<Rightarrow> 'o rbs \<Rightarrow> ('o, 'o rbs) run" where
  "dpi_execute_command net s =
     and_then (dpi_read_loop net s) (\<lambda>(command, s).
       let (dosend, tosend, s) = dpi_switch command s in
       and_then (if dosend then dpi_send_loop net tosend s else Some (Inr s))
         (\<lambda>s. Some (Inr (dpi_hangup net s))))"

definition dpi_tick :: "'o sys \<Rightarrow> u8 \<Rightarrow> 'o rbs \<Rightarrow> ('o, pins \<times> 'o rbs) run" where
  "dpi_tick net jtag_tdo s =
     and_then (if client_fd s > 0 then dpi_execute_command net (s\<lparr>tdo := jtag_tdo\<rparr>) else dpi_accept net s)
       (\<lambda>s. Some (Inr ((tck s, tms s, tdi s, trstn s), s)))"

text \<open>\<open>SimJTAG.cc\<close>: the server is created at the first tick, with port 0. The flag says whether the
  pointer \<open>jtag\<close> is set; the fields of the record before that are those of the new object.\<close>

definition dpi_jtag_tick :: "'o sys \<Rightarrow> u8 \<Rightarrow> bool \<times> 'o rbs \<Rightarrow> ('o, (int \<times> pins) \<times> bool \<times> 'o rbs) run" where
  "dpi_jtag_tick net jtag_TDO = (\<lambda>(made, s).
     and_then (if \<not> made then dpi_new net 0 s else Some (Inr s))
       (\<lambda>s. and_then (dpi_tick net jtag_TDO s)
          (\<lambda>(p, s). Some (Inr ((if quit s \<noteq> 0 then (rbs_err s * 2) OR 1 else 0, p), True, s)))))"

end
