(* ===== verification/Bitbang_Safety.thy ===== *)
theory Bitbang_Safety
  imports Bitbang_Props Bitbang_Dpi
begin

text \<open>
  Facts about both bitbang servers that hold whatever the operating system answers, and the
  comparison of the two. The interface \<open>pin_server\<close> is what a simulation relies on: a good state,
  kept by every tick, in which what is given out is fine.
\<close>

section \<open>What a simulation relies on\<close>

locale pin_server =
  fixes tick :: "u8 \<Rightarrow> 's \<Rightarrow> ('e + 'p \<times> 's) option"
    and good :: "'s \<Rightarrow> bool"
    and fine :: "'p \<Rightarrow> bool"
  assumes tick_good: "good s \<Longrightarrow> ifok (tick d s) (\<lambda>(p, s'). fine p \<and> good s')"
begin

lemma ticks_good: "good s \<Longrightarrow> ifok (ticks tick ds s) (\<lambda>(ps, s'). list_all fine ps \<and> good s')"
proof (induction ds arbitrary: s)
  case (Cons d ds)
  show ?case unfolding ticks.simps
  proof (rule ifok_then [OF tick_good [OF Cons.prems]])
    fix ps assume ps: "case ps of (p, s') \<Rightarrow> fine p \<and> good s'"
    then show "ifok (case ps of (p, s) \<Rightarrow> and_then (ticks tick ds s) (\<lambda>(ps, s). Some (Inr (p # ps, s))))
        (\<lambda>(ps, s'). list_all fine ps \<and> good s')"
      using Cons.IH [of "snd ps"] by (cases ps) (auto intro!: ifok_then)
  qed
qed simp

lemma ticks_fine: "good s \<Longrightarrow> ifok (ticks tick ds s) (\<lambda>(ps, s'). list_all fine ps)"
  by (rule ifok_weaken [OF ticks_good]) auto

end

section \<open>The wires\<close>

text \<open>The variables that reach the simulation: the three pins, the reset pin, the error code and the
  end flag.\<close>

definition wires :: "'o rbs \<Rightarrow> (u8 \<times> u8 \<times> u8) \<times> u8 \<times> int \<times> u8" where
  "wires s = (out_pins s, trstn s, rbs_err s, quit s)"

definition binary :: "u8 \<times> u8 \<times> u8 \<Rightarrow> bool" where
  "binary = (\<lambda>(c, m, d). c \<in> {0, 1} \<and> m \<in> {0, 1} \<and> d \<in> {0, 1})"

definition wired :: "'o rbs \<Rightarrow> bool" where
  "wired s \<longleftrightarrow> binary (out_pins s) \<and> trstn s = 1 \<and> rbs_err s = 0 \<and> quit s \<in> {0, 1}"

lemma wired_cong: "wires s = wires s' \<Longrightarrow> wired s = wired s'"
  by (simp add: wires_def wired_def)

lemma wires_say [simp]: "wires (say_err f s) = wires s"
  by (simp add: wires_def out_pins_def)

lemma wires_update [simp]:
  "wires (s\<lparr>os := y\<rparr>) = wires s" "wires (s\<lparr>client_fd := fd\<rparr>) = wires s" "wires (s\<lparr>tdo := d\<rparr>) = wires s"
  by (simp_all add: wires_def out_pins_def)

lemma binary_bb_pins: "binary p \<Longrightarrow> binary (bb_pins c p)"
  by (auto simp: bb_pins_def binary_def Let_def)

lemma accept_loop_wires: "ifok (rbs_accept_loop net s) (\<lambda>s'. wires s' = wires s)"
proof -
  have "\<forall>s'. r = Inr s' \<longrightarrow> wires s' = wires s" if "rbs_accept_loop net s = Some r" for r
  proof (rule rbs_accept_loop.raw_induct [where P = "\<lambda>net s r. \<forall>s'. r = Inr s' \<longrightarrow> wires s' = wires s", OF _ that], goal_cases)
    case (1 f net s r)
    from 1(2) show ?case
      by (auto simp: abort_def split_beta Let_def split: sum.splits if_splits dest!: 1(1))
  qed
  then show ?thesis by (auto simp: ifok_def)
qed

lemma read_loop_wires: "ifok (rbs_read_loop net s) (\<lambda>(c, s'). wires s' = wires s)"
proof -
  have "\<forall>c s'. r = Inr (c, s') \<longrightarrow> wires s' = wires s" if "rbs_read_loop net s = Some r" for r
  proof (rule rbs_read_loop.raw_induct [where P = "\<lambda>net s r. \<forall>c s'. r = Inr (c, s') \<longrightarrow> wires s' = wires s", OF _ that], goal_cases)
    case (1 f net s r)
    from 1(2) show ?case
      by (auto simp: abort_def split_beta Let_def split: sum.splits if_splits option.splits dest!: 1(1))
  qed
  then show ?thesis by (auto simp: ifok_def)
qed

lemma send_loop_wires: "ifok (rbs_send_loop net c s) (\<lambda>s'. wires s' = wires s)"
proof -
  have "\<forall>s'. r = Inr s' \<longrightarrow> wires s' = wires s" if "rbs_send_loop net c s = Some r" for r
  proof (rule rbs_send_loop.raw_induct [where P = "\<lambda>net c s r. \<forall>s'. r = Inr s' \<longrightarrow> wires s' = wires s", OF _ that], goal_cases)
    case (1 f net c s r)
    from 1(2) show ?case
      by (auto simp: abort_def split_beta Let_def split: sum.splits if_splits dest!: 1(1))
  qed
  then show ?thesis by (auto simp: ifok_def)
qed

lemma hangup_wires: "wires (rbs_hangup net s) = wires s"
  by (simp add: rbs_hangup_def Let_def wires_def out_pins_def)

lemma switch_wired: "wired s \<Longrightarrow> rbs_switch c s = (a, b, s') \<Longrightarrow> wired s'"
  using rbs_switch_bb [of c s] by (auto simp: switch_ok_def wired_def binary_bb_pins)

lemma send_wires: "ifok (if a then rbs_send_loop net b s else Some (Inr s)) (\<lambda>s'. wires s' = wires s)"
  using send_loop_wires [of net b s] by simp

lemma wired_hangup: "wired s \<Longrightarrow> wires s' = wires s \<Longrightarrow> wired (rbs_hangup net s')"
  using hangup_wires [of net s'] wired_cong [of "rbs_hangup net s'" s] by simp

lemma obey_wired:
  assumes "wired s"
  shows "ifok (rbs_obey net c s) wired"
proof -
  obtain a b s' where sw: "rbs_switch c s = (a, b, s')" by (metis prod_cases3)
  show ?thesis unfolding rbs_obey_def sw Let_def prod.case
    by (rule ifok_then [OF send_wires]) (use wired_hangup switch_wired [OF assms sw] in auto)
qed

lemma execute_wired: "wired s \<Longrightarrow> ifok (rbs_execute_command net s) wired"
  unfolding rbs_execute_command_def
  by (rule ifok_then [OF read_loop_wires]) (auto split: option.splits intro!: obey_wired dest: wired_cong)

lemma accept_wired: "wired s \<Longrightarrow> ifok (rbs_accept net s) wired"
  unfolding rbs_accept_def by (rule ifok_weaken [OF accept_loop_wires]) (auto dest: wired_cong)

definition fine_pins :: "pins \<Rightarrow> bool" where
  "fine_pins = (\<lambda>(c, m, d, r). binary (c, m, d) \<and> r = 1)"

lemma tick_wired:
  assumes "wired s"
  shows "ifok (rbs_tick net d s) (\<lambda>(p, s'). fine_pins p \<and> wired s')"
  unfolding rbs_tick_def
proof (rule ifok_then [where Q = wired])
  show "ifok (if 0 < client_fd s then rbs_execute_command net (s\<lparr>tdo := d\<rparr>) else rbs_accept net s) wired"
    using execute_wired [of "s\<lparr>tdo := d\<rparr>" net] accept_wired [OF assms, of net] assms wired_cong [of "s\<lparr>tdo := d\<rparr>" s] by simp
qed (simp add: rbs_pins_def fine_pins_def wired_def out_pins_def)

lemma must_ok: "ifok (must fmt call s) (\<lambda>(v, s'). \<exists>y. s' = s\<lparr>os := y\<rparr>)"
  by (auto simp: must_def Let_def split: prod.splits sum.splits)

lemma init_wired: "ifok (rbs_init net port s) (\<lambda>(v, s'). v = 1 \<and> wired s' \<and> client_fd s' = 0)"
  unfolding rbs_init_def Let_def
  by (cases "sys_socket net (os s)")
    (auto split: sum.splits intro!: ifok_then [OF must_ok] simp: wired_def binary_def out_pins_def)

text \<open>The state of \<open>jtag_tick\<close>: once the server is initialised, its wires are good.\<close>

definition jtag_good :: "int \<times> 'o rbs \<Rightarrow> bool" where
  "jtag_good = (\<lambda>(init, s). init = 0 \<or> wired s)"

definition fine_result :: "int \<times> pins \<Rightarrow> bool" where
  "fine_result = (\<lambda>(rc, p). rc \<in> {0, 1} \<and> fine_pins p)"

lemma jtag_result_wired: "wired s \<Longrightarrow> jtag_result s = (if quit s = 1 then 1 else 0)"
  by (auto simp: jtag_result_def wired_def rbs_done_def rbs_exit_code_def)

lemma jtag_tick_good: "jtag_good x \<Longrightarrow> ifok (jtag_tick net port d x) (\<lambda>(p, x'). fine_result p \<and> jtag_good x')"
  unfolding jtag_tick_def
  by (cases x, simp only: prod.case, rule ifok_then [where Q = "\<lambda>(init, s). wired s"])
    (auto simp: jtag_good_def fine_result_def jtag_result_wired intro!: ifok_weaken [OF init_wired]
      intro: ifok_then [OF tick_wired])

interpretation jtag_c: pin_server "jtag_tick net port" jtag_good fine_result for net port
  by unfold_locales (rule jtag_tick_good)

section \<open>The server of the CVA6 test bench\<close>

lemma option_both: "(\<And>r. x = Some r \<Longrightarrow> y = Some r) \<Longrightarrow> (\<And>r. y = Some r \<Longrightarrow> x = Some r) \<Longrightarrow> x = y"
  by (cases x; cases y) auto

lemma dpi_accept_loop_eq: "dpi_accept_loop net s = rbs_accept_loop net s"
proof (rule option_both)
  fix r assume that: "dpi_accept_loop net s = Some r"
  show "rbs_accept_loop net s = Some r"
  proof (rule dpi_accept_loop.raw_induct [where P = "\<lambda>net s r. rbs_accept_loop net s = Some r", OF _ that], goal_cases)
    case (1 f net s r)
    from 1(2) show ?case
      by (subst rbs_accept_loop.simps) (auto simp: split_beta Let_def split: sum.splits if_splits dest!: 1(1))
  qed
next
  fix r assume that: "rbs_accept_loop net s = Some r"
  show "dpi_accept_loop net s = Some r"
  proof (rule rbs_accept_loop.raw_induct [where P = "\<lambda>net s r. dpi_accept_loop net s = Some r", OF _ that], goal_cases)
    case (1 f net s r)
    from 1(2) show ?case
      by (subst dpi_accept_loop.simps) (auto simp: split_beta Let_def split: sum.splits if_splits dest!: 1(1))
  qed
qed

lemma dpi_send_loop_eq: "dpi_send_loop net c s = rbs_send_loop net c s"
proof (rule option_both)
  fix r assume that: "dpi_send_loop net c s = Some r"
  show "rbs_send_loop net c s = Some r"
  proof (rule dpi_send_loop.raw_induct [where P = "\<lambda>net c s r. rbs_send_loop net c s = Some r", OF _ that], goal_cases)
    case (1 f net c s r)
    from 1(2) show ?case
      by (subst rbs_send_loop.simps) (auto simp: split_beta Let_def split: sum.splits if_splits dest!: 1(1))
  qed
next
  fix r assume that: "rbs_send_loop net c s = Some r"
  show "dpi_send_loop net c s = Some r"
  proof (rule rbs_send_loop.raw_induct [where P = "\<lambda>net c s r. dpi_send_loop net c s = Some r", OF _ that], goal_cases)
    case (1 f net c s r)
    from 1(2) show ?case
      by (subst dpi_send_loop.simps) (auto simp: split_beta Let_def split: sum.splits if_splits dest!: 1(1))
  qed
qed

lemma dpi_hangup_eq: "dpi_hangup net s = rbs_hangup net s"
  by (simp add: dpi_hangup_def rbs_hangup_def)

lemma dpi_switch_eq: "c \<notin> set ''stu'' \<Longrightarrow> dpi_switch c s = rbs_switch c s"
  by (simp add: dpi_switch_def rbs_switch_def dpi_reset_def rbs_reset_def dpi_set_pins_def rbs_set_pins_def)

definition dpi_obey :: "'o sys \<Rightarrow> char \<Rightarrow> 'o rbs \<Rightarrow> ('o, 'o rbs) run" where
  "dpi_obey net c s = (if c \<in> set ''stu'' then Some (Inr (rbs_hangup net (snd (snd (dpi_switch c s))))) else rbs_obey net c s)"

lemma dpi_switch_stu:
  assumes "c \<in> set ''stu''"
  obtains f where "dpi_switch c s = (False, CHR ''?'', say_err f s)"
proof -
  have "dpi_switch c s = (False, CHR ''?'', say_err (''remote_bitbang got unsupported command '' @ [CHR 0x27] @ ''%c'' @ [CHR 0x27] @ LF) s)"
    using assms by (simp, elim disjE) (simp_all add: dpi_switch_def)
  with that show ?thesis by blast
qed

lemma dpi_execute_eq:
  "dpi_execute_command net s = and_then (dpi_read_loop net s) (\<lambda>(c, s). dpi_obey net c s)"
proof -
  have "(let (dosend, tosend, s) = dpi_switch c s in
       and_then (if dosend then dpi_send_loop net tosend s else Some (Inr s)) (\<lambda>s. Some (Inr (dpi_hangup net s))))
     = dpi_obey net c s" for c and s :: "'a rbs"
  proof (cases "c \<in> set ''stu''")
    case True
    then obtain f where "dpi_switch c s = (False, CHR ''?'', say_err f s)" by (rule dpi_switch_stu)
    with True show ?thesis by (simp add: dpi_obey_def dpi_hangup_eq)
  next
    case False
    then have "dpi_switch c s = rbs_switch c s" by (rule dpi_switch_eq)
    then show ?thesis
      unfolding dpi_obey_def rbs_obey_def if_not_P [OF False] by (simp add: dpi_send_loop_eq dpi_hangup_eq split: prod.split)
  qed
  then show ?thesis by (simp add: dpi_execute_command_def split_beta)
qed

lemma dpi_obey_wired:
  assumes "wired s"
  shows "ifok (dpi_obey net c s) wired"
proof (cases "c \<in> set ''stu''")
  case True
  then obtain f where "dpi_switch c s = (False, CHR ''?'', say_err f s)" by (rule dpi_switch_stu)
  with True show ?thesis using wired_hangup [OF assms, of "say_err f s" net] by (simp add: dpi_obey_def)
next
  case False
  then show ?thesis using obey_wired [OF assms] by (simp add: dpi_obey_def)
qed

lemma dpi_read_loop_wires: "ifok (dpi_read_loop net s) (\<lambda>(c, s'). wires s' = wires s)"
proof -
  have "\<forall>c s'. r = Inr (c, s') \<longrightarrow> wires s' = wires s" if "dpi_read_loop net s = Some r" for r
  proof (rule dpi_read_loop.raw_induct [where P = "\<lambda>net s r. \<forall>c s'. r = Inr (c, s') \<longrightarrow> wires s' = wires s", OF _ that], goal_cases)
    case (1 f net s r)
    from 1(2) show ?case
      by (auto simp: abort_def split_beta Let_def split: sum.splits if_splits option.splits dest!: 1(1))
  qed
  then show ?thesis by (auto simp: ifok_def)
qed

lemma dpi_execute_wired: "wired s \<Longrightarrow> ifok (dpi_execute_command net s) wired"
  unfolding dpi_execute_eq
  by (rule ifok_then [OF dpi_read_loop_wires]) (auto intro!: dpi_obey_wired dest: wired_cong)

lemma dpi_tick_wired:
  assumes "wired s"
  shows "ifok (dpi_tick net d s) (\<lambda>(p, s'). fine_pins p \<and> wired s')"
  unfolding dpi_tick_def
proof (rule ifok_then [where Q = wired])
  show "ifok (if 0 < client_fd s then dpi_execute_command net (s\<lparr>tdo := d\<rparr>) else dpi_accept net s) wired"
    using dpi_execute_wired [of "s\<lparr>tdo := d\<rparr>" net] accept_wired [OF assms, of net] assms wired_cong [of "s\<lparr>tdo := d\<rparr>" s]
    by (simp add: dpi_accept_def rbs_accept_def dpi_accept_loop_eq)
qed (simp add: fine_pins_def wired_def out_pins_def)

lemma dpi_new_wired: "ifok (dpi_new net port s) (\<lambda>s'. wired s' \<and> client_fd s' = 0)"
  unfolding dpi_new_def Let_def
  by (cases "sys_socket net (os s)")
    (auto split: sum.splits intro!: ifok_then [OF must_ok] simp: wired_def binary_def out_pins_def)

definition dpi_good :: "bool \<times> 'o rbs \<Rightarrow> bool" where
  "dpi_good = (\<lambda>(made, s). \<not> made \<or> wired s)"

lemma dpi_jtag_tick_good: "dpi_good x \<Longrightarrow> ifok (dpi_jtag_tick net d x) (\<lambda>(p, x'). fine_result p \<and> dpi_good x')"
  unfolding dpi_jtag_tick_def
  by (cases x, simp only: prod.case, rule ifok_then [where Q = wired])
    (auto simp: dpi_good_def fine_result_def intro!: ifok_weaken [OF dpi_new_wired]
      intro: ifok_then [OF dpi_tick_wired] simp: wired_def)

interpretation jtag_dpi: pin_server "dpi_jtag_tick net" dpi_good fine_result for net
  by unfold_locales (rule dpi_jtag_tick_good)

section \<open>The two servers compared\<close>

text \<open>A client that never closes its end without saying \<open>Q\<close>: \<open>read\<close> never reports end of file.\<close>

definition keeps_open :: "'o sys \<Rightarrow> int \<Rightarrow> bool" where
  "keeps_open net fd \<longleftrightarrow> (\<forall>x. fst (sys_read1 net fd x) \<noteq> Inr None)"

lemma keeps_openD: "keeps_open net fd \<Longrightarrow> sys_read1 net fd x = (r, y) \<Longrightarrow> r \<noteq> Inr None"
  unfolding keeps_open_def by (metis fst_conv)

lemma dpi_read_loop_eq:
  assumes "keeps_open net (client_fd s)"
  shows "dpi_read_loop net s = map_option (map_sum id (\<lambda>(c, s). (the c, s))) (rbs_read_loop net s)"
proof (rule option_both)
  fix r assume that: "dpi_read_loop net s = Some r"
  have "keeps_open net (client_fd s) \<longrightarrow> map_option (map_sum id (\<lambda>(c, s). (the c, s))) (rbs_read_loop net s) = Some r"
  proof (rule dpi_read_loop.raw_induct [where P = "\<lambda>net s r. keeps_open net (client_fd s) \<longrightarrow>
      map_option (map_sum id (\<lambda>(c, s). (the c, s))) (rbs_read_loop net s) = Some r", OF _ that], goal_cases)
    case (1 f net s r)
    from 1(2) show ?case
      by (subst rbs_read_loop.simps)
        (auto simp: abort_def Let_def split: sum.splits if_splits option.splits prod.splits dest!: 1(1) dest: keeps_openD)
  qed
  with assms show "map_option (map_sum id (\<lambda>(c, s). (the c, s))) (rbs_read_loop net s) = Some r" by simp
next
  fix r assume "map_option (map_sum id (\<lambda>(c, s). (the c, s))) (rbs_read_loop net s) = Some r"
  then obtain r' where that: "rbs_read_loop net s = Some r'" and r: "r = map_sum id (\<lambda>(c, s). (the c, s)) r'" by auto
  have "keeps_open net (client_fd s) \<longrightarrow> dpi_read_loop net s = Some (map_sum id (\<lambda>(c, s). (the c, s)) r')"
  proof (rule rbs_read_loop.raw_induct [where P = "\<lambda>net s r. keeps_open net (client_fd s) \<longrightarrow>
      dpi_read_loop net s = Some (map_sum id (\<lambda>(c, s). (the c, s)) r)", OF _ that], goal_cases)
    case (1 f net s r)
    from 1(2) show ?case
      by (subst dpi_read_loop.simps)
        (auto simp: abort_def Let_def split: sum.splits if_splits option.splits prod.splits dest!: 1(1) dest: keeps_openD)
  qed
  with assms r show "dpi_read_loop net s = Some r" by simp
qed

lemma read_loop_some:
  assumes "keeps_open net (client_fd s)"
  shows "ifok (rbs_read_loop net s) (\<lambda>(c, s'). c \<noteq> None)"
proof -
  have "keeps_open net (client_fd s) \<longrightarrow> (\<forall>c s'. r = Inr (c, s') \<longrightarrow> c \<noteq> None)" if "rbs_read_loop net s = Some r" for r
  proof (rule rbs_read_loop.raw_induct [where P = "\<lambda>net s r. keeps_open net (client_fd s) \<longrightarrow>
      (\<forall>c s'. r = Inr (c, s') \<longrightarrow> c \<noteq> None)", OF _ that], goal_cases)
    case (1 f net s r)
    from 1(2) show ?case
      by (auto simp: abort_def Let_def split: sum.splits if_splits option.splits prod.splits dest!: 1(1) dest: keeps_openD)
  qed
  with assms show ?thesis by (auto simp: ifok_def)
qed

definition mute :: "'o rbs \<Rightarrow> 'o rbs" where
  "mute s = s\<lparr>stderr := []\<rparr>"

lemma mute_hangup: "mute (rbs_hangup net (say_err f s)) = mute (rbs_hangup net s)"
  by (simp add: mute_def rbs_hangup_def say_err_def Let_def)

lemma dpi_obey_mute: "map_option (map_sum mute mute) (dpi_obey net c s) = map_option (map_sum mute mute) (rbs_obey net c s)"
proof (cases "c \<in> set ''stu''")
  case True
  then obtain f where dpi: "dpi_switch c s = (False, CHR ''?'', say_err f s)" by (rule dpi_switch_stu)
  have "rbs_switch c s = (False, CHR ''?'', s)"
    using True by (simp, elim disjE) (simp_all add: rbs_switch_def rbs_reset_def)
  with True dpi show ?thesis by (simp add: dpi_obey_def rbs_obey_def mute_hangup)
next
  case False
  then show ?thesis by (simp add: dpi_obey_def)
qed

text \<open>The result of a command or tick without the messages.\<close>

definition muted :: "('o, 'a \<times> 'o rbs) run \<Rightarrow> ('o, 'a \<times> 'o rbs) run" where
  "muted = map_option (map_sum mute (map_prod id mute))"

lemma execute_mute:
  assumes "keeps_open net (client_fd s)"
  shows "map_option (map_sum mute mute) (dpi_execute_command net s) = map_option (map_sum mute mute) (rbs_execute_command net s)"
proof (cases "rbs_read_loop net s")
  case (Some r)
  show ?thesis
  proof (cases r)
    case (Inr cs)
    with Some read_loop_some [OF assms] obtain c s1 where "cs = (Some c, s1)" by (cases cs) (auto simp: ifok_def)
    with Some Inr show ?thesis
      by (simp add: dpi_execute_eq rbs_execute_command_def dpi_read_loop_eq [OF assms] dpi_obey_mute)
  qed (simp add: Some dpi_execute_eq rbs_execute_command_def dpi_read_loop_eq [OF assms])
qed (simp add: dpi_execute_eq rbs_execute_command_def dpi_read_loop_eq [OF assms])

lemma pins_of_mute: "tck (mute s) = tck s \<and> tms (mute s) = tms s \<and> tdi (mute s) = tdi s \<and> trstn (mute s) = trstn s"
  by (simp add: mute_def)

lemma muted_pins:
  "muted (and_then m (\<lambda>s. Some (Inr ((tck s, tms s, tdi s, trstn s), s)))) =
   map_option (map_sum id (\<lambda>s. ((tck s, tms s, tdi s, trstn s), s))) (map_option (map_sum mute mute) m)"
  by (cases m; cases "the m") (auto simp: muted_def mute_def)

lemma tick_mute:
  assumes "keeps_open net (client_fd s)"
  shows "muted (dpi_tick net d s) = muted (rbs_tick net d s)"
  using execute_mute [of net "s\<lparr>tdo := d\<rparr>"] assms
  unfolding dpi_tick_def rbs_tick_def rbs_pins_def muted_pins
  by (simp add: dpi_accept_def rbs_accept_def dpi_accept_loop_eq)

section \<open>A client that is gone\<close>

definition gone :: "'o sys \<Rightarrow> int \<Rightarrow> bool" where
  "gone net fd \<longleftrightarrow> (\<forall>x. fst (sys_read1 net fd x) = Inr None)"

lemma goneE:
  assumes "gone net fd"
  obtains y where "sys_read1 net fd x = (Inr None, y)"
  using assms unfolding gone_def by (metis prod.collapse)

lemma dpi_read_loop_gone: "gone net (client_fd s) \<Longrightarrow> dpi_read_loop net s = None"
proof (rule ccontr)
  assume g: "gone net (client_fd s)" and "dpi_read_loop net s \<noteq> None"
  then obtain r where that: "dpi_read_loop net s = Some r" by blast
  have "\<not> gone net (client_fd s)"
  proof (rule dpi_read_loop.raw_induct [where P = "\<lambda>net s r. \<not> gone net (client_fd s)", OF _ that], goal_cases)
    case (1 f net s r)
    show ?case
    proof
      assume g: "gone net (client_fd s)"
      then obtain y where "sys_read1 net (client_fd s) (os s) = (Inr None, y)" by (rule goneE)
      with 1(2) have "f net (say_err (''No Command Received.'' @ LF) (s\<lparr>os := y\<rparr>)) = Some r" by simp
      from 1(1) [OF this] g show False by simp
    qed
  qed
  with g show False by blast
qed

section \<open>A network to try it on\<close>

text \<open>One client that says \<open>EAGAIN\<close> before every byte, and one that has closed its end.\<close>

record chat =
  busy :: bool
  coming :: "char list"
  said :: "char list"

definition chat_read :: "chat \<Rightarrow> (errno + char option) \<times> chat" where
  "chat_read x = (case coming x of
       c # cs \<Rightarrow> if busy x then (Inl EAGAIN, x\<lparr>busy := False\<rparr>) else (Inr (Some c), x\<lparr>busy := True, coming := cs\<rparr>)
     | [] \<Rightarrow> (Inl EAGAIN, x))"

definition chat_net :: "chat sys" where
  "chat_net = \<lparr>sys_socket = (\<lambda>x. (Inr 3, x)), sys_nonblock = (\<lambda>_ x. x), sys_reuseaddr = (\<lambda>_ x. (Inr (), x)),
     sys_bind = (\<lambda>_ _ x. (Inr (), x)), sys_listen = (\<lambda>_ _ x. (Inr (), x)), sys_getsockname = (\<lambda>_ x. (Inr 9999, x)),
     sys_accept = (\<lambda>_ x. (Inr 4, x)), sys_read1 = (\<lambda>_. chat_read),
     sys_write1 = (\<lambda>_ c x. (Inr 1, x\<lparr>said := said x @ [c]\<rparr>)), sys_close = (\<lambda>_ x. x)\<rparr>"

definition chat_view :: "chat client_view" where
  "chat_view = \<lparr>inbox = coming, outbox = said\<rparr>"

definition chat_rbs :: "string \<Rightarrow> chat rbs" where
  "chat_rbs cmds = \<lparr>rbs_err = 0, tck = 1, tms = 1, tdi = 1, trstn = 1, tdo = 0, quit = 0, socket_fd = 3, client_fd = 4,
     recv_start = 0, recv_end = 0, os = \<lparr>busy = True, coming = cmds, said = []\<rparr>, stderr = []\<rparr>"

lemma chat_read_poll: "coming x \<noteq> [] \<Longrightarrow> \<exists>n. fst (chat_read (((\<lambda>y. snd (chat_read y)) ^^ n) x)) \<noteq> Inl EAGAIN"
  by (rule exI [of _ "if busy x then 1 else 0"]) (auto simp: chat_read_def split: list.splits)

lemma chat_live: "live_client chat_net fd chat_view"
  unfolding live_client_def
proof (intro conjI allI impI)
  fix x :: chat and c
  show "let (r, y) = sys_read1 chat_net fd x in
        r = Inl EAGAIN \<and> same_boxes chat_view x y \<or> r = Inr None \<and> inbox chat_view x = [] \<and> same_boxes chat_view x y \<or>
        (\<exists>c. r = Inr (Some c) \<and> inbox chat_view x = c # inbox chat_view y \<and> outbox chat_view y = outbox chat_view x)"
    by (auto simp: chat_net_def chat_read_def chat_view_def same_boxes_def split: list.splits)
  show "inbox chat_view x \<noteq> [] \<Longrightarrow> \<exists>n. fst (sys_read1 chat_net fd (read_polls chat_net fd n x)) \<noteq> Inl EAGAIN"
    using chat_read_poll [of x] by (simp add: chat_view_def chat_net_def read_polls_def)
qed (simp_all add: chat_net_def chat_view_def same_boxes_def Let_def)

lemma chat_keeps_open: "keeps_open chat_net fd"
  by (simp add: keeps_open_def chat_net_def chat_read_def split: list.splits)

lemma chat_connected: "connected chat_net 4 chat_view (chat_rbs cmds)"
  by (simp add: connected_def chat_live chat_rbs_def)

definition gone_net :: "chat sys" where
  "gone_net = chat_net\<lparr>sys_read1 := (\<lambda>_ x. (Inr None, x))\<rparr>"

lemma gone_net_gone: "gone gone_net fd"
  by (simp add: gone_def gone_net_def)

section \<open>Properties\<close>

text \<open>
  Claim C10: a session of the bitbang server is what the client asked for, or the server stops at a failed
  write. While a connected client sends commands other than \<open>Q\<close>, the ticks execute them one by one, in
  order, whatever the delays of the network are. Either every tick returns: then the waveform driven on the
  JTAG pins is the commands decoded (a digit sets TCK, TMS and TDI to its three bits, everything else
  leaves the pins alone), and the client receives one character for every \<open>R\<close>, the value that TDO had at
  that tick. Or the server aborts, and then only because \<open>write\<close> failed (as it does with \<open>EAGAIN\<close> when the
  buffer of the non-blocking socket is full) on the answer to an \<open>R\<close>: the client has received exactly the
  answers to the commands before it.
\<close>

theorem session_follows_commands:
  assumes "connected net fd V s" and "inbox V (os s) = cmds @ rest"
    and "CHR ''Q'' \<notin> set cmds" and "length ds = length cmds"
  shows "ends (ticks (rbs_tick net) ds s)
     (\<lambda>s'. \<exists>k x e. k < length cmds \<and> cmds ! k = CHR ''R'' \<and>
        sys_write1 net fd (if ds ! k \<noteq> 0 then CHR ''1'' else CHR ''0'') x = (Inl e, os s') \<and>
        outbox V (os s') = outbox V (os s) @ concat (map2 bb_reply (take k cmds) ds) \<and>
        inbox V (os s') = drop (Suc k) cmds @ rest)
     (\<lambda>(ps, s'). ps = map (\<lambda>(c, m, d). (c, m, d, trstn s)) (bb_wave cmds (tck s, tms s, tdi s)) \<and>
        outbox V (os s') = outbox V (os s) @ concat (map2 bb_reply cmds ds) \<and>
        inbox V (os s') = rest \<and> connected net fd V s')"
proof (rule ends_weaken [OF session_live [OF assms]], goal_cases)
  case (1 s')
  then show ?case unfolding session_failed_def answer_failed_def write_failed_def by blast
qed (auto simp: session_ok_def out_pins_def)

theorem session_follows_commands_witness:
  "okw (ticks (rbs_tick chat_net) [0, 1, 0] (chat_rbs ''5R2'')) (\<lambda>(ps, s').
     ps = [(1, 0, 1, 1), (1, 0, 1, 1), (0, 1, 0, 1)] \<and> said (os s') = ''1'')"
proof -
  have no: "sys_write1 chat_net fd c x = (Inl e, y) \<Longrightarrow> False" for fd c x e y by (simp add: chat_net_def)
  from session_follows_commands [OF chat_connected, where cmds = "''5R2''" and rest = "[]" and ds = "[0, 1, 0]"]
  show ?thesis
    by (auto elim!: endsE dest: no simp: chat_rbs_def chat_view_def bb_reply_def bb_pins_digits bb_pins_other)
qed

text \<open>
  Claim C23: whatever the operating system answers, in every run of ticks from the start both
  test benches only ever see binary pins with the reset pin inactive, and a result of 0 or 1: the
  error code is never anything but 0.
\<close>

theorem jtag_pins_stay_binary:
  "ifok (ticks (jtag_tick net port) ds (0, s)) (\<lambda>(outs, x). list_all (\<lambda>(rc, c, m, d, r).
     rc \<in> {0, 1} \<and> c \<in> {0, 1} \<and> m \<in> {0, 1} \<and> d \<in> {0, 1} \<and> r = 1) outs) \<and>
   ifok (ticks (dpi_jtag_tick net) ds (False, s)) (\<lambda>(outs, x). list_all (\<lambda>(rc, c, m, d, r).
     rc \<in> {0, 1} \<and> c \<in> {0, 1} \<and> m \<in> {0, 1} \<and> d \<in> {0, 1} \<and> r = 1) outs)"
proof -
  have fine: "fine_result = (\<lambda>(rc, c, m, d, r). rc \<in> {0, 1} \<and> c \<in> {0, 1} \<and> m \<in> {0, 1} \<and> d \<in> {0, 1} \<and> r = 1)"
    by (auto simp: fine_result_def fine_pins_def binary_def fun_eq_iff)
  show ?thesis
    using jtag_c.ticks_fine [of "(0, s)" net port ds] jtag_dpi.ticks_fine [of "(False, s)" net ds]
    unfolding fine by (simp add: jtag_good_def dpi_good_def)
qed

text \<open>
  Claim C24: the two servers are interchangeable for a client that does not drop the connection:
  from the same state, a tick of the C++ server and a tick of the C server do the same (return,
  abort or wait), with the same pins, the same state and the same system calls; only the messages
  on standard error differ.
\<close>

theorem servers_agree:
  assumes "keeps_open net (client_fd s)"
  shows "muted (dpi_tick net d s) = muted (rbs_tick net d s)"
  by (rule tick_mute [OF assms])

theorem servers_agree_witness:
  "muted (dpi_tick chat_net 1 (chat_rbs ''tR'')) = muted (rbs_tick chat_net 1 (chat_rbs ''tR''))"
  by (rule servers_agree [OF chat_keeps_open])

text \<open>
  Claim C22: a client that disconnects without \<open>Q\<close>. The tick of the C server returns with the pins as
  they were and keeps the dead connection; the tick of the C++ server never returns, so the
  simulation hangs.
\<close>

theorem client_gone:
  assumes "0 < client_fd s" and "gone net (client_fd s)"
  shows "okw (rbs_tick net d s) (\<lambda>(p, s'). p = rbs_pins s \<and> client_fd s' = client_fd s \<and> quit s' = quit s) \<and>
    dpi_tick net d s = None"
proof
  obtain y where "sys_read1 net (client_fd s) (os s) = (Inr None, y)" by (rule goneE [OF assms(2)])
  then have "rbs_read_loop net (s\<lparr>tdo := d\<rparr>) = Some (Inr (None, say_err (''No command received. Stopping further reads.'' @ LF)
      (s\<lparr>tdo := d, os := y\<rparr>)))"
    by (subst rbs_read_loop.simps) simp
  then show "okw (rbs_tick net d s) (\<lambda>(p, s'). p = rbs_pins s \<and> client_fd s' = client_fd s \<and> quit s' = quit s)"
    using assms(1) by (simp add: rbs_tick_def rbs_execute_command_def rbs_pins_def)
  show "dpi_tick net d s = None"
    using dpi_read_loop_gone [of net "s\<lparr>tdo := d\<rparr>"] assms by (simp add: dpi_tick_def dpi_execute_eq)
qed

theorem client_gone_witness:
  "okw (rbs_tick gone_net 0 (chat_rbs [])) (\<lambda>(p, s'). p = (1, 1, 1, 1)) \<and> dpi_tick gone_net 0 (chat_rbs []) = None"
proof -
  have "0 < client_fd (chat_rbs [])" by (simp add: chat_rbs_def)
  note gone = client_gone [OF this gone_net_gone, of 0]
  have pins: "rbs_pins (chat_rbs []) = (1, 1, 1, 1)" by (simp add: rbs_pins_def chat_rbs_def)
  show ?thesis
    by (rule conjI [OF okw_weaken [OF conjunct1 [OF gone]] conjunct2 [OF gone]]) (simp only: pins case_prod_beta)
qed

end
