(* ===== verification/Syscalls.thy ===== *)
theory Syscalls
  imports Boot_Prelude
begin

text \<open>
  The C library's system calls on the debug test bench,
  \<open>corev_apu/riscv-dbg/tb/prog/syscalls.c\<close> (rv32, 32-bit pointers). The state is memory, the
  program break, \<open>errno\<close> and the sequence of what leaves the processor: stores outside RAM
  and the \<open>wfi\<close> instruction. Most calls are not supported; they are translated all the same, one
  definition per function; a leading underscore of the C name becomes the prefix \<open>sc_\<close>.

  Newlib's headers are not part of the repository: the numeric error codes, the position of
  \<open>st_mode\<close> in \<open>struct stat\<close> and the bytes of \<open>S_IFCHR\<close> in it are the parameter \<open>lib\<close>. \<open>__heap_start\<close> and \<open>__heap_end\<close> come from the
  linker script and are arguments of \<open>_sbrk\<close>.
\<close>

type_synonym ptr32 = "32 word"

datatype error_name = ENOSYS | ENOMEM | EAGAIN' | EINVAL | EMLINK | ENOENT | ECHILD

record lib =
  code :: "error_name \<Rightarrow> int"
  st_mode_at :: ptr32
  chr_mode :: "u8 list"

datatype seen = Store ptr32 u32 | Wfi

record libc =
  memory :: "ptr32 \<Rightarrow> u8"
  brk :: ptr32
  errno :: int
  events :: "seen list"

definition STDOUT_REG :: ptr32 where "STDOUT_REG = 0x10000000"
definition RESULT_REG :: ptr32 where "RESULT_REG = 0x20000000"
definition EXIT_REG :: ptr32 where "EXIT_REG = 0x20000004"
definition STDOUT_FILENO :: int where "STDOUT_FILENO = 1"

text \<open>
  What a store of the core reaches in the test bench: the ranges of \<open>dm_tb_pkg.sv\<close>, in the order in which
  \<open>mm_ram.sv\<close> compares them. The RAM is there twice, at its base and at 0.
\<close>

datatype target = Ignored | Verdict | Printer | DebugModule | Ram | Unmapped

definition in_range :: "ptr32 \<Rightarrow> ptr32 \<Rightarrow> ptr32 \<Rightarrow> bool" where
  "in_range a base len \<longleftrightarrow> base \<le> a \<and> a < base + len"

definition tb_target :: "ptr32 \<Rightarrow> target" where
  "tb_target a =
     (if in_range a 0x1A000000 0x100000 \<or> in_range a 0x1A100000 0x1000 \<or> in_range a 0x1A101000 0x1000 \<or>
         in_range a 0x1A102000 0x2000 then Ignored
      else if in_range a 0x1A104000 0x1000 then Verdict
      else if in_range a 0x1A105000 0x1000 \<or> in_range a 0x1A106000 0x5000 \<or> in_range a 0x1A10B000 0x1000 \<or>
         in_range a 0x1A10C000 0x3000 then Ignored
      else if in_range a 0x1A10F000 0x1000 then Printer
      else if in_range a 0x1A110000 0x1000 then DebugModule
      else if in_range a 0x1C000000 0xFC000 \<or> a < 0xFC000 then Ram
      else Unmapped)"

text \<open>
  A store through a pointer: into both images of the RAM, of which an address selects a byte by its low
  20 bits, or out on the bus.
\<close>

definition bytes_word :: "u8 list \<Rightarrow> u32" where
  "bytes_word bs = foldr (\<lambda>b w. ucast b + 256 * w) bs 0"

definition store_through :: "ptr32 \<Rightarrow> u8 list \<Rightarrow> libc \<Rightarrow> libc" where
  "store_through a bs s =
     (if tb_target a = Ram then
        s\<lparr>memory := (\<lambda>b. let i = unat (take_bit 20 b - take_bit 20 a) in
           if tb_target b = Ram \<and> i < length bs then bs ! i else memory s b)\<rparr>
      else s\<lparr>events := events s @ [Store a (bytes_word bs)]\<rparr>)"

definition store_int :: "ptr32 \<Rightarrow> u32 \<Rightarrow> libc \<Rightarrow> libc" where
  "store_int a v s = s\<lparr>events := events s @ [Store a v]\<rparr>"

text \<open>\<open>return -1\<close> after \<open>errno = e\<close>.\<close>

definition fails :: "int \<Rightarrow> libc \<Rightarrow> int \<times> libc" where
  "fails e s = (- 1, s\<lparr>errno := e\<rparr>)"

section \<open>The functions, in the order of the file\<close>

definition unimplemented_syscall :: "libc \<Rightarrow> libc" where
  "unimplemented_syscall s =
     foldl (\<lambda>s c. store_int STDOUT_REG (of_char c) s) s (''Unimplemented system call called!'' @ [CHR 0x0A])"

definition nanosleep :: "lib \<Rightarrow> ptr32 \<Rightarrow> ptr32 \<Rightarrow> libc \<Rightarrow> int \<times> libc" where
  "nanosleep L rqtp rmtp s = fails (code L ENOSYS) s"

definition sc_access :: "lib \<Rightarrow> ptr32 \<Rightarrow> int \<Rightarrow> libc \<Rightarrow> int \<times> libc" where
  "sc_access L file mode s = fails (code L ENOSYS) s"

definition sc_chdir :: "lib \<Rightarrow> ptr32 \<Rightarrow> libc \<Rightarrow> int \<times> libc" where
  "sc_chdir L path s = fails (code L ENOSYS) s"

definition sc_chmod :: "lib \<Rightarrow> ptr32 \<Rightarrow> int \<Rightarrow> libc \<Rightarrow> int \<times> libc" where
  "sc_chmod L path mode s = fails (code L ENOSYS) s"

definition sc_chown :: "lib \<Rightarrow> ptr32 \<Rightarrow> int \<Rightarrow> int \<Rightarrow> libc \<Rightarrow> int \<times> libc" where
  "sc_chown L path owner grp s = fails (code L ENOSYS) s"

definition sc_close :: "int \<Rightarrow> libc \<Rightarrow> int \<times> libc" where
  "sc_close file s = (- 1, s)"

definition sc_execve :: "lib \<Rightarrow> ptr32 \<Rightarrow> ptr32 \<Rightarrow> ptr32 \<Rightarrow> libc \<Rightarrow> int \<times> libc" where
  "sc_execve L name argv env s = fails (code L ENOMEM) s"

definition sc_exit :: "int \<Rightarrow> libc \<Rightarrow> libc" where
  "sc_exit exit_status s =
     (let s = store_int EXIT_REG (of_int exit_status) s in s\<lparr>events := events s @ [Wfi]\<rparr>)"

definition sc_faccessat :: "lib \<Rightarrow> int \<Rightarrow> ptr32 \<Rightarrow> int \<Rightarrow> int \<Rightarrow> libc \<Rightarrow> int \<times> libc" where
  "sc_faccessat L dirfd file mode flags s = fails (code L ENOSYS) s"

definition sc_fork :: "lib \<Rightarrow> libc \<Rightarrow> int \<times> libc" where
  "sc_fork L s = fails (code L EAGAIN') s"

definition sc_fstat :: "lib \<Rightarrow> int \<Rightarrow> ptr32 \<Rightarrow> libc \<Rightarrow> int \<times> libc" where
  "sc_fstat L file st s = (0, store_through (st + st_mode_at L) (chr_mode L) s)"

definition sc_fstatat :: "lib \<Rightarrow> int \<Rightarrow> ptr32 \<Rightarrow> ptr32 \<Rightarrow> int \<Rightarrow> libc \<Rightarrow> int \<times> libc" where
  "sc_fstatat L dirfd file st flags s = fails (code L ENOSYS) s"

definition sc_ftime :: "lib \<Rightarrow> ptr32 \<Rightarrow> libc \<Rightarrow> int \<times> libc" where
  "sc_ftime L tp s = fails (code L ENOSYS) s"

text \<open>\<open>_getcwd\<close> returns a null pointer; it and \<open>_gettimeofday\<close> negate the error code.\<close>

definition sc_getcwd :: "lib \<Rightarrow> ptr32 \<Rightarrow> u32 \<Rightarrow> libc \<Rightarrow> ptr32 \<times> libc" where
  "sc_getcwd L buf sz s = (0, s\<lparr>errno := - code L ENOSYS\<rparr>)"

definition sc_getpid :: "libc \<Rightarrow> int \<times> libc" where
  "sc_getpid s = (1, s)"

definition sc_gettimeofday :: "lib \<Rightarrow> ptr32 \<Rightarrow> ptr32 \<Rightarrow> libc \<Rightarrow> int \<times> libc" where
  "sc_gettimeofday L tp tzp s = fails (- code L ENOSYS) s"

definition sc_isatty :: "int \<Rightarrow> libc \<Rightarrow> int \<times> libc" where
  "sc_isatty file s = (if file = STDOUT_FILENO then 1 else 0, s)"

definition sc_kill :: "lib \<Rightarrow> int \<Rightarrow> int \<Rightarrow> libc \<Rightarrow> int \<times> libc" where
  "sc_kill L pid sig s = fails (code L EINVAL) s"

definition sc_link :: "lib \<Rightarrow> ptr32 \<Rightarrow> ptr32 \<Rightarrow> libc \<Rightarrow> int \<times> libc" where
  "sc_link L old_name new_name s = fails (code L EMLINK) s"

definition sc_lseek :: "int \<Rightarrow> int \<Rightarrow> int \<Rightarrow> libc \<Rightarrow> int \<times> libc" where
  "sc_lseek file ptr dir s = (0, s)"

definition sc_lstat :: "lib \<Rightarrow> ptr32 \<Rightarrow> ptr32 \<Rightarrow> libc \<Rightarrow> int \<times> libc" where
  "sc_lstat L file st s = fails (code L ENOSYS) s"

definition sc_open :: "ptr32 \<Rightarrow> int \<Rightarrow> int \<Rightarrow> libc \<Rightarrow> int \<times> libc" where
  "sc_open name flags mode s = (- 1, s)"

definition sc_openat :: "lib \<Rightarrow> int \<Rightarrow> ptr32 \<Rightarrow> int \<Rightarrow> int \<Rightarrow> libc \<Rightarrow> int \<times> libc" where
  "sc_openat L dirfd name flags mode s = fails (code L ENOSYS) s"

definition sc_read :: "int \<Rightarrow> ptr32 \<Rightarrow> u32 \<Rightarrow> libc \<Rightarrow> int \<times> libc" where
  "sc_read file ptr len s = (0, s)"

definition sc_stat :: "lib \<Rightarrow> ptr32 \<Rightarrow> ptr32 \<Rightarrow> libc \<Rightarrow> int \<times> libc" where
  "sc_stat L file st s = (0, store_through (st + st_mode_at L) (chr_mode L) s)"

definition sc_sysconf :: "int \<Rightarrow> libc \<Rightarrow> int \<times> libc" where
  "sc_sysconf name s = (- 1, s)"

definition sc_times :: "ptr32 \<Rightarrow> libc \<Rightarrow> int \<times> libc" where
  "sc_times buf s = (- 1, s)"

definition sc_unlink :: "lib \<Rightarrow> ptr32 \<Rightarrow> libc \<Rightarrow> int \<times> libc" where
  "sc_unlink L name s = fails (code L ENOENT) s"

definition sc_utime :: "lib \<Rightarrow> ptr32 \<Rightarrow> ptr32 \<Rightarrow> libc \<Rightarrow> int \<times> libc" where
  "sc_utime L path tms s = fails (code L ENOSYS) s"

definition sc_wait :: "lib \<Rightarrow> ptr32 \<Rightarrow> libc \<Rightarrow> int \<times> libc" where
  "sc_wait L status s = fails (code L ECHILD) s"

lemma unat_dist_less: "ptr \<noteq> eptr \<Longrightarrow> unat (eptr - (ptr + 1)) < unat (eptr - ptr)" for ptr eptr :: ptr32
proof -
  assume "ptr \<noteq> eptr"
  then have d: "eptr - ptr \<noteq> 0" by simp
  have e: "eptr - (ptr + 1) = eptr - ptr - 1" by simp
  have "0 < unat (eptr - ptr)" using d unat_gt_0 by blast
  then show ?thesis unfolding e unat_minus_one [OF d] by simp
qed

text \<open>The loop ends when the pointer reaches \<open>eptr\<close>, also when the address wraps around; \<open>char\<close> is
  unsigned on RISC-V.\<close>

function write_loop :: "ptr32 \<Rightarrow> ptr32 \<Rightarrow> libc \<Rightarrow> libc" where
  "write_loop ptr eptr s =
     (if ptr \<noteq> eptr then write_loop (ptr + 1) eptr (store_int STDOUT_REG (ucast (memory s ptr)) s) else s)"
  by pat_completeness auto

termination
  by (relation "measure (\<lambda>(ptr, eptr, s). unat (eptr - ptr))") (auto intro: unat_dist_less)

declare write_loop.simps [simp del]

definition sc_write :: "lib \<Rightarrow> int \<Rightarrow> ptr32 \<Rightarrow> u32 \<Rightarrow> libc \<Rightarrow> int \<times> libc" where
  "sc_write L file ptr len s =
     (if file \<noteq> STDOUT_FILENO then fails (code L ENOSYS) s
      else (sint len, write_loop ptr (ptr + len) s))"

definition sc_brk :: "ptr32 \<Rightarrow> libc \<Rightarrow> int \<times> libc" where
  "sc_brk addr s = (0, s\<lparr>brk := addr\<rparr>)"

definition sc_sbrk :: "ptr32 \<Rightarrow> ptr32 \<Rightarrow> u32 \<Rightarrow> libc \<Rightarrow> ptr32 \<times> libc" where
  "sc_sbrk heap_start heap_end incr s =
     (let old_brk = brk s in
      if heap_start = heap_end then (0, s)
      else
        (let s = s\<lparr>brk := brk s + incr\<rparr>;
             s = if brk s < heap_end then s\<lparr>brk := brk s + incr\<rparr> else s\<lparr>brk := heap_end\<rparr> in
         (old_brk, s)))"

section \<open>Output\<close>

definition text_of :: "(ptr32 \<Rightarrow> u8) \<Rightarrow> ptr32 \<Rightarrow> nat \<Rightarrow> u8 list" where
  "text_of m p n = map (\<lambda>i. m (p + of_nat i)) [0..<n]"

definition shown :: "u8 list \<Rightarrow> seen list" where
  "shown bs = map (\<lambda>b. Store STDOUT_REG (ucast b)) bs"

lemma text_of_Suc: "text_of m p (Suc n) = m p # text_of m (p + 1) n"
  by (simp add: text_of_def upt_conv_Cons map_Suc_upt [symmetric] o_def ac_simps del: upt_Suc)

lemma store_int_sel [simp]:
  "memory (store_int a v s) = memory s" "brk (store_int a v s) = brk s" "errno (store_int a v s) = errno s"
  "events (store_int a v s) = events s @ [Store a v]"
  by (simp_all add: store_int_def)

lemma write_loop_eq:
  "write_loop ptr (ptr + of_nat n) s = s\<lparr>events := events s @ shown (text_of (memory s) ptr n)\<rparr>" if "n < 2 ^ 32"
  using that
proof (induction n arbitrary: ptr s)
  case 0
  show ?case by (subst write_loop.simps) (simp add: text_of_def shown_def)
next
  case (Suc n)
  have "of_nat (Suc n) \<noteq> (0 :: ptr32)"
    using Suc.prems by (simp add: word_of_nat_eq_0_iff nat_dvd_not_less del: of_nat_Suc)
  then have ne: "ptr \<noteq> ptr + of_nat (Suc n)" by simp
  have "write_loop ptr (ptr + of_nat (Suc n)) s =
      write_loop (ptr + 1) (ptr + 1 + of_nat n) (store_int STDOUT_REG (ucast (memory s ptr)) s)"
    using ne by (subst write_loop.simps) (simp add: ac_simps)
  then show ?case using Suc by (simp add: text_of_Suc shown_def store_int_def)
qed

text \<open>
  Claim C34: \<open>_write\<close> to standard output always returns, also when the buffer wraps around the end of
  the address space; what leaves the processor is exactly the bytes of the buffer, in order, each as one
  store to the output register, and nothing else changes. Every other file descriptor is refused
  with \<open>ENOSYS\<close> and no output.
\<close>

theorem write_shows_buffer:
  "sc_write L file ptr len s =
     (if file = 1 then (sint len, s\<lparr>events := events s @ shown (text_of (memory s) ptr (unat len))\<rparr>)
      else (- 1, s\<lparr>errno := code L ENOSYS\<rparr>))"
  using write_loop_eq [of "unat len" ptr s] unsigned_less [of len, where 'a = nat]
  by (simp add: sc_write_def STDOUT_FILENO_def fails_def)

section \<open>The program break\<close>

text \<open>
  Claim C36: \<open>_sbrk\<close> advances the break twice per call and never reports that the heap is exhausted.
  From a break inside the heap, a positive request that does not wrap around always gets the old
  break as its block; the new break is beyond the end of the heap exactly when the request fits
  once but not twice, and the block itself sticks out of the heap, with the break set to its end,
  when it does not fit.
\<close>

theorem sbrk_overruns:
  assumes "hs \<noteq> he" and "brk s \<le> he" and "0 < incr" and "unat (brk s) + 2 * unat incr < 2 ^ 32"
  shows "fst (sc_sbrk hs he incr s) = brk s \<and>
    unat (brk (snd (sc_sbrk hs he incr s))) =
      (if unat (brk s) + unat incr < unat he then unat (brk s) + 2 * unat incr else unat he) \<and>
    (he < brk (snd (sc_sbrk hs he incr s)) \<longleftrightarrow>
      unat (brk s) + unat incr < unat he \<and> unat he < unat (brk s) + 2 * unat incr)"
proof -
  have once: "unat (brk s + incr) = unat (brk s) + unat incr"
    using assms(4) by (simp add: unat_word_ariths)
  have twice: "unat (brk s + incr + incr) = unat (brk s) + 2 * unat incr"
    unfolding unat_word_ariths(1) [of "brk s + incr"] once using assms(4) by simp
  have twice': "unat (2 * incr + brk s) = unat (brk s) + 2 * unat incr"
    using twice by (simp add: mult_2 ac_simps)
  show ?thesis using assms(1) by (simp add: sc_sbrk_def Let_def word_less_nat_alt once twice')
qed

theorem sbrk_overruns_witness:
  "let s = \<lparr>memory = (\<lambda>_. 0), brk = 0x1000, errno = 0, events = []\<rparr> in
   fst (sc_sbrk 0x1000 0x1400 0x300 s) = 0x1000 \<and> 0x1400 < brk (snd (sc_sbrk 0x1000 0x1400 0x300 s))"
  unfolding Let_def
  using sbrk_overruns [of "0x1000" "0x1400" "\<lparr>memory = (\<lambda>_. 0), brk = 0x1000, errno = 0, events = []\<rparr>" "0x300"] by simp

section \<open>Runs\<close>

text \<open>
  A program's use of the runtime: any sequence of these calls, with any arguments, as long as the
  \<open>struct stat\<close> that \<open>_fstat\<close> and \<open>_stat\<close> fill lies in RAM.
\<close>

inductive runtime_call :: "lib \<Rightarrow> ptr32 \<Rightarrow> ptr32 \<Rightarrow> libc \<Rightarrow> libc \<Rightarrow> bool" for L hs he where
  call_unimplemented: "runtime_call L hs he s (unimplemented_syscall s)"
| call_nanosleep: "runtime_call L hs he s (snd (nanosleep L rqtp rmtp s))"
| call_access: "runtime_call L hs he s (snd (sc_access L file mode s))"
| call_chdir: "runtime_call L hs he s (snd (sc_chdir L path s))"
| call_chmod: "runtime_call L hs he s (snd (sc_chmod L path mode s))"
| call_chown: "runtime_call L hs he s (snd (sc_chown L path owner grp s))"
| call_close: "runtime_call L hs he s (snd (sc_close file s))"
| call_execve: "runtime_call L hs he s (snd (sc_execve L name argv env s))"
| call_exit: "runtime_call L hs he s (sc_exit exit_status s)"
| call_faccessat: "runtime_call L hs he s (snd (sc_faccessat L dirfd file mode flags s))"
| call_fork: "runtime_call L hs he s (snd (sc_fork L s))"
| call_fstat: "tb_target (st + st_mode_at L) = Ram \<Longrightarrow> runtime_call L hs he s (snd (sc_fstat L file st s))"
| call_fstatat: "runtime_call L hs he s (snd (sc_fstatat L dirfd file st flags s))"
| call_ftime: "runtime_call L hs he s (snd (sc_ftime L tp s))"
| call_getcwd: "runtime_call L hs he s (snd (sc_getcwd L buf sz s))"
| call_getpid: "runtime_call L hs he s (snd (sc_getpid s))"
| call_gettimeofday: "runtime_call L hs he s (snd (sc_gettimeofday L tp tzp s))"
| call_isatty: "runtime_call L hs he s (snd (sc_isatty file s))"
| call_kill: "runtime_call L hs he s (snd (sc_kill L pid sig s))"
| call_link: "runtime_call L hs he s (snd (sc_link L old_name new_name s))"
| call_lseek: "runtime_call L hs he s (snd (sc_lseek file ptr dir s))"
| call_lstat: "runtime_call L hs he s (snd (sc_lstat L file st s))"
| call_open: "runtime_call L hs he s (snd (sc_open name flags mode s))"
| call_openat: "runtime_call L hs he s (snd (sc_openat L dirfd name flags mode s))"
| call_read: "runtime_call L hs he s (snd (sc_read file ptr len s))"
| call_stat: "tb_target (st + st_mode_at L) = Ram \<Longrightarrow> runtime_call L hs he s (snd (sc_stat L file st s))"
| call_sysconf: "runtime_call L hs he s (snd (sc_sysconf name s))"
| call_times: "runtime_call L hs he s (snd (sc_times buf s))"
| call_unlink: "runtime_call L hs he s (snd (sc_unlink L name s))"
| call_utime: "runtime_call L hs he s (snd (sc_utime L path tms s))"
| call_wait: "runtime_call L hs he s (snd (sc_wait L status s))"
| call_write: "runtime_call L hs he s (snd (sc_write L file ptr len s))"
| call_brk: "runtime_call L hs he s (snd (sc_brk addr s))"
| call_sbrk: "runtime_call L hs he s (snd (sc_sbrk hs he incr s))"

text \<open>What may leave the processor: characters for the output register, and the exit register with
  the \<open>wfi\<close> that follows it.\<close>

fun spoken :: "seen list \<Rightarrow> bool" where
  "spoken [] = True"
| "spoken (Store a v # es) = (if a = EXIT_REG then (case es of Wfi # es' \<Rightarrow> spoken es' | _ \<Rightarrow> False)
     else a = STDOUT_REG \<and> v < 256 \<and> spoken es)"
| "spoken (Wfi # es) = False"

lemma EXIT_not_STDOUT [simp]: "STDOUT_REG \<noteq> EXIT_REG"
  by (simp add: STDOUT_REG_def EXIT_REG_def)

lemma spoken_append: "spoken es \<Longrightarrow> spoken es' \<Longrightarrow> spoken (es @ es')"
  by (induction es rule: spoken.induct) (auto split: list.splits seen.splits if_splits)

lemma byte_less: "ucast b < (256 :: u32)" for b :: u8
  using unsigned_less [of b, where 'a = nat] by (simp add: word_less_nat_alt unsigned_ucast_eq take_bit_nat_eq_self)

lemma spoken_shown: "spoken (shown bs)"
  by (induction bs) (simp_all add: shown_def byte_less)

lemma char_less: "of_char c < (256 :: u32)"
proof -
  have "(of_char c :: u32) = ucast (of_char c :: u8)" by (simp add: of_char_def)
  then show ?thesis using byte_less [of "of_char c"] by simp
qed

lemma spoken_chars: "spoken (map (\<lambda>c. Store STDOUT_REG (of_char c)) cs)"
  by (induction cs) (simp_all add: char_less)

lemma unimplemented_events:
  "\<exists>es. events (unimplemented_syscall s) = events s @ es \<and> spoken es"
proof -
  have "events (foldl (\<lambda>s c. store_int STDOUT_REG (of_char c) s) s cs) =
      events s @ map (\<lambda>c. Store STDOUT_REG (of_char c)) cs" for cs
    by (induction cs arbitrary: s) simp_all
  then show ?thesis unfolding unimplemented_syscall_def using spoken_chars by blast
qed

lemma write_events: "\<exists>es. events (snd (sc_write L file ptr len s)) = events s @ es \<and> spoken es"
  using write_loop_eq [of "unat len" ptr s] unsigned_less [of len, where 'a = nat]
  by (cases "file = STDOUT_FILENO") (auto simp: sc_write_def fails_def spoken_shown intro: exI [of _ "[]"])

lemma exit_events: "\<exists>es. events (sc_exit st s) = events s @ es \<and> spoken es"
  by (simp add: sc_exit_def Let_def)

lemmas stub_defs = nanosleep_def sc_access_def sc_chdir_def sc_chmod_def sc_chown_def sc_close_def
   sc_execve_def sc_faccessat_def sc_fork_def sc_fstat_def sc_fstatat_def sc_ftime_def sc_getcwd_def
   sc_getpid_def sc_gettimeofday_def sc_isatty_def sc_kill_def sc_link_def sc_lseek_def sc_lstat_def
   sc_open_def sc_openat_def sc_read_def sc_stat_def sc_sysconf_def sc_times_def sc_unlink_def sc_utime_def
   sc_wait_def sc_brk_def

lemma store_through_events:
  "events (store_through a bs s) = (if tb_target a = Ram then events s else events s @ [Store a (bytes_word bs)])"
  by (simp add: store_through_def)

lemma runtime_call_events: "runtime_call L hs he s s' \<Longrightarrow> \<exists>es. events s' = events s @ es \<and> spoken es"
  by (induction rule: runtime_call.induct)
    (rule unimplemented_events write_events exit_events exI [of _ "[]"];
      simp add: stub_defs fails_def sc_sbrk_def Let_def store_through_events)+

lemma runtime_events:
  "(runtime_call L hs he)\<^sup>*\<^sup>* s s' \<Longrightarrow> \<exists>es. events s' = events s @ es \<and> spoken es"
proof (induction rule: rtranclp_induct)
  case base
  show ?case by (rule exI [of _ "[]"]) simp
next
  case (step t u)
  then show ?case using runtime_call_events [OF step(2)] spoken_append by (metis append.assoc)
qed

text \<open>Neither register of the runtime is in the address map of the test bench.\<close>

definition hits :: "seen \<Rightarrow> target" where
  "hits e = (case e of Store a v \<Rightarrow> tb_target a | Wfi \<Rightarrow> Ignored)"

lemma hits_simps [simp]: "hits (Store a v) = tb_target a" "hits Wfi = Ignored"
  by (simp_all add: hits_def)

lemma registers_unmapped: "tb_target STDOUT_REG = Unmapped" "tb_target EXIT_REG = Unmapped"
  by (simp_all add: tb_target_def in_range_def STDOUT_REG_def EXIT_REG_def)

lemma spoken_lost: "spoken es \<Longrightarrow> list_all (\<lambda>e. hits e \<in> {Unmapped, Ignored}) es"
  by (induction es rule: spoken.induct)
    (auto simp: registers_unmapped split: if_splits list.splits seen.splits)

text \<open>
  Claim C35: whatever system calls a program makes, in whatever order, all that leaves the processor is
  characters for the output register and exit codes, each directly followed by the \<open>wfi\<close> instruction;
  in particular the result register is never written. The structures that \<open>_fstat\<close> and \<open>_stat\<close> fill
  have to lie in RAM. In the test bench of the repository none of these stores reaches the printer or
  the register for the verdict: their addresses are not in its address map.
\<close>

theorem runtime_bus_trace:
  assumes "(runtime_call L hs he)\<^sup>*\<^sup>* s s'"
  shows "\<exists>es. events s' = events s @ es \<and> spoken es \<and> list_all (\<lambda>e. hits e \<in> {Unmapped, Ignored}) es"
  using runtime_events [OF assms] spoken_lost by blast

definition demo_libc :: libc where
  "demo_libc = \<lparr>memory = (\<lambda>_. 0x41), brk = 0x1000, errno = 0, events = []\<rparr>"

definition demo_lib :: lib where
  "demo_lib = \<lparr>code = (\<lambda>_. 88), st_mode_at = 4, chr_mode = [0, 0x20, 0, 0]\<rparr>"

theorem runtime_bus_trace_witness:
  "\<exists>es. events (sc_exit 3 (snd (sc_write demo_lib 1 0 2 demo_libc))) = events demo_libc @ es \<and> spoken es \<and>
     list_all (\<lambda>e. hits e \<in> {Unmapped, Ignored}) es"
proof -
  have "runtime_call demo_lib 0 0 demo_libc (snd (sc_write demo_lib 1 0 2 demo_libc))" by (rule call_write)
  moreover have "runtime_call demo_lib 0 0 (snd (sc_write demo_lib 1 0 2 demo_libc))
      (sc_exit 3 (snd (sc_write demo_lib 1 0 2 demo_libc)))" by (rule call_exit)
  ultimately have "(runtime_call demo_lib 0 0)\<^sup>*\<^sup>* demo_libc (sc_exit 3 (snd (sc_write demo_lib 1 0 2 demo_libc)))"
    by (meson r_into_rtranclp rtranclp_trans)
  then show ?thesis by (rule runtime_bus_trace)
qed

end
