(* ===== verification/Riscv_Core.thy ===== *)
theory Riscv_Core
  imports Riscv_Encoding
begin

text \<open>
  Enough of the RV64 instruction set to run the ROM images of the repository: the instructions are
  recognised with the patterns and masks of \<open>encoding.h\<close> and executed on a hart with registers,
  control registers and a program counter. Loads and stores go to a device, which is a parameter.
\<close>

section \<open>Instructions\<close>

datatype insn =
    Jal nat int | Jalr nat nat int | Bne nat nat int | Beq nat nat int | Blt nat nat int
  | Lui nat int | Auipc nat int | Addi nat nat int | Addiw nat nat int | Andi nat nat int
  | Slli nat nat nat | Srli nat nat nat | Add nat nat nat
  | Lbu nat nat int | Lw nat nat int | Sw nat nat int
  | Csrrw nat nat nat | Csrrs nat nat nat
  | Fence | Wfi | Ebreak | Dret

text \<open>A word is an instance of an instruction if it has its pattern under its mask.\<close>

definition is_insn :: "string \<Rightarrow> u32 \<Rightarrow> bool" where
  "is_insn n w = (case map_of insns n of None \<Rightarrow> False | Some (m, k) \<Rightarrow> w AND k = m)"

definition rd_of :: "u32 \<Rightarrow> nat" where "rd_of w = unat (drop_bit 7 w AND 31)"
definition rs1_of :: "u32 \<Rightarrow> nat" where "rs1_of w = unat (drop_bit 15 w AND 31)"
definition rs2_of :: "u32 \<Rightarrow> nat" where "rs2_of w = unat (drop_bit 20 w AND 31)"
definition csr_of :: "u32 \<Rightarrow> nat" where "csr_of w = unat (drop_bit 20 w)"
definition shamt_of :: "u32 \<Rightarrow> nat" where "shamt_of w = unat (drop_bit 20 w AND 63)"

text \<open>The immediates of the I, S, B, U and J formats; the sign is bit 31.\<close>

definition signed_imm :: "u32 \<Rightarrow> nat \<Rightarrow> nat \<Rightarrow> int" where
  "signed_imm w v n = int v - (if bit w 31 then 2 ^ n else 0)"

definition imm_i :: "u32 \<Rightarrow> int" where
  "imm_i w = signed_imm w (unat (drop_bit 20 w AND 0x7ff)) 11"
definition imm_s :: "u32 \<Rightarrow> int" where
  "imm_s w = signed_imm w (32 * unat (drop_bit 25 w AND 63) + unat (drop_bit 7 w AND 31)) 11"
definition imm_b :: "u32 \<Rightarrow> int" where
  "imm_b w = signed_imm w (2048 * unat (drop_bit 7 w AND 1) + 32 * unat (drop_bit 25 w AND 63)
     + 2 * unat (drop_bit 8 w AND 15)) 12"
definition imm_u :: "u32 \<Rightarrow> int" where
  "imm_u w = signed_imm w (4096 * unat (drop_bit 12 w AND 0x7ffff)) 31"
definition imm_j :: "u32 \<Rightarrow> int" where
  "imm_j w = signed_imm w (4096 * unat (drop_bit 12 w AND 255) + 2048 * unat (drop_bit 20 w AND 1)
     + 2 * unat (drop_bit 21 w AND 1023)) 20"

definition decode :: "u32 \<Rightarrow> insn option" where
  "decode w =
     (if is_insn ''JAL'' w then Some (Jal (rd_of w) (imm_j w))
      else if is_insn ''JALR'' w then Some (Jalr (rd_of w) (rs1_of w) (imm_i w))
      else if is_insn ''BNE'' w then Some (Bne (rs1_of w) (rs2_of w) (imm_b w))
      else if is_insn ''BEQ'' w then Some (Beq (rs1_of w) (rs2_of w) (imm_b w))
      else if is_insn ''BLT'' w then Some (Blt (rs1_of w) (rs2_of w) (imm_b w))
      else if is_insn ''LUI'' w then Some (Lui (rd_of w) (imm_u w))
      else if is_insn ''AUIPC'' w then Some (Auipc (rd_of w) (imm_u w))
      else if is_insn ''ADDI'' w then Some (Addi (rd_of w) (rs1_of w) (imm_i w))
      else if is_insn ''ADDIW'' w then Some (Addiw (rd_of w) (rs1_of w) (imm_i w))
      else if is_insn ''ANDI'' w then Some (Andi (rd_of w) (rs1_of w) (imm_i w))
      else if is_insn ''SLLI'' w then Some (Slli (rd_of w) (rs1_of w) (shamt_of w))
      else if is_insn ''SRLI'' w then Some (Srli (rd_of w) (rs1_of w) (shamt_of w))
      else if is_insn ''ADD'' w then Some (Add (rd_of w) (rs1_of w) (rs2_of w))
      else if is_insn ''LBU'' w then Some (Lbu (rd_of w) (rs1_of w) (imm_i w))
      else if is_insn ''LW'' w then Some (Lw (rd_of w) (rs1_of w) (imm_i w))
      else if is_insn ''SW'' w then Some (Sw (rs2_of w) (rs1_of w) (imm_s w))
      else if is_insn ''CSRRW'' w then Some (Csrrw (rd_of w) (csr_of w) (rs1_of w))
      else if is_insn ''CSRRS'' w then Some (Csrrs (rd_of w) (csr_of w) (rs1_of w))
      else if is_insn ''FENCE'' w then Some Fence
      else if is_insn ''WFI'' w then Some Wfi
      else if is_insn ''EBREAK'' w then Some Ebreak
      else if is_insn ''DRET'' w then Some Dret
      else None)"

section \<open>Harts\<close>

record hart =
  xregs :: "nat \<Rightarrow> u64"
  csregs :: "nat \<Rightarrow> u64"
  hpc :: u64

definition getx :: "hart \<Rightarrow> nat \<Rightarrow> u64" where
  "getx h r = (if r = 0 then 0 else xregs h r)"

definition setx :: "nat \<Rightarrow> u64 \<Rightarrow> hart \<Rightarrow> hart" where
  "setx r v h = (if r = 0 then h else h\<lparr>xregs := (xregs h)(r := v)\<rparr>)"

text \<open>
  The device behind the bus: byte and word loads and word stores. The control register \<open>mip\<close> shows
  the interrupts that the device raises for a hart.
\<close>

record 'd bus =
  bus_lbu :: "u64 \<Rightarrow> 'd \<Rightarrow> u8 \<times> 'd"
  bus_lw :: "u64 \<Rightarrow> 'd \<Rightarrow> u32 \<times> 'd"
  bus_sw :: "u64 \<Rightarrow> u32 \<Rightarrow> 'd \<Rightarrow> 'd"
  bus_mip :: "u64 \<Rightarrow> 'd \<Rightarrow> u64"

definition csr_read :: "'d bus \<Rightarrow> hart \<Rightarrow> 'd \<Rightarrow> nat \<Rightarrow> u64" where
  "csr_read b h d c = (if c = 0x344 then bus_mip b (csregs h 0xf14) d else csregs h c)"

text \<open>How an instruction ends: with the next instruction, in a breakpoint, or leaving debug mode.\<close>

datatype ending = Running | Break | Leave

definition next_pc :: "hart \<Rightarrow> hart" where
  "next_pc h = h\<lparr>hpc := hpc h + 4\<rparr>"

fun exec :: "'d bus \<Rightarrow> insn \<Rightarrow> hart \<times> 'd \<Rightarrow> ending \<times> hart \<times> 'd" where
  "exec b (Jal rd off) (h, d) = (Running, (setx rd (hpc h + 4) h)\<lparr>hpc := hpc h + of_int off\<rparr>, d)"
| "exec b (Jalr rd rs off) (h, d) =
     (Running, (setx rd (hpc h + 4) h)\<lparr>hpc := (getx h rs + of_int off) AND NOT 1\<rparr>, d)"
| "exec b (Bne rs rt off) (h, d) =
     (Running, if getx h rs \<noteq> getx h rt then h\<lparr>hpc := hpc h + of_int off\<rparr> else next_pc h, d)"
| "exec b (Beq rs rt off) (h, d) =
     (Running, if getx h rs = getx h rt then h\<lparr>hpc := hpc h + of_int off\<rparr> else next_pc h, d)"
| "exec b (Blt rs rt off) (h, d) =
     (Running, if sint (getx h rs) < sint (getx h rt) then h\<lparr>hpc := hpc h + of_int off\<rparr> else next_pc h, d)"
| "exec b (Lui rd v) (h, d) = (Running, next_pc (setx rd (of_int v) h), d)"
| "exec b (Auipc rd v) (h, d) = (Running, next_pc (setx rd (hpc h + of_int v) h), d)"
| "exec b (Addi rd rs v) (h, d) = (Running, next_pc (setx rd (getx h rs + of_int v) h), d)"
| "exec b (Addiw rd rs v) (h, d) =
     (Running, next_pc (setx rd (scast (ucast (getx h rs + of_int v) :: u32)) h), d)"
| "exec b (Andi rd rs v) (h, d) = (Running, next_pc (setx rd (getx h rs AND of_int v) h), d)"
| "exec b (Slli rd rs n) (h, d) = (Running, next_pc (setx rd (push_bit n (getx h rs)) h), d)"
| "exec b (Srli rd rs n) (h, d) = (Running, next_pc (setx rd (drop_bit n (getx h rs)) h), d)"
| "exec b (Add rd rs rt) (h, d) = (Running, next_pc (setx rd (getx h rs + getx h rt) h), d)"
| "exec b (Lbu rd rs v) (h, d) =
     (let (x, d') = bus_lbu b (getx h rs + of_int v) d in (Running, next_pc (setx rd (ucast x) h), d'))"
| "exec b (Lw rd rs v) (h, d) =
     (let (x, d') = bus_lw b (getx h rs + of_int v) d in (Running, next_pc (setx rd (scast x) h), d'))"
| "exec b (Sw rt rs v) (h, d) =
     (Running, next_pc h, bus_sw b (getx h rs + of_int v) (ucast (getx h rt)) d)"
| "exec b (Csrrw rd c rs) (h, d) =
     (Running, next_pc (setx rd (csr_read b h d c) (h\<lparr>csregs := (csregs h)(c := getx h rs)\<rparr>)), d)"
| "exec b (Csrrs rd c rs) (h, d) =
     (Running, next_pc (setx rd (csr_read b h d c)
        (if rs = 0 then h else h\<lparr>csregs := (csregs h)(c := csr_read b h d c OR getx h rs)\<rparr>)), d)"
| "exec b Fence (h, d) = (Running, next_pc h, d)"
| "exec b Wfi (h, d) = (Running, next_pc h, d)"
| "exec b Ebreak (h, d) = (Break, h, d)"
| "exec b Dret (h, d) = (Leave, h, d)"

section \<open>Running a ROM\<close>

text \<open>
  The instruction at a program counter, for a ROM image at address \<open>rb\<close>; a step, undefined outside
  the image and on unknown instructions; and \<open>n\<close> steps, which end early when debug mode is left or
  re-entered.
\<close>

definition fetch :: "u32 list \<Rightarrow> u64 \<Rightarrow> u64 \<Rightarrow> insn option" where
  "fetch rom rb p =
     (let i = unat (p - rb) div 4 in
      if unat (p - rb) mod 4 = 0 \<and> i < length rom then decode (rom ! i) else None)"

definition step :: "'d bus \<Rightarrow> u32 list \<Rightarrow> u64 \<Rightarrow> hart \<times> 'd \<Rightarrow> (ending \<times> hart \<times> 'd) option" where
  "step b rom rb x = (case fetch rom rb (hpc (fst x)) of None \<Rightarrow> None | Some i \<Rightarrow> Some (exec b i x))"

fun run :: "'d bus \<Rightarrow> u32 list \<Rightarrow> u64 \<Rightarrow> nat \<Rightarrow> hart \<times> 'd \<Rightarrow> (ending \<times> hart \<times> 'd) option" where
  "run b rom rb 0 x = Some (Running, x)"
| "run b rom rb (Suc n) x =
     (case step b rom rb x of
        None \<Rightarrow> None
      | Some (e, y) \<Rightarrow> if e = Running then run b rom rb n y else Some (e, y))"

lemma run_add: "run b rom rb n x = Some (Running, y) \<Longrightarrow> run b rom rb (n + m) x = run b rom rb m y"
  by (induction n arbitrary: x) (auto split: option.splits if_splits)

definition reaches :: "'d bus \<Rightarrow> u32 list \<Rightarrow> u64 \<Rightarrow> hart \<times> 'd \<Rightarrow> ending \<Rightarrow> hart \<times> 'd \<Rightarrow> bool" where
  "reaches b rom rb x e y \<longleftrightarrow> (\<exists>n. run b rom rb n x = Some (e, y))"

lemma reaches_trans: "reaches b rom rb x Running y \<Longrightarrow> reaches b rom rb y e z \<Longrightarrow> reaches b rom rb x e z"
  unfolding reaches_def using run_add by metis

lemma reachesI: "run b rom rb n x = Some (e, y) \<Longrightarrow> reaches b rom rb x e y"
  unfolding reaches_def by blast

section \<open>Evaluation\<close>

lemma is_insn_simps:
  "is_insn ''JAL'' w \<longleftrightarrow> w AND 0x7f = 0x6f"
  "is_insn ''JALR'' w \<longleftrightarrow> w AND 0x707f = 0x67"
  "is_insn ''BNE'' w \<longleftrightarrow> w AND 0x707f = 0x1063"
  "is_insn ''BEQ'' w \<longleftrightarrow> w AND 0x707f = 0x63"
  "is_insn ''BLT'' w \<longleftrightarrow> w AND 0x707f = 0x4063"
  "is_insn ''LUI'' w \<longleftrightarrow> w AND 0x7f = 0x37"
  "is_insn ''AUIPC'' w \<longleftrightarrow> w AND 0x7f = 0x17"
  "is_insn ''ADDI'' w \<longleftrightarrow> w AND 0x707f = 0x13"
  "is_insn ''ADDIW'' w \<longleftrightarrow> w AND 0x707f = 0x1b"
  "is_insn ''ANDI'' w \<longleftrightarrow> w AND 0x707f = 0x7013"
  "is_insn ''SLLI'' w \<longleftrightarrow> w AND 0xfc00707f = 0x1013"
  "is_insn ''SRLI'' w \<longleftrightarrow> w AND 0xfc00707f = 0x5013"
  "is_insn ''ADD'' w \<longleftrightarrow> w AND 0xfe00707f = 0x33"
  "is_insn ''LBU'' w \<longleftrightarrow> w AND 0x707f = 0x4003"
  "is_insn ''LW'' w \<longleftrightarrow> w AND 0x707f = 0x2003"
  "is_insn ''SW'' w \<longleftrightarrow> w AND 0x707f = 0x2023"
  "is_insn ''FENCE'' w \<longleftrightarrow> w AND 0x707f = 0xf"
  by (simp_all add: is_insn_def insns_def insns1_def)

lemma all_bits_mask: "w AND 0xffffffff = (w :: u32)"
proof -
  have "(0xffffffff :: u32) = -1" by simp
  then show ?thesis by (simp only: and.right_neutral)
qed

text \<open>The second part of the table, behind the names of the first part.\<close>

lemma is_insn_later:
  "map_of insns1 n = None \<Longrightarrow> map_of insns2 n = Some (m, k) \<Longrightarrow> is_insn n w \<longleftrightarrow> w AND k = m"
  by (simp add: is_insn_def insns_def map_add_def)

lemma system_insns_later:
  "map_of insns1 ''CSRRW'' = None" "map_of insns1 ''CSRRS'' = None" "map_of insns1 ''WFI'' = None"
  "map_of insns1 ''EBREAK'' = None" "map_of insns1 ''DRET'' = None"
  by (simp_all add: insns1_def)

lemma system_insns:
  "map_of insns2 ''CSRRW'' = Some (0x1073, 0x707f)" "map_of insns2 ''CSRRS'' = Some (0x2073, 0x707f)"
  "map_of insns2 ''WFI'' = Some (0x10500073, 0xffffffff)"
  "map_of insns2 ''EBREAK'' = Some (0x100073, 0xffffffff)"
  "map_of insns2 ''DRET'' = Some (0x7b200073, 0xffffffff)"
  by (simp_all add: insns2_def)

lemma is_insn_system_simps:
  "is_insn ''CSRRW'' w \<longleftrightarrow> w AND 0x707f = 0x1073"
  "is_insn ''CSRRS'' w \<longleftrightarrow> w AND 0x707f = 0x2073"
  "is_insn ''WFI'' w \<longleftrightarrow> w = 0x10500073"
  "is_insn ''EBREAK'' w \<longleftrightarrow> w = 0x100073"
  "is_insn ''DRET'' w \<longleftrightarrow> w = 0x7b200073"
  by (simp_all only: is_insn_later [OF system_insns_later(1) system_insns(1)] is_insn_later [OF system_insns_later(2) system_insns(2)]
    is_insn_later [OF system_insns_later(3) system_insns(3)] is_insn_later [OF system_insns_later(4) system_insns(4)]
    is_insn_later [OF system_insns_later(5) system_insns(5)] all_bits_mask)

lemmas decode_simps = decode_def is_insn_simps is_insn_system_simps rd_of_def rs1_of_def rs2_of_def csr_of_def
  shamt_of_def imm_i_def imm_s_def imm_b_def imm_u_def imm_j_def signed_imm_def

lemma csr_read_simps [simp]:
  "csr_read b h d 0x344 = bus_mip b (csregs h 0xf14) d" "c \<noteq> 0x344 \<Longrightarrow> csr_read b h d c = csregs h c"
  by (simp_all add: csr_read_def)

text \<open>Fetching at a constant distance from the start of the image.\<close>

lemma fetch_offset:
  assumes "unat off mod 4 = 0" "unat off div 4 < length rom"
  shows "fetch rom rb (rb + off) = decode (rom ! (unat off div 4))"
  using assms by (simp add: fetch_def Let_def)

end
