(* ===== verification/Debug_Rom.thy ===== *)
theory Debug_Rom
  imports Riscv_Core
begin

text \<open>
  The ROM images in C: \<open>corev_apu/riscv-dbg/debug_rom/debug_rom.h\<close> and \<open>debug_rom_one_scratch.h\<close>, the
  program a halted hart runs, and \<open>corev_apu/bootrom/bootrom.h\<close>, the reset code of the simulation. The
  words are those of the arrays; what they do follows by running them.
\<close>

section \<open>The images\<close>

definition debug_rom :: "u32 list" where
  "debug_rom =
    [0x00c0006f, 0x07c0006f, 0x04c0006f, 0x0ff0000f, 0x7b241073, 0x7b351073,
     0x00000517, 0x00c55513, 0x00c51513, 0xf1402473, 0x10852023, 0x00a40433,
     0x40044403, 0x00147413, 0x02041c63, 0xf1402473, 0x00a40433, 0x40044403,
     0x00247413, 0xfa041ce3, 0xfd5ff06f, 0x00000517, 0x00c55513, 0x00c51513,
     0x10052623, 0x7b302573, 0x7b202473, 0x00100073, 0x10052223, 0x7b302573,
     0x7b202473, 0xa85ff06f, 0xf1402473, 0x10852423, 0x7b302573, 0x7b202473,
     0x7b200073, 0x00000000]"

definition debug_rom_one_scratch :: "u32 list" where
  "debug_rom_one_scratch =
    [0x00c0006f, 0x0500006f, 0x0340006f, 0x0ff0000f, 0x7b241073, 0xf1402473,
     0x10802023, 0x40044403, 0x00147413, 0x02041263, 0xf1402473, 0x40044403,
     0x00247413, 0xfc0418e3, 0xfddff06f, 0x10002623, 0x7b202473, 0x00100073,
     0x10002223, 0x7b202473, 0xab1ff06f, 0xf1402473, 0x10802423, 0x7b202473,
     0x7b200073, 0x00000000]"

definition bootrom :: "u32 list" where
  "bootrom =
    [0x0010011b, 0x01f11113, 0x20010113, 0x00100413, 0x01f41413, 0x00040067,
     0x00000000, 0x00000000, 0x00000000, 0x00000000, 0x00000000, 0x00000000,
     0x00000000, 0x00000000, 0x00000000, 0x00000000, 0xfc1ff06f, 0x00000000]"

section \<open>Their instructions\<close>

lemma debug_rom_decoded:
  "map decode debug_rom =
    [Some (Jal 0 12), Some (Jal 0 124), Some (Jal 0 76), Some Fence, Some (Csrrw 0 0x7b2 8),
     Some (Csrrw 0 0x7b3 10), Some (Auipc 10 0), Some (Srli 10 10 12), Some (Slli 10 10 12),
     Some (Csrrs 8 0xf14 0), Some (Sw 8 10 256), Some (Add 8 8 10), Some (Lbu 8 8 1024),
     Some (Andi 8 8 1), Some (Bne 8 0 56), Some (Csrrs 8 0xf14 0), Some (Add 8 8 10),
     Some (Lbu 8 8 1024), Some (Andi 8 8 2), Some (Bne 8 0 (-72)), Some (Jal 0 (-44)),
     Some (Auipc 10 0), Some (Srli 10 10 12), Some (Slli 10 10 12), Some (Sw 0 10 268),
     Some (Csrrs 10 0x7b3 0), Some (Csrrs 8 0x7b2 0), Some Ebreak, Some (Sw 0 10 260),
     Some (Csrrs 10 0x7b3 0), Some (Csrrs 8 0x7b2 0), Some (Jal 0 (-1404)), Some (Csrrs 8 0xf14 0),
     Some (Sw 8 10 264), Some (Csrrs 10 0x7b3 0), Some (Csrrs 8 0x7b2 0), Some Dret, None]"
  by (simp add: debug_rom_def decode_simps)

lemma debug_rom_one_scratch_decoded:
  "map decode debug_rom_one_scratch =
    [Some (Jal 0 12), Some (Jal 0 80), Some (Jal 0 52), Some Fence, Some (Csrrw 0 0x7b2 8),
     Some (Csrrs 8 0xf14 0), Some (Sw 8 0 256), Some (Lbu 8 8 1024), Some (Andi 8 8 1),
     Some (Bne 8 0 36), Some (Csrrs 8 0xf14 0), Some (Lbu 8 8 1024), Some (Andi 8 8 2),
     Some (Bne 8 0 (-48)), Some (Jal 0 (-36)), Some (Sw 0 0 268), Some (Csrrs 8 0x7b2 0),
     Some Ebreak, Some (Sw 0 0 260), Some (Csrrs 8 0x7b2 0), Some (Jal 0 (-1360)),
     Some (Csrrs 8 0xf14 0), Some (Sw 8 0 264), Some (Csrrs 8 0x7b2 0), Some Dret, None]"
  by (simp add: debug_rom_one_scratch_def decode_simps)

lemma bootrom_decoded:
  "map decode bootrom =
    [Some (Addiw 2 0 1), Some (Slli 2 2 31), Some (Addi 2 2 512), Some (Addi 8 0 1),
     Some (Slli 8 8 31), Some (Jalr 0 8 0), None, None, None, None, None, None, None, None, None,
     None, Some (Jal 0 (-64)), None]"
  by (simp add: bootrom_def decode_simps)

end
