(* ===== verification/Debug_Park.thy ===== *)
theory Debug_Park
  imports Debug_Rom
begin

text \<open>
  What the debug ROMs do. A halted hart announces itself to the debug module, polls its flag byte
  and either runs the module's program or resumes; \<open>poll\<close> and \<open>park\<close> state this on the module's
  registers alone. The locale \<open>park_loop\<close> lifts one turn of such a loop to the whole wait, and both
  images are instances of it. The reset code of the simulation is run here too.
\<close>

section \<open>The wait, as the debug module sees it\<close>

datatype verdict = Going | Resuming | Again

text \<open>
  One turn: the hart writes its number to \<open>HALTED\<close>, reads its flags and, unless \<open>FLAG_GO\<close> is set,
  reads them again for \<open>FLAG_RESUME\<close>; it confirms what it found at \<open>GOING\<close> or \<open>RESUMING\<close>.
\<close>

definition poll_resume :: "'d bus \<Rightarrow> u64 \<Rightarrow> u64 \<Rightarrow> 'd \<Rightarrow> verdict \<times> 'd" where
  "poll_resume b base hid d =
     (let (f, d1) = bus_lbu b (hid + base + 0x400) d in
      if bit f 1 then (Resuming, bus_sw b (base + 0x108) (ucast hid) d1) else (Again, d1))"

definition poll :: "'d bus \<Rightarrow> u64 \<Rightarrow> u64 \<Rightarrow> 'd \<Rightarrow> verdict \<times> 'd" where
  "poll b base hid d =
     (let (f, d1) = bus_lbu b (hid + base + 0x400) (bus_sw b (base + 0x100) (ucast hid) d) in
      if bit f 0 then (Going, bus_sw b (base + 0x104) 0 d1) else poll_resume b base hid d1)"

inductive park :: "('d \<Rightarrow> verdict \<times> 'd) \<Rightarrow> 'd \<Rightarrow> verdict \<Rightarrow> 'd \<Rightarrow> bool" for p where
  found: "p d = (v, d') \<Longrightarrow> v \<noteq> Again \<Longrightarrow> park p d v d'"
| wait: "p d = (Again, d1) \<Longrightarrow> park p d1 v d' \<Longrightarrow> park p d v d'"

code_pred (modes: i \<Rightarrow> i \<Rightarrow> o \<Rightarrow> o \<Rightarrow> bool) park .

lemma park_not_again: "park p d v d' \<Longrightarrow> v \<noteq> Again"
  by (induction rule: park.induct) auto

section \<open>Waiting loops\<close>

text \<open>
  A program waits in a loop if from any state \<open>lp x\<close> at its head (\<open>x\<close> is what a scratch register
  holds) it runs one turn of \<open>p\<close> and then stands at the head again or has left with the verdict.
\<close>

locale park_loop =
  fixes rch :: "'h \<times> 'd \<Rightarrow> ending \<Rightarrow> 'h \<times> 'd \<Rightarrow> bool"
    and p :: "'d \<Rightarrow> verdict \<times> 'd"
    and entry :: 'h
    and lp :: "u64 \<Rightarrow> 'h"
    and ends :: "verdict \<Rightarrow> ending \<times> 'h"
  assumes rch_trans: "rch s Running t \<Longrightarrow> rch t e u \<Longrightarrow> rch s e u"
    and enter: "\<exists>x. rch (entry, d) Running (lp x, d)"
    and again: "p d = (Again, d') \<Longrightarrow> \<exists>y. rch (lp x, d) Running (lp y, d')"
    and leave: "p d = (v, d') \<Longrightarrow> v \<noteq> Again \<Longrightarrow> rch (lp x, d) (fst (ends v)) (snd (ends v), d')"
begin

lemma parked_loop: "park p d v d' \<Longrightarrow> rch (lp x, d) (fst (ends v)) (snd (ends v), d')"
proof (induction arbitrary: x rule: park.induct)
  case (found d v d')
  then show ?case by (rule leave)
next
  case (wait d d1 v d')
  obtain y where "rch (lp x, d) Running (lp y, d1)" using again [OF wait.hyps(1)] by blast
  then show ?case using wait.IH by (rule rch_trans)
qed

lemma parked: "park p d v d' \<Longrightarrow> rch (entry, d) (fst (ends v)) (snd (ends v), d')"
  using enter parked_loop rch_trans by metis

end

text \<open>Runs of a fixed number of instructions for each verdict make such a loop.\<close>

lemma park_loop_runs:
  fixes b :: "'d bus"
  assumes "\<And>d. run b rom rb n (entry, d) = Some (Running, lp x0, d)"
    and "\<And>d d' x. p d = (Again, d') \<Longrightarrow> run b rom rb na (lp x, d) = Some (Running, lp x1, d')"
    and "\<And>d d' x. p d = (Going, d') \<Longrightarrow>
           run b rom rb ng (lp x, d) = Some (Running, snd (ends Going), d')"
    and "\<And>d d' x. p d = (Resuming, d') \<Longrightarrow>
           run b rom rb nr (lp x, d) = Some (Leave, snd (ends Resuming), d')"
    and "fst (ends Going) = Running" "fst (ends Resuming) = Leave"
  shows "park_loop (reaches b rom rb) p entry lp ends"
proof
  show "reaches b rom rb s e u" if "reaches b rom rb s Running t" "reaches b rom rb t e u" for s t e u
    using that by (rule reaches_trans)
  show "\<exists>x. reaches b rom rb (entry, d) Running (lp x, d)" for d
    using reachesI [OF assms(1)] by blast
  show "\<exists>y. reaches b rom rb (lp x, d) Running (lp y, d')" if "p d = (Again, d')" for d d' x
    using reachesI [OF assms(2) [OF that]] by blast
  show "reaches b rom rb (lp x, d) (fst (ends v)) (snd (ends v), d')"
    if "p d = (v, d')" "v \<noteq> Again" for d v d' x
    using that reachesI [OF assms(3)] reachesI [OF assms(4)] assms(5,6) by (cases v) auto
qed

section \<open>The image with two scratch registers\<close>

text \<open>
  The debug module lies on a page; its ROM is at offset \<open>0x800\<close>. On entry \<open>s0\<close> and \<open>a0\<close> go to the
  scratch registers. A hart told to go stands at \<open>whereto\<close>, offset \<open>0x300\<close>, one told to resume at
  the \<open>dret\<close> of the ROM; both have their registers back.
\<close>

definition dm_base :: "u64 \<Rightarrow> u64" where
  "dm_base k = push_bit 12 k"

definition saved :: "hart \<Rightarrow> hart" where
  "saved h = h\<lparr>csregs := (csregs h)(0x7b2 := xregs h 8, 0x7b3 := xregs h 10)\<rparr>"

definition park_entry :: "u64 \<Rightarrow> hart \<Rightarrow> hart" where
  "park_entry base h = h\<lparr>hpc := base + 0x800\<rparr>"

definition park_head :: "u64 \<Rightarrow> hart \<Rightarrow> u64 \<Rightarrow> hart" where
  "park_head base h x = (saved h)\<lparr>xregs := (xregs h)(10 := base, 8 := x), hpc := base + 0x824\<rparr>"

definition park_ends :: "u64 \<Rightarrow> hart \<Rightarrow> verdict \<Rightarrow> ending \<times> hart" where
  "park_ends base h v =
     (if v = Going then (Running, (saved h)\<lparr>hpc := base + 0x300\<rparr>)
      else (Leave, (saved h)\<lparr>hpc := base + 0x890\<rparr>))"

lemma page_bits:
  assumes "take_bit 12 off = off"
  shows "push_bit 12 (drop_bit 12 (dm_base k + off)) = dm_base k"
proof -
  have high: "\<not> bit off n" if "12 \<le> n" for n
    using that assms by (metis bit_take_bit_iff not_le)
  have "dm_base k + off = dm_base k OR off"
    by (rule disjunctive_add) (use high in \<open>auto simp: dm_base_def bit_simps\<close>)
  then show ?thesis
    by (auto simp: dm_base_def bit_simps high intro!: bit_word_eqI)
qed

lemma fetch_at:
  assumes "unat (p - rb) mod 4 = 0" "unat (p - rb) div 4 < length rom"
  shows "fetch rom rb p = map decode rom ! (unat (p - rb) div 4)"
  using assms by (simp add: fetch_def Let_def)

lemma rom_lengths: "length debug_rom = 38" "length debug_rom_one_scratch = 26" "length bootrom = 18"
  by (simp_all add: debug_rom_def debug_rom_one_scratch_def bootrom_def)

lemma run_numeral:
  "run b rom rb (numeral k) x =
     (case step b rom rb x of
        None \<Rightarrow> None
      | Some (e, y) \<Rightarrow> if e = Running then run b rom rb (pred_numeral k) y else Some (e, y))"
  by (simp add: numeral_eq_Suc)

lemma base_first: "numeral n + dm_base k = dm_base k + numeral n"
  by (rule add.commute)

lemmas run_simps = base_first run_numeral step_def fetch_at rom_lengths debug_rom_decoded
  debug_rom_one_scratch_decoded bootrom_decoded add.assoc getx_def setx_def next_pc_def

lemma flag_go: "(ucast (f :: u8) AND 1 :: u64) = 0 \<longleftrightarrow> \<not> bit f 0"
proof -
  have "(ucast f AND 1 :: u64) = (if bit f 0 then 1 else 0)"
    by (rule bit_word_eqI) (auto simp: bit_simps intro!: gr0I)
  then show ?thesis by simp
qed

lemma flag_resume: "(ucast (f :: u8) AND 2 :: u64) = 0 \<longleftrightarrow> \<not> bit f 1"
proof -
  have "(ucast f AND 2 :: u64) = (if bit f 1 then 2 else 0)"
    by (rule bit_word_eqI) (auto simp: bit_simps)
  then show ?thesis by simp
qed

lemmas flag_simps = flag_go flag_resume iffD2 [OF flag_resume, simplified]

lemma debug_rom_enter:
  "run b debug_rom (dm_base k + 0x800) 7 (park_entry (dm_base k) h, d) =
     Some (Running, park_head (dm_base k) h (xregs h 8), d)"
  by (simp add: run_simps park_entry_def park_head_def saved_def page_bits fun_upd_idem)

lemmas park_simps = poll_def poll_resume_def park_head_def park_ends_def saved_def Let_def

lemma debug_rom_going:
  assumes "poll b (dm_base k) (csregs h 0xf14) d = (Going, d')"
  shows "run b debug_rom (dm_base k + 0x800) 10 (park_head (dm_base k) h x, d) =
     Some (Running, snd (park_ends (dm_base k) h Going), d')"
  using assms
  by (auto simp: run_simps park_simps flag_simps split: prod.splits if_splits)

lemma debug_rom_resuming:
  assumes "poll b (dm_base k) (csregs h 0xf14) d = (Resuming, d')"
  shows "run b debug_rom (dm_base k + 0x800) 17 (park_head (dm_base k) h x, d) =
     Some (Leave, snd (park_ends (dm_base k) h Resuming), d')"
  using assms
  by (auto simp: run_simps park_simps flag_simps split: prod.splits if_splits)

lemma debug_rom_again:
  assumes "poll b (dm_base k) (csregs h 0xf14) d = (Again, d')"
  shows "run b debug_rom (dm_base k + 0x800) 12 (park_head (dm_base k) h x, d) =
     Some (Running, park_head (dm_base k) h 0, d')"
  using assms
  by (auto simp: run_simps park_simps flag_simps split: prod.splits if_splits)

interpretation two_scratch: park_loop
  "reaches b debug_rom (dm_base k + 0x800)" "poll b (dm_base k) (csregs h 0xf14)"
  "park_entry (dm_base k) h" "park_head (dm_base k) h" "park_ends (dm_base k) h"
  for b :: "'d bus" and k h
  by (rule park_loop_runs [OF debug_rom_enter debug_rom_again debug_rom_going debug_rom_resuming])
    (simp_all add: park_ends_def)

section \<open>The image with one scratch register\<close>

text \<open>This image addresses the debug module relative to \<open>zero\<close>, so it works at address 0 only.\<close>

definition saved_one :: "hart \<Rightarrow> hart" where
  "saved_one h = h\<lparr>csregs := (csregs h)(0x7b2 := xregs h 8)\<rparr>"

definition park_head_one :: "hart \<Rightarrow> u64 \<Rightarrow> hart" where
  "park_head_one h x = (saved_one h)\<lparr>xregs := (xregs h)(8 := x), hpc := 0x814\<rparr>"

definition park_ends_one :: "hart \<Rightarrow> verdict \<Rightarrow> ending \<times> hart" where
  "park_ends_one h v =
     (if v = Going then (Running, (saved_one h)\<lparr>hpc := 0x300\<rparr>)
      else (Leave, (saved_one h)\<lparr>hpc := 0x860\<rparr>))"

lemmas park_one_simps = poll_def poll_resume_def park_head_one_def park_ends_one_def saved_one_def Let_def

lemma one_scratch_enter:
  "run b debug_rom_one_scratch 0x800 3 (park_entry 0 h, d) =
     Some (Running, park_head_one h (xregs h 8), d)"
  by (simp add: run_simps park_entry_def park_one_simps)

lemma one_scratch_going:
  assumes "poll b 0 (csregs h 0xf14) d = (Going, d')"
  shows "run b debug_rom_one_scratch 0x800 8 (park_head_one h x, d) =
     Some (Running, snd (park_ends_one h Going), d')"
  using assms by (auto simp: run_simps park_one_simps flag_simps split: prod.splits if_splits)

lemma one_scratch_resuming:
  assumes "poll b 0 (csregs h 0xf14) d = (Resuming, d')"
  shows "run b debug_rom_one_scratch 0x800 14 (park_head_one h x, d) =
     Some (Leave, snd (park_ends_one h Resuming), d')"
  using assms by (auto simp: run_simps park_one_simps flag_simps split: prod.splits if_splits)

lemma one_scratch_again:
  assumes "poll b 0 (csregs h 0xf14) d = (Again, d')"
  shows "run b debug_rom_one_scratch 0x800 10 (park_head_one h x, d) =
     Some (Running, park_head_one h 0, d')"
  using assms by (auto simp: run_simps park_one_simps flag_simps split: prod.splits if_splits)

interpretation one_scratch: park_loop
  "reaches b debug_rom_one_scratch 0x800" "poll b 0 (csregs h 0xf14)"
  "park_entry 0 h" "park_head_one h" "park_ends_one h"
  for b :: "'d bus" and h
  by (rule park_loop_runs [OF one_scratch_enter one_scratch_again one_scratch_going one_scratch_resuming])
    (simp_all add: park_ends_one_def)

section \<open>Exceptions in the debugger's program\<close>

lemma debug_rom_exc:
  "run b debug_rom (dm_base k + 0x800) 8 (h\<lparr>hpc := dm_base k + 0x808\<rparr>, d) =
     Some (Break, h\<lparr>xregs := (xregs h)(8 := csregs h 0x7b2, 10 := csregs h 0x7b3),
       hpc := dm_base k + 0x86c\<rparr>, bus_sw b (dm_base k + 0x10c) 0 d)"
  by (simp add: run_simps page_bits fun_upd_twist)

lemma one_scratch_exc:
  "run b debug_rom_one_scratch 0x800 4 (h\<lparr>hpc := 0x808\<rparr>, d) =
     Some (Break, h\<lparr>xregs := (xregs h)(8 := csregs h 0x7b2), hpc := 0x844\<rparr>, bus_sw b 0x10c 0 d)"
  by (simp add: run_simps)

section \<open>Properties\<close>

text \<open>
  Claim C11: a hart that halts into \<open>debug_rom\<close>, wherever the debug module's page is, waits until the
  module's flags tell it to go or to resume, having done the stores and loads of \<open>park\<close> and no
  other. Then it stands at \<open>whereto\<close> or leaves debug mode with every register as it was at the halt;
  only the two scratch registers have changed.
\<close>

theorem debug_rom_parks:
  assumes "park (poll b (dm_base k) (csregs h 0xf14)) d v d'"
  shows "reaches b debug_rom (dm_base k + 0x800) (h\<lparr>hpc := dm_base k + 0x800\<rparr>, d)
    (if v = Going then Running else Leave)
    (h\<lparr>csregs := (csregs h)(0x7b2 := xregs h 8, 0x7b3 := xregs h 10),
       hpc := dm_base k + (if v = Going then 0x300 else 0x890)\<rparr>, d')"
  using two_scratch.parked [OF assms] by (simp add: park_entry_def park_ends_def saved_def split: if_splits)

text \<open>A debug module that answers the polls from a list of flag bytes and keeps the stores.\<close>

definition script_bus :: "(u8 list \<times> (u64 \<times> u32) list) bus" where
  "script_bus =
     \<lparr>bus_lbu = (\<lambda>a (fs, l). case fs of [] \<Rightarrow> (0, (fs, l)) | f # fs' \<Rightarrow> (f, (fs', l))),
      bus_lw = (\<lambda>a d. (0, d)), bus_sw = (\<lambda>a v (fs, l). (fs, l @ [(a, v)])), bus_mip = (\<lambda>_ _. 0)\<rparr>"

definition demo_hart :: hart where
  "demo_hart = \<lparr>xregs = of_nat, csregs = (\<lambda>c. if c = 0xf14 then 3 else 0), hpc = 0\<rparr>"

lemmas script_simps = poll_def poll_resume_def script_bus_def demo_hart_def dm_base_def Let_def

lemma script_resumes:
  "park (poll script_bus (dm_base 1) (csregs demo_hart 0xf14)) ([0, 0, 0, 2], []) Resuming
     ([], [(0x1100, 3), (0x1100, 3), (0x1108, 3)])"
  by (rule park.wait [of _ _ "([0, 2], [(0x1100, 3)])"], simp add: script_simps,
      rule park.found) (simp_all add: script_simps)

lemma script_goes:
  "park (poll script_bus 0 (csregs demo_hart 0xf14)) ([1], []) Going ([], [(0x100, 3), (0x104, 0)])"
  by (rule park.found) (simp_all add: script_simps)

theorem debug_rom_parks_witness:
  "reaches script_bus debug_rom 0x1800 (demo_hart\<lparr>hpc := 0x1800\<rparr>, ([0, 0, 0, 2], [])) Leave
     (demo_hart\<lparr>csregs := (csregs demo_hart)(0x7b2 := 8, 0x7b3 := 10), hpc := 0x1890\<rparr>,
      ([], [(0x1100, 3), (0x1100, 3), (0x1108, 3)]))"
  using debug_rom_parks [of script_bus 1 demo_hart, OF script_resumes] 
  by (simp add: demo_hart_def dm_base_def)

text \<open>
  A hart that halts into \<open>debug_rom_one_scratch\<close> at address 0 does the same stores and
  loads for the same flags, and uses one scratch register only.
\<close>

theorem one_scratch_parks:
  assumes "park (poll b 0 (csregs h 0xf14)) d v d'"
  shows "reaches b debug_rom_one_scratch 0x800 (h\<lparr>hpc := 0x800\<rparr>, d)
    (if v = Going then Running else Leave)
    (h\<lparr>csregs := (csregs h)(0x7b2 := xregs h 8), hpc := (if v = Going then 0x300 else 0x860)\<rparr>, d')"
  using one_scratch.parked [OF assms] by (simp add: park_entry_def park_ends_one_def saved_one_def split: if_splits)

theorem one_scratch_parks_witness:
  "reaches script_bus debug_rom_one_scratch 0x800 (demo_hart\<lparr>hpc := 0x800\<rparr>, ([1], [])) Running
     (demo_hart\<lparr>csregs := (csregs demo_hart)(0x7b2 := 8), hpc := 0x300\<rparr>,
      ([], [(0x100, 3), (0x104, 0)]))"
  using one_scratch_parks [of script_bus demo_hart, OF script_goes] by (simp add: demo_hart_def)

text \<open>
  When the debugger's program raises an exception, with the registers as that program left
  them, both images report it at \<open>EXCEPTION\<close> and stop in \<open>ebreak\<close>. The one with two scratch registers
  gives \<open>s0\<close> and \<open>a0\<close> back as they were at the halt, the other gives back \<open>s0\<close>.
\<close>

theorem debug_rom_exception:
  "let h2 = h\<lparr>csregs := (csregs h)(0x7b2 := s0, 0x7b3 := a0)\<rparr> in
   reaches b debug_rom (dm_base k + 0x800) (h2\<lparr>hpc := dm_base k + 0x808\<rparr>, d) Break
     (h2\<lparr>xregs := (xregs h)(8 := s0, 10 := a0), hpc := dm_base k + 0x86c\<rparr>,
      bus_sw b (dm_base k + 0x10c) 0 d) \<and>
   reaches b debug_rom_one_scratch 0x800 (h2\<lparr>hpc := 0x808\<rparr>, d) Break
     (h2\<lparr>xregs := (xregs h)(8 := s0), hpc := 0x844\<rparr>, bus_sw b 0x10c 0 d)"
proof -
  let ?h2 = "h\<lparr>csregs := (csregs h)(0x7b2 := s0, 0x7b3 := a0)\<rparr>"
  show ?thesis
    using reachesI [OF debug_rom_exc [of b k ?h2 d]] reachesI [OF one_scratch_exc [of b ?h2 d]]
    by (simp add: Let_def)
qed

text \<open>
  The reset code of the simulation, wherever its ROM is, jumps to the start of DRAM with
  the stack pointer 512 bytes above it after six instructions, and after one more from the entry
  64 bytes into the ROM; it touches no device and no other register than \<open>sp\<close> and \<open>s0\<close>.
\<close>

theorem bootrom_starts:
  "run b bootrom rb 6 (h\<lparr>hpc := rb\<rparr>, d) = Some (Running,
     h\<lparr>xregs := (xregs h)(2 := 0x80000200, 8 := 0x80000000), hpc := 0x80000000\<rparr>, d) \<and>
   run b bootrom rb 7 (h\<lparr>hpc := rb + 0x40\<rparr>, d) = run b bootrom rb 6 (h\<lparr>hpc := rb\<rparr>, d)"
  by (simp add: run_simps)

end
