(* ===== verification/Elf_Loader.thy ===== *)
theory Elf_Loader
  imports Boot_Prelude
begin

text \<open>
  The ELF reader of the simulation, \<open>corev_apu/tb/dpi/elfloader.cc\<close>: \<open>read_elf\<close> maps a file and records
  its loadable segments, \<open>get_section\<close> hands them out one by one and \<open>read_section\<close> copies their bytes.

  The structures of ELF come from \<open>fesvr/elf.h\<close>, which is not part of the repository; they are the
  parameter \<open>elf_abi\<close>, which says how large each structure is and how its fields are read from its
  bytes. The file system is a parameter too. A failure is a value: a failed assertion, \<open>abort\<close>, an
  uncaught exception of the allocator, or \<open>Wild\<close>, which is undefined behaviour: a read
  outside the mapped file, a write outside the caller's buffer, or signed overflow.
\<close>

section \<open>Parameters and state\<close>

datatype fault = Assertion | Aborted | Bad_Alloc | Wild

type_synonym 'a res = "fault + 'a"

definition and_ok :: "'a res \<Rightarrow> ('a \<Rightarrow> 'b res) \<Rightarrow> 'b res" where
  "and_ok m f = (case m of Inl e \<Rightarrow> Inl e | Inr x \<Rightarrow> f x)"

definition assert :: "bool \<Rightarrow> 'a res \<Rightarrow> 'a res" where
  "assert P m = (if P then m else Inl Assertion)"

type_synonym bytes = "u8 list"

text \<open>\<open>off_bits\<close> is the width of the types \<open>Elf32_Off\<close>, \<open>Elf32_Word\<close> (32) or \<open>Elf64_Off\<close>, \<open>Elf64_Xword\<close> (64).\<close>

record elf_abi =
  off_bits :: nat
  ehdr_size :: nat
  phdr_size :: nat
  shdr_size :: nat
  sym_size :: nat
  e_entry :: "bytes \<Rightarrow> u64"
  e_phoff :: "bytes \<Rightarrow> u64"
  e_shoff :: "bytes \<Rightarrow> u64"
  e_phnum :: "bytes \<Rightarrow> u16"
  e_shnum :: "bytes \<Rightarrow> u16"
  e_shstrndx :: "bytes \<Rightarrow> u16"
  p_type :: "bytes \<Rightarrow> u32"
  p_offset :: "bytes \<Rightarrow> u64"
  p_paddr :: "bytes \<Rightarrow> u64"
  p_filesz :: "bytes \<Rightarrow> u64"
  p_memsz :: "bytes \<Rightarrow> u64"
  sh_name :: "bytes \<Rightarrow> u32"
  sh_type :: "bytes \<Rightarrow> u32"
  sh_offset :: "bytes \<Rightarrow> u64"
  sh_size :: "bytes \<Rightarrow> u64"
  st_name :: "bytes \<Rightarrow> u32"
  st_value :: "bytes \<Rightarrow> u64"

record elf_env =
  abi32 :: elf_abi
  abi64 :: elf_abi
  is_elf32 :: "bytes \<Rightarrow> bool"
  is_elf64 :: "bytes \<Rightarrow> bool"
  PT_LOAD :: u32
  can_alloc :: "u64 \<Rightarrow> bool"

datatype opened = Unopened | Unstattable | Unmappable | File bytes

definition SHT_PROGBITS :: u32 where "SHT_PROGBITS = 0x1"
definition SHT_GROUP :: u32 where "SHT_GROUP = 0x11"

text \<open>The global variables.\<close>

record elf =
  sections :: "(u64 \<times> u64) list"
  symbols :: "string \<rightharpoonup> u64"
  mems :: "u64 \<rightharpoonup> bytes"
  entry :: u64
  section_index :: nat

section \<open>write, get_section and read_section\<close>

text \<open>The counter is an \<open>int\<close>, so it overflows after \<open>2 ^ 31 - 1\<close> bytes.\<close>

function write_bytes :: "nat \<Rightarrow> nat \<Rightarrow> bytes \<Rightarrow> bytes \<Rightarrow> bytes res" where
  "write_bytes i len buf mem =
     (if i < len then
        (if length buf \<le> i \<or> 2 ^ 31 \<le> i + 1 then Inl Wild
         else write_bytes (i + 1) len buf (mem @ [buf ! i]))
      else Inr mem)"
  by pat_completeness auto
termination
  by (relation "measure (\<lambda>(i, len, buf, mem). len - i)") auto

text \<open>\<open>std::map::insert\<close> keeps an entry that is already there.\<close>

definition elf_write :: "u64 \<Rightarrow> u64 \<Rightarrow> bytes \<Rightarrow> elf \<Rightarrow> elf res" where
  "elf_write address len buf st =
     and_ok (write_bytes 0 (unat len) buf [])
       (\<lambda>mem. Inr (case mems st address of
           None \<Rightarrow> st\<lparr>mems := (mems st)(address \<mapsto> mem)\<rparr> | Some _ \<Rightarrow> st))"

text \<open>The result is the returned character and, if it is 1, the values stored through the pointers.\<close>

definition get_section :: "elf \<Rightarrow> (u8 \<times> (u64 \<times> u64) option) \<times> elf" where
  "get_section st =
     (if section_index st < length (sections st)
      then ((1, Some (sections st ! section_index st)), st\<lparr>section_index := section_index st + 1\<rparr>)
      else ((0, None), st))"

fun copy_section :: "bytes \<Rightarrow> nat \<Rightarrow> bytes \<Rightarrow> bytes res" where
  "copy_section [] i buf = Inr buf"
| "copy_section (datum # ds) i buf =
     (if i < length buf then copy_section ds (i + 1) (buf[i := datum]) else Inl Wild)"

definition read_section :: "u64 \<Rightarrow> bytes \<Rightarrow> elf \<Rightarrow> bytes res" where
  "read_section address buf st =
     (case mems st address of None \<Rightarrow> Inl Assertion | Some ds \<Rightarrow> copy_section ds 0 buf)"

section \<open>Reading the mapped file\<close>

definition struct_at :: "nat \<Rightarrow> nat \<Rightarrow> bytes \<Rightarrow> bytes res" where
  "struct_at off n buf = (if off + n \<le> length buf then Inr (take n (drop off buf)) else Inl Wild)"

definition peek :: "bytes \<Rightarrow> nat \<Rightarrow> u8 res" where
  "peek buf off = (if off < length buf then Inr (buf ! off) else Inl Wild)"

text \<open>\<open>strcmp(buf + off, lit) == 0\<close> and \<open>strnlen(buf + off, n)\<close>; both stop reading as early as the
  library functions may.\<close>

fun streq :: "bytes \<Rightarrow> nat \<Rightarrow> string \<Rightarrow> bool res" where
  "streq buf off [] = and_ok (peek buf off) (\<lambda>b. Inr (b = 0))"
| "streq buf off (c # cs) =
     and_ok (peek buf off) (\<lambda>b. if b = of_char c then streq buf (off + 1) cs else Inr False)"

fun strnlen :: "bytes \<Rightarrow> nat \<Rightarrow> nat \<Rightarrow> nat res" where
  "strnlen buf off 0 = Inr 0"
| "strnlen buf off (Suc n) =
     and_ok (peek buf off)
       (\<lambda>b. if b = 0 then Inr 0 else and_ok (strnlen buf (off + 1) n) (\<lambda>k. Inr (Suc k)))"

definition str_at :: "bytes \<Rightarrow> nat \<Rightarrow> string" where
  "str_at buf off = map (\<lambda>b. char_of (unat b)) (takeWhile (\<lambda>b. b \<noteq> 0) (drop off buf))"

text \<open>Sums of two fields of the file have the width of those fields.\<close>

definition off_add :: "elf_abi \<Rightarrow> u64 \<Rightarrow> u64 \<Rightarrow> u64" where
  "off_add abi a b = take_bit (off_bits abi) (a + b)"

definition fits :: "bytes \<Rightarrow> u64 \<Rightarrow> bool" where
  "fits buf e \<longleftrightarrow> e \<le> of_nat (length buf)"

section \<open>LOAD_ELF\<close>

definition phdr :: "elf_abi \<Rightarrow> bytes \<Rightarrow> bytes \<Rightarrow> nat \<Rightarrow> bytes res" where
  "phdr abi buf eh i = struct_at (unat (e_phoff abi eh) + i * phdr_size abi) (phdr_size abi) buf"

text \<open>
  One turn of the loop over the program headers. \<open>zeros\<close> is only resized, so what is left of it is
  whether the allocation succeeds.
\<close>

definition load_segment :: "elf_env \<Rightarrow> elf_abi \<Rightarrow> bytes \<Rightarrow> bytes \<Rightarrow> elf \<Rightarrow> elf res" where
  "load_segment env abi buf ph st =
     (if p_type abi ph = PT_LOAD env \<and> p_memsz abi ph \<noteq> 0 then
        and_ok
          (if p_filesz abi ph \<noteq> 0 then
             assert (fits buf (off_add abi (p_offset abi ph) (p_filesz abi ph)))
               (let st = st\<lparr>sections := sections st @ [(p_paddr abi ph, p_memsz abi ph)]\<rparr> in
                elf_write (p_paddr abi ph) (p_filesz abi ph) (drop (unat (p_offset abi ph)) buf) st)
           else Inr st)
          (\<lambda>st. if can_alloc env (take_bit (off_bits abi) (p_memsz abi ph - p_filesz abi ph)) then Inr st
                else Inl Bad_Alloc)
      else Inr st)"

function load_segments :: "elf_env \<Rightarrow> elf_abi \<Rightarrow> bytes \<Rightarrow> bytes \<Rightarrow> nat \<Rightarrow> elf \<Rightarrow> elf res" where
  "load_segments env abi buf eh i st =
     (if i < unat (e_phnum abi eh) then
        and_ok (phdr abi buf eh i) (\<lambda>ph.
        and_ok (load_segment env abi buf ph st) (\<lambda>st. load_segments env abi buf eh (i + 1) st))
      else Inr st)"
  by pat_completeness auto
termination
  by (relation "measure (\<lambda>(env, abi, buf, eh, i, st). unat (e_phnum abi eh) - i)") auto

definition shdr :: "elf_abi \<Rightarrow> bytes \<Rightarrow> bytes \<Rightarrow> nat \<Rightarrow> bytes res" where
  "shdr abi buf eh i = struct_at (unat (e_shoff abi eh) + i * shdr_size abi) (shdr_size abi) buf"

text \<open>One turn of the loop over the section headers, on \<open>strtabidx\<close> and \<open>symtabidx\<close>; \<open>str\<close> is the
  header of the section with the names.\<close>

definition check_name :: "elf_abi \<Rightarrow> bytes \<Rightarrow> bytes \<Rightarrow> bytes \<Rightarrow> unit res" where
  "check_name abi buf str sh =
     (let name = unat (sh_offset abi str) + unat (sh_name abi sh);
          max_len = ucast (sh_size abi str - ucast (sh_name abi sh)) :: u32 in
      if sh_type abi sh AND SHT_GROUP \<noteq> 0 then
        and_ok (streq buf name ''.strtab'') (\<lambda>a. if a then Inr () else
        and_ok (streq buf name ''.shstrtab'') (\<lambda>b. if b then Inr () else
        and_ok (strnlen buf name (unat max_len)) (\<lambda>n. assert (n < unat max_len) (Inr ()))))
      else Inr ())"

definition find_table :: "elf_abi \<Rightarrow> bytes \<Rightarrow> bytes \<Rightarrow> bytes \<Rightarrow> nat \<Rightarrow> nat \<times> nat \<Rightarrow> (nat \<times> nat) res" where
  "find_table abi buf str sh i = (\<lambda>(strtabidx, symtabidx).
     and_ok (check_name abi buf str sh) (\<lambda>_.
     if sh_type abi sh AND SHT_PROGBITS \<noteq> 0 then Inr (strtabidx, symtabidx) else
     (let name = unat (sh_offset abi str) + unat (sh_name abi sh) in
      and_ok (streq buf name ''.strtab'') (\<lambda>a.
      and_ok (streq buf name ''.symtab'') (\<lambda>b.
        Inr (if a then i else strtabidx, if b then i else symtabidx))))))"

function find_tables :: "elf_abi \<Rightarrow> bytes \<Rightarrow> bytes \<Rightarrow> bytes \<Rightarrow> nat \<Rightarrow> nat \<times> nat \<Rightarrow> (nat \<times> nat) res" where
  "find_tables abi buf eh str i idx =
     (if i < unat (e_shnum abi eh) then
        and_ok (shdr abi buf eh i) (\<lambda>sh.
        and_ok (find_table abi buf str sh i idx) (\<lambda>idx. find_tables abi buf eh str (i + 1) idx))
      else Inr idx)"
  by pat_completeness auto
termination
  by (relation "measure (\<lambda>(abi, buf, eh, str, i, idx). unat (e_shnum abi eh) - i)") auto

text \<open>The loop over the symbols, on the local variable \<open>symbols\<close>.\<close>

definition load_symbol :: "elf_abi \<Rightarrow> bytes \<Rightarrow> bytes \<Rightarrow> bytes \<Rightarrow> (string \<rightharpoonup> u64) \<Rightarrow> (string \<rightharpoonup> u64) res" where
  "load_symbol abi buf str sy syms =
     (let name = unat (sh_offset abi str) + unat (st_name abi sy);
          max_len = ucast (sh_size abi str - ucast (st_name abi sy)) :: u32 in
      assert (ucast (st_name abi sy) < sh_size abi str)
        (and_ok (strnlen buf name (unat max_len)) (\<lambda>n.
         assert (n < unat max_len) (Inr (syms(str_at buf name \<mapsto> st_value abi sy))))))"

function load_symbols ::
    "elf_abi \<Rightarrow> bytes \<Rightarrow> bytes \<Rightarrow> bytes \<Rightarrow> nat \<Rightarrow> (string \<rightharpoonup> u64) \<Rightarrow> (string \<rightharpoonup> u64) res" where
  "load_symbols abi buf str tab i syms =
     (if i < unat (sh_size abi tab) div sym_size abi then
        and_ok (struct_at (unat (sh_offset abi tab) + i * sym_size abi) (sym_size abi) buf) (\<lambda>sy.
        and_ok (load_symbol abi buf str sy syms) (\<lambda>syms. load_symbols abi buf str tab (i + 1) syms))
      else Inr syms)"
  by pat_completeness auto
termination
  by (relation "measure (\<lambda>(abi, buf, str, tab, i, syms). unat (sh_size abi tab) div sym_size abi - i)") auto

definition load_sections :: "elf_abi \<Rightarrow> bytes \<Rightarrow> bytes \<Rightarrow> (string \<rightharpoonup> u64) res" where
  "load_sections abi buf eh =
     assert (fits buf (e_shoff abi eh + ucast (e_shnum abi eh) * of_nat (shdr_size abi)))
    (assert (e_shstrndx abi eh < e_shnum abi eh)
    (and_ok (shdr abi buf eh (unat (e_shstrndx abi eh))) (\<lambda>str.
     assert (fits buf (off_add abi (sh_offset abi str) (sh_size abi str)))
    (and_ok (find_tables abi buf eh str 0 (0, 0)) (\<lambda>(strtabidx, symtabidx).
     if strtabidx \<noteq> 0 \<and> symtabidx \<noteq> 0 then
       and_ok (shdr abi buf eh strtabidx) (\<lambda>strtab.
       and_ok (shdr abi buf eh symtabidx) (\<lambda>symtab. load_symbols abi buf strtab symtab 0 Map.empty))
     else Inr Map.empty)))))"

definition load_elf :: "elf_env \<Rightarrow> elf_abi \<Rightarrow> bytes \<Rightarrow> elf \<Rightarrow> elf res" where
  "load_elf env abi buf st =
     and_ok (struct_at 0 (ehdr_size abi) buf) (\<lambda>eh.
     (let st = st\<lparr>entry := e_entry abi eh\<rparr> in
      assert (fits buf (e_phoff abi eh + ucast (e_phnum abi eh) * of_nat (phdr_size abi)))
        (and_ok (load_segments env abi buf eh 0 st) (\<lambda>st.
         and_ok (load_sections abi buf eh) (\<lambda>_. Inr st)))))"

definition read_elf :: "elf_env \<Rightarrow> opened \<Rightarrow> elf \<Rightarrow> elf res" where
  "read_elf env f st =
     (case f of
        Unopened \<Rightarrow> Inl Assertion
      | Unstattable \<Rightarrow> Inl Aborted
      | Unmappable \<Rightarrow> Inl Assertion
      | File buf \<Rightarrow>
          assert (ehdr_size (abi64 env) \<le> length buf)
         (assert (is_elf32 env buf \<or> is_elf64 env buf)
         (if is_elf32 env buf then load_elf env (abi32 env) buf st
          else load_elf env (abi64 env) buf st)))"

end
