(* ===== verification/Elf_Props.thy ===== *)
theory Elf_Props
  imports Elf_Loader Gpt_Format
begin

text \<open>
  What the ELF reader promises: on a well-formed file \<open>read_elf\<close> returns and has recorded the loadable
  segments; \<open>get_section\<close> hands out each once; \<open>read_section\<close> copies the bytes of the file. And where
  its checks do not hold what they promise.
\<close>

section \<open>Results\<close>

lemma and_ok_simps [simp]: "and_ok (Inl e) f = Inl e" "and_ok (Inr x) f = f x"
  by (simp_all add: and_ok_def)

lemma assert_simps [simp]: "assert True m = m" "assert False m = Inl Assertion"
  by (simp_all add: assert_def)

lemma and_ok_InrE:
  assumes "and_ok m f = Inr y"
  obtains x where "m = Inr x" "f x = Inr y"
  using assms by (cases m) simp_all

declare write_bytes.simps [simp del] load_segments.simps [simp del] find_tables.simps [simp del]
  load_symbols.simps [simp del]

section \<open>Segments\<close>

definition seg_bytes :: "elf_abi \<Rightarrow> bytes \<Rightarrow> bytes \<Rightarrow> bytes" where
  "seg_bytes abi buf ph = take (unat (p_filesz abi ph)) (drop (unat (p_offset abi ph)) buf)"

definition loadable :: "elf_env \<Rightarrow> elf_abi \<Rightarrow> bytes \<Rightarrow> bool" where
  "loadable env abi ph \<longleftrightarrow> p_type abi ph = PT_LOAD env \<and> p_memsz abi ph \<noteq> 0 \<and> p_filesz abi ph \<noteq> 0"

definition phdrs :: "elf_abi \<Rightarrow> bytes \<Rightarrow> bytes \<Rightarrow> bytes list" where
  "phdrs abi buf eh = map (\<lambda>i. take (phdr_size abi) (drop (unat (e_phoff abi eh) + i * phdr_size abi) buf))
     [0..<unat (e_phnum abi eh)]"

definition seg_sections :: "elf_abi \<Rightarrow> bytes list \<Rightarrow> (u64 \<times> u64) list" where
  "seg_sections abi phs = map (\<lambda>ph. (p_paddr abi ph, p_memsz abi ph)) phs"

definition seg_mems :: "elf_abi \<Rightarrow> bytes \<Rightarrow> bytes list \<Rightarrow> (u64 \<rightharpoonup> bytes)" where
  "seg_mems abi buf phs = map_of (map (\<lambda>ph. (p_paddr abi ph, seg_bytes abi buf ph)) phs)"

text \<open>A segment that the loop accepts.\<close>

definition seg_ok :: "elf_env \<Rightarrow> elf_abi \<Rightarrow> bytes \<Rightarrow> bytes \<Rightarrow> bool" where
  "seg_ok env abi buf ph \<longleftrightarrow> p_type abi ph = PT_LOAD env \<and> p_memsz abi ph \<noteq> 0 \<longrightarrow>
     unat (p_offset abi ph) + unat (p_filesz abi ph) \<le> length buf \<and> p_filesz abi ph < 2 ^ 31 \<and>
     can_alloc env (take_bit (off_bits abi) (p_memsz abi ph - p_filesz abi ph))"

definition small_file :: "elf_abi \<Rightarrow> bytes \<Rightarrow> bool" where
  "small_file abi buf \<longleftrightarrow> off_bits abi \<le> 64 \<and> length buf < 2 ^ off_bits abi"

lemma write_bytes_all:
  "i \<le> len \<Longrightarrow> len \<le> length buf \<Longrightarrow> len < 2 ^ 31 \<Longrightarrow>
   write_bytes i len buf mem = Inr (mem @ take (len - i) (drop i buf))"
proof (induction i len buf mem rule: write_bytes.induct)
  case (1 i len buf mem)
  show ?case
  proof (cases "i < len")
    case True
    then have "take (len - i) (drop i buf) = buf ! i # take (len - (i + 1)) (drop (i + 1) buf)"
      using 1(3) by (simp add: Cons_nth_drop_Suc [symmetric] Suc_diff_Suc [symmetric])
    with True 1 show ?thesis by (subst write_bytes.simps) simp
  next
    case False
    with 1(2) show ?thesis by (subst write_bytes.simps) simp
  qed
qed

lemma fits_sum:
  assumes "small_file abi buf" "unat a + unat b \<le> length buf"
  shows "fits buf (off_add abi a b)" "fits buf (a + b)"
proof -
  have 64: "length buf < 2 ^ 64"
    using assms(1) power_increasing [of "off_bits abi" 64 "2 :: nat"] by (simp add: small_file_def)
  have sum: "unat (a + b) = unat a + unat b" using assms(2) 64 by (simp add: unat_word_ariths)
  have len: "unat (of_nat (length buf) :: u64) = length buf" using 64 by (simp add: unat_of_nat)
  show "fits buf (a + b)" using assms(2) by (simp add: fits_def word_le_nat_alt sum len)
  have "unat (take_bit (off_bits abi) (a + b)) = unat (a + b)"
    using assms by (simp add: small_file_def unsigned_take_bit_eq sum take_bit_nat_eq_self)
  then show "fits buf (off_add abi a b)"
    using assms(2) by (simp add: off_add_def fits_def word_le_nat_alt sum len)
qed

text \<open>The bounds on the two tables: the number of entries is 16 bits wide.\<close>

lemma fits_table:
  assumes "small_file abi buf" "unat off + unat n * k \<le> length buf"
  shows "fits buf (off + ucast (n :: u16) * of_nat k)"
proof -
  have 64: "length buf < 2 ^ 64"
    using assms(1) power_increasing [of "off_bits abi" 64 "2 :: nat"] by (simp add: small_file_def)
  have "ucast n * of_nat k = (of_nat (unat n * k) :: u64)" by simp
  then have "unat (ucast n * of_nat k :: u64) = unat n * k mod 2 ^ 64" by (simp only: unat_of_nat) simp
  then have "unat (ucast n * of_nat k :: u64) = unat n * k"
    using assms(2) 64 by simp
  then show ?thesis using fits_sum(2) [of abi buf off "ucast n * of_nat k"] assms by simp
qed

lemma phdr_eq:
  assumes "unat (e_phoff abi eh) + unat (e_phnum abi eh) * phdr_size abi \<le> length buf" "i < unat (e_phnum abi eh)"
  shows "phdr abi buf eh i = Inr (phdrs abi buf eh ! i)"
proof -
  have "(i + 1) * phdr_size abi \<le> unat (e_phnum abi eh) * phdr_size abi" using assms(2) by (intro mult_le_mono1) simp
  then show ?thesis using assms by (simp add: phdr_def struct_at_def phdrs_def)
qed

lemma elf_write_eq:
  assumes "write_bytes 0 (unat len) buf [] = Inr mem"
  shows "elf_write a len buf st = Inr (st\<lparr>mems := [a \<mapsto> mem] ++ mems st\<rparr>)"
  using assms by (auto simp: elf_write_def map_add_def fun_eq_iff split: option.split intro!: elf.equality)

lemma load_segment_ok:
  assumes "small_file abi buf" "seg_ok env abi buf ph"
  shows "load_segment env abi buf ph st = Inr (if loadable env abi ph
     then st\<lparr>sections := sections st @ seg_sections abi [ph], mems := seg_mems abi buf [ph] ++ mems st\<rparr> else st)"
proof (cases "loadable env abi ph")
  case True
  then have len: "unat (p_offset abi ph) + unat (p_filesz abi ph) \<le> length buf" "unat (p_filesz abi ph) < 2 ^ 31"
    using assms(2) by (auto simp: seg_ok_def loadable_def word_less_nat_alt)
  have "write_bytes 0 (unat (p_filesz abi ph)) (drop (unat (p_offset abi ph)) buf) [] = Inr (seg_bytes abi buf ph)"
    using write_bytes_all [of 0 "unat (p_filesz abi ph)" "drop (unat (p_offset abi ph)) buf" "[]"] len
    by (simp add: seg_bytes_def)
  then show ?thesis
    using True assms fits_sum(1) [OF assms(1) len(1)]
    by (simp add: load_segment_def loadable_def seg_ok_def elf_write_eq seg_sections_def seg_mems_def Let_def)
next
  case False
  then show ?thesis using assms(2) by (auto simp: load_segment_def loadable_def seg_ok_def)
qed

lemma seg_Nil [simp]: "seg_sections abi [] = []" "seg_mems abi buf [] = Map.empty"
  by (simp_all add: seg_sections_def seg_mems_def)

definition recorded :: "elf_env \<Rightarrow> elf_abi \<Rightarrow> bytes \<Rightarrow> bytes list \<Rightarrow> elf \<Rightarrow> elf" where
  "recorded env abi buf phs st =
     (let phs = filter (loadable env abi) phs in
      st\<lparr>sections := sections st @ seg_sections abi phs, mems := seg_mems abi buf phs ++ mems st\<rparr>)"

lemma recorded_Nil: "recorded env abi buf [] st = st"
  by (simp add: recorded_def Let_def)

lemma recorded_Cons:
  "recorded env abi buf (ph # phs) st = recorded env abi buf phs (if loadable env abi ph
     then st\<lparr>sections := sections st @ seg_sections abi [ph], mems := seg_mems abi buf [ph] ++ mems st\<rparr> else st)"
  by (simp add: recorded_def Let_def seg_sections_def seg_mems_def)

lemma load_segments_ok:
  assumes "small_file abi buf" "\<forall>ph \<in> set (phdrs abi buf eh). seg_ok env abi buf ph"
    and "unat (e_phoff abi eh) + unat (e_phnum abi eh) * phdr_size abi \<le> length buf"
  shows "i \<le> unat (e_phnum abi eh) \<Longrightarrow>
    load_segments env abi buf eh i st = Inr (recorded env abi buf (drop i (phdrs abi buf eh)) st)"
proof (induction "unat (e_phnum abi eh) - i" arbitrary: i st)
  case 0
  then show ?case by (subst load_segments.simps) (simp add: recorded_Nil phdrs_def)
next
  case (Suc n)
  then have i: "i < unat (e_phnum abi eh)" by simp
  then have "i < length (phdrs abi buf eh)" by (simp add: phdrs_def)
  then have "drop i (phdrs abi buf eh) = phdrs abi buf eh ! i # drop (i + 1) (phdrs abi buf eh)"
    and "seg_ok env abi buf (phdrs abi buf eh ! i)"
    using assms(2) by (simp_all add: Cons_nth_drop_Suc)
  then show ?case using Suc(1) [of "i + 1"] Suc(2) i phdr_eq [OF assms(3) i]
    by (subst load_segments.simps) (simp add: recorded_Cons load_segment_ok [OF assms(1)])
qed

section \<open>String tables\<close>

text \<open>A string table in the file whose last byte is 0, as ELF requires.\<close>

definition table_ok :: "bytes \<Rightarrow> u64 \<Rightarrow> u64 \<Rightarrow> bool" where
  "table_ok buf off n \<longleftrightarrow> unat off + unat n \<le> length buf \<and> 0 < n \<and> n < 2 ^ 32 \<and>
     buf ! (unat off + unat n - 1) = 0"

lemma strnlen_terminated:
  "z < n \<Longrightarrow> off + z < length buf \<Longrightarrow> buf ! (off + z) = 0 \<Longrightarrow> \<exists>k. strnlen buf off n = Inr k \<and> k < n"
proof (induction n arbitrary: off z)
  case (Suc n)
  show ?case
  proof (cases "buf ! off = 0")
    case False
    then obtain z' where "z = Suc z'" using Suc.prems(3) by (cases z) auto
    then obtain k where "strnlen buf (off + 1) n = Inr k" "k < n"
      using Suc.IH [of z' "off + 1"] Suc.prems by auto
    then show ?thesis using Suc.prems False by (simp add: peek_def)
  qed (use Suc.prems in \<open>simp add: peek_def\<close>)
qed simp

lemma streq_terminated:
  "list_all (\<lambda>c. of_char c \<noteq> (0 :: u8)) lit \<Longrightarrow> off + z < length buf \<Longrightarrow> buf ! (off + z) = 0 \<Longrightarrow> \<exists>b. streq buf off lit = Inr b"
proof (induction lit arbitrary: off z)
  case (Cons c cs)
  show ?case
  proof (cases "buf ! off = of_char c")
    case True
    then obtain z' where "z = Suc z'" using Cons.prems by (cases z) auto
    then show ?thesis using Cons.IH [of "off + 1" z'] Cons.prems True by (simp add: peek_def)
  next
    case False
    then have "streq buf off (c # cs) = Inr False" using Cons.prems by (simp add: peek_def)
    then show ?thesis by blast
  qed
qed (simp add: peek_def)

lemma unat_u32_u64: "unat (ucast (k :: u32) :: u64) = unat k"
proof -
  have "unat k < 2 ^ 64" using unsigned_less [of k, where 'a = nat] by simp
  then show ?thesis by (simp add: unsigned_ucast_eq take_bit_nat_eq_self)
qed

text \<open>What the loops over names rely on, for a name inside a table.\<close>

lemma table_strings:
  assumes "table_ok buf off n" "ucast (k :: u32) < n"
  shows "unat (ucast (n - ucast k) :: u32) = unat n - unat k"
    and "\<exists>m. strnlen buf (unat off + unat k) (unat n - unat k) = Inr m \<and> m < unat n - unat k"
    and "list_all (\<lambda>c. of_char c \<noteq> (0 :: u8)) lit \<Longrightarrow> \<exists>b. streq buf (unat off + unat k) lit = Inr b"
proof -
  have k: "unat k < unat n" using assms(2) by (simp add: word_less_nat_alt unat_u32_u64)
  have n: "unat n < 2 ^ 32" using assms(1) by (simp add: table_ok_def word_less_nat_alt)
  have z: "unat off + unat k + (unat n - unat k - 1) = unat off + unat n - 1"
    "unat n - unat k - 1 < unat n - unat k" using k by simp_all
  have last: "unat off + unat n - 1 < length buf" "buf ! (unat off + unat n - 1) = 0"
    using assms(1) k by (auto simp: table_ok_def)
  have "unat (n - ucast k) = unat n - unat k"
    using k by (subst unat_sub) (simp_all add: word_le_nat_alt unat_u32_u64)
  then show "unat (ucast (n - ucast k) :: u32) = unat n - unat k"
    using n by (simp add: unsigned_ucast_eq take_bit_nat_eq_self)
  show "\<exists>m. strnlen buf (unat off + unat k) (unat n - unat k) = Inr m \<and> m < unat n - unat k"
    by (rule strnlen_terminated [OF z(2)]) (simp_all only: z(1) last)
  show "\<exists>b. streq buf (unat off + unat k) lit = Inr b" if "list_all (\<lambda>c. of_char c \<noteq> (0 :: u8)) lit"
    by (rule streq_terminated [OF that, of _ "unat n - unat k - 1"]) (simp_all only: z(1) last)
qed

section \<open>Section headers\<close>

definition shdrs :: "elf_abi \<Rightarrow> bytes \<Rightarrow> bytes \<Rightarrow> bytes list" where
  "shdrs abi buf eh = map (\<lambda>i. take (shdr_size abi) (drop (unat (e_shoff abi eh) + i * shdr_size abi) buf))
     [0..<unat (e_shnum abi eh)]"

definition names_ok :: "elf_abi \<Rightarrow> bytes \<Rightarrow> bytes list \<Rightarrow> bytes \<Rightarrow> bool" where
  "names_ok abi buf shs str \<longleftrightarrow> table_ok buf (sh_offset abi str) (sh_size abi str) \<and>
     (\<forall>sh \<in> set shs. ucast (sh_name abi sh) < sh_size abi str)"

lemma shdr_eq:
  assumes "unat (e_shoff abi eh) + unat (e_shnum abi eh) * shdr_size abi \<le> length buf" "i < unat (e_shnum abi eh)"
  shows "shdr abi buf eh i = Inr (shdrs abi buf eh ! i)"
proof -
  have "(i + 1) * shdr_size abi \<le> unat (e_shnum abi eh) * shdr_size abi" using assms(2) by (intro mult_le_mono1) simp
  then show ?thesis using assms by (simp add: shdr_def struct_at_def shdrs_def)
qed

lemma find_table_ok:
  assumes "names_ok abi buf shs str" "sh \<in> set shs"
  shows "\<exists>a b. find_table abi buf str sh i (p, q) = Inr (if a then i else p, if b then i else q)"
proof -
  note t = assms(1) [unfolded names_ok_def, THEN conjunct1]
  have k: "ucast (sh_name abi sh) < sh_size abi str" using assms by (simp add: names_ok_def)
  note str = table_strings [OF t k]
  obtain a b c m where "streq buf (unat (sh_offset abi str) + unat (sh_name abi sh)) ''.strtab'' = Inr a"
    "streq buf (unat (sh_offset abi str) + unat (sh_name abi sh)) ''.shstrtab'' = Inr c"
    "streq buf (unat (sh_offset abi str) + unat (sh_name abi sh)) ''.symtab'' = Inr b"
    "strnlen buf (unat (sh_offset abi str) + unat (sh_name abi sh)) (unat (sh_size abi str) - unat (sh_name abi sh)) = Inr m"
    "m < unat (sh_size abi str) - unat (sh_name abi sh)"
    using str(2) str(3) [of "''.strtab''"] str(3) [of "''.shstrtab''"] str(3) [of "''.symtab''"] by auto
  then have "find_table abi buf str sh i (p, q) =
      Inr (if sh_type abi sh AND SHT_PROGBITS \<noteq> 0 then (p, q) else (if a then i else p, if b then i else q))"
    by (simp add: find_table_def check_name_def Let_def str(1))
  then show ?thesis
    by (cases "sh_type abi sh AND SHT_PROGBITS \<noteq> 0") (auto intro: exI [of _ False])
qed

lemma find_tables_ok:
  assumes "names_ok abi buf (shdrs abi buf eh) str"
    and "unat (e_shoff abi eh) + unat (e_shnum abi eh) * shdr_size abi \<le> length buf"
  shows "i \<le> unat (e_shnum abi eh) \<Longrightarrow> p < unat (e_shnum abi eh) \<Longrightarrow> q < unat (e_shnum abi eh) \<Longrightarrow>
    \<exists>p' q'. find_tables abi buf eh str i (p, q) = Inr (p', q') \<and> p' < unat (e_shnum abi eh) \<and> q' < unat (e_shnum abi eh)"
proof (induction "unat (e_shnum abi eh) - i" arbitrary: i p q)
  case 0
  then show ?case by (subst find_tables.simps) simp
next
  case (Suc n)
  then have i: "i < unat (e_shnum abi eh)" by simp
  then have "shdrs abi buf eh ! i \<in> set (shdrs abi buf eh)" by (intro nth_mem) (simp add: shdrs_def)
  then obtain a b where "find_table abi buf str (shdrs abi buf eh ! i) i (p, q) = Inr (if a then i else p, if b then i else q)"
    using find_table_ok [OF assms(1)] by blast
  then show ?case
    using Suc(1) [of "i + 1" "if a then i else p" "if b then i else q"] Suc(2-) i shdr_eq [OF assms(2) i]
    by (subst find_tables.simps) simp
qed

section \<open>Symbols\<close>

definition syms_ok :: "elf_abi \<Rightarrow> bytes \<Rightarrow> bytes \<Rightarrow> bytes \<Rightarrow> bool" where
  "syms_ok abi buf str tab \<longleftrightarrow> 0 < sym_size abi \<and> table_ok buf (sh_offset abi str) (sh_size abi str) \<and>
     unat (sh_offset abi tab) + unat (sh_size abi tab) \<le> length buf \<and>
     (\<forall>i \<in> {0..<unat (sh_size abi tab) div sym_size abi}.
        ucast (st_name abi (take (sym_size abi) (drop (unat (sh_offset abi tab) + i * sym_size abi) buf))) < sh_size abi str)"

lemma load_symbol_ok:
  assumes "table_ok buf (sh_offset abi str) (sh_size abi str)" "ucast (st_name abi sy) < sh_size abi str"
  shows "\<exists>syms'. load_symbol abi buf str sy syms = Inr syms'"
  using table_strings(1,2) [OF assms] assms(2) by (auto simp: load_symbol_def Let_def)

lemma load_symbols_ok:
  assumes "syms_ok abi buf str tab"
  shows "\<exists>syms'. load_symbols abi buf str tab i syms = Inr syms'"
proof (induction "unat (sh_size abi tab) div sym_size abi - i" arbitrary: i syms)
  case 0
  then show ?case by (subst load_symbols.simps) simp
next
  case (Suc n)
  then have i: "i < unat (sh_size abi tab) div sym_size abi" by simp
  let ?off = "unat (sh_offset abi tab) + i * sym_size abi"
  have "(i + 1) * sym_size abi \<le> unat (sh_size abi tab) div sym_size abi * sym_size abi"
    using i by (intro mult_le_mono1) simp
  then have "(i + 1) * sym_size abi \<le> unat (sh_size abi tab)" by (rule le_trans) (rule div_times_less_eq_dividend)
  then have "struct_at ?off (sym_size abi) buf = Inr (take (sym_size abi) (drop ?off buf))"
    using assms by (simp add: struct_at_def syms_ok_def)
  moreover obtain syms' where
    "load_symbol abi buf str (take (sym_size abi) (drop ?off buf)) syms = Inr syms'"
    using load_symbol_ok assms i by (fastforce simp: syms_ok_def)
  ultimately show ?case using Suc(1) [of "i + 1" syms'] Suc(2) i by (subst load_symbols.simps) simp
qed

section \<open>Well-formed files\<close>

text \<open>The tables of names must be sound for whichever sections the loop may pick.\<close>

definition sections_ok :: "elf_abi \<Rightarrow> bytes \<Rightarrow> bytes \<Rightarrow> bool" where
  "sections_ok abi buf eh \<longleftrightarrow>
     unat (e_shoff abi eh) + unat (e_shnum abi eh) * shdr_size abi \<le> length buf \<and>
     e_shstrndx abi eh < e_shnum abi eh \<and>
     names_ok abi buf (shdrs abi buf eh) (shdrs abi buf eh ! unat (e_shstrndx abi eh)) \<and>
     (case find_tables abi buf eh (shdrs abi buf eh ! unat (e_shstrndx abi eh)) 0 (0, 0) of
        Inl _ \<Rightarrow> True
      | Inr (p, q) \<Rightarrow> p \<noteq> 0 \<and> q \<noteq> 0 \<longrightarrow> syms_ok abi buf (shdrs abi buf eh ! p) (shdrs abi buf eh ! q))"

lemma load_sections_ok:
  assumes "small_file abi buf" "sections_ok abi buf eh"
  shows "\<exists>syms. load_sections abi buf eh = Inr syms"
proof -
  let ?n = "unat (e_shnum abi eh)" and ?str = "shdrs abi buf eh ! unat (e_shstrndx abi eh)"
  have len: "unat (e_shoff abi eh) + ?n * shdr_size abi \<le> length buf"
    and ndx: "e_shstrndx abi eh < e_shnum abi eh" and names: "names_ok abi buf (shdrs abi buf eh) ?str"
    using assms(2) by (simp_all add: sections_ok_def)
  have i: "unat (e_shstrndx abi eh) < ?n" using ndx by (simp add: word_less_nat_alt)
  obtain p q where pq: "find_tables abi buf eh ?str 0 (0, 0) = Inr (p, q)" "p < ?n" "q < ?n"
    using find_tables_ok [OF names len, of 0 0 0] i by auto
  have str: "unat (sh_offset abi ?str) + unat (sh_size abi ?str) \<le> length buf"
    using names by (simp add: names_ok_def table_ok_def)
  have "\<exists>syms. load_symbols abi buf (shdrs abi buf eh ! p) (shdrs abi buf eh ! q) 0 Map.empty = Inr syms"
    if "p \<noteq> 0" "q \<noteq> 0"
    using assms(2) pq(1) that load_symbols_ok by (simp add: sections_ok_def)
  then show ?thesis
    using fits_table [OF assms(1) len] fits_sum(1) [OF assms(1) str] ndx pq shdr_eq [OF len i]
      shdr_eq [OF len pq(2)] shdr_eq [OF len pq(3)]
    by (simp add: load_sections_def)
qed

definition file_abi :: "elf_env \<Rightarrow> bytes \<Rightarrow> elf_abi" where
  "file_abi env buf = (if is_elf32 env buf then abi32 env else abi64 env)"

definition elf_ok :: "elf_env \<Rightarrow> elf_abi \<Rightarrow> bytes \<Rightarrow> bool" where
  "elf_ok env abi buf \<longleftrightarrow> (let eh = take (ehdr_size abi) buf in
     ehdr_size (abi64 env) \<le> length buf \<and> ehdr_size abi \<le> length buf \<and> small_file abi buf \<and>
     (is_elf32 env buf \<or> is_elf64 env buf) \<and>
     unat (e_phoff abi eh) + unat (e_phnum abi eh) * phdr_size abi \<le> length buf \<and>
     list_all (seg_ok env abi buf) (phdrs abi buf eh) \<and> sections_ok abi buf eh)"

lemma read_elf_eq:
  assumes "elf_ok env abi buf" "abi = file_abi env buf"
  shows "read_elf env (File buf) st = Inr (recorded env abi buf (phdrs abi buf (take (ehdr_size abi) buf))
    (st\<lparr>entry := e_entry abi (take (ehdr_size abi) buf)\<rparr>))"
proof -
  let ?eh = "take (ehdr_size abi) buf"
  have ok: "small_file abi buf" "sections_ok abi buf ?eh"
    "unat (e_phoff abi ?eh) + unat (e_phnum abi ?eh) * phdr_size abi \<le> length buf"
    "\<forall>ph \<in> set (phdrs abi buf ?eh). seg_ok env abi buf ph" "ehdr_size abi \<le> length buf"
    using assms(1) by (simp_all add: elf_ok_def Let_def list_all_iff)
  obtain syms where "load_sections abi buf ?eh = Inr syms" using load_sections_ok [OF ok(1,2)] by blast
  then have "load_elf env abi buf st = Inr (recorded env abi buf (phdrs abi buf ?eh) (st\<lparr>entry := e_entry abi ?eh\<rparr>))"
    using ok fits_table [OF ok(1,3)] load_segments_ok [OF ok(1,4,3)]
    by (simp add: load_elf_def struct_at_def Let_def)
  then show ?thesis using assms by (simp add: read_elf_def elf_ok_def file_abi_def Let_def split: if_splits)
qed

section \<open>Handing out the segments\<close>

text \<open>The sections that a caller of \<open>get_section\<close> sees in up to \<open>n\<close> calls, until it returns 0.\<close>

fun handed :: "nat \<Rightarrow> elf \<Rightarrow> (u64 \<times> u64) list \<times> elf" where
  "handed 0 st = ([], st)"
| "handed (Suc n) st =
     (let ((r, x), st') = get_section st in
      case x of None \<Rightarrow> ([], st') | Some sec \<Rightarrow> (sec # fst (handed n st'), snd (handed n st')))"

lemma handed_eq:
  "section_index st \<le> length (sections st) \<Longrightarrow> length (sections st) \<le> section_index st + n \<Longrightarrow>
   handed n st = (drop (section_index st) (sections st), st\<lparr>section_index := length (sections st)\<rparr>)"
proof (induction n arbitrary: st)
  case (Suc n)
  then show ?case
    by (cases "section_index st < length (sections st)") (simp_all add: get_section_def Cons_nth_drop_Suc)
qed simp

lemma copy_section_eq:
  "i + length ds \<le> length buf \<Longrightarrow> copy_section ds i buf = Inr (take i buf @ ds @ drop (i + length ds) buf)"
proof (induction ds arbitrary: i buf)
  case (Cons d ds)
  then show ?case by (simp add: take_Suc_conv_app_nth upd_conv_take_nth_drop add.commute)
qed simp

definition elf_start :: elf where
  "elf_start = \<lparr>sections = [], symbols = Map.empty, mems = Map.empty, entry = 0, section_index = 0\<rparr>"

text \<open>
  Claim C14: on every well-formed file whose segments have different load addresses \<open>read_elf\<close>
  returns, repeated calls of \<open>get_section\<close> hand out the loadable segments in the order of the file,
  each once, and end, and \<open>read_section\<close> at each of these addresses puts the bytes of that segment
  at the start of the caller's buffer. The rest of the buffer, the part of the segment beyond the file
  size, is left as it was, and the global symbol table stays empty.
\<close>

theorem elf_delivered:
  assumes "elf_ok env abi buf" and "abi = file_abi env buf"
    and "phs = filter (loadable env abi) (phdrs abi buf (take (ehdr_size abi) buf))"
    and "distinct (map (p_paddr abi) phs)"
  shows "\<exists>st. read_elf env (File buf) elf_start = Inr st \<and> symbols st = Map.empty \<and>
    fst (handed (Suc (length phs)) st) = map (\<lambda>ph. (p_paddr abi ph, p_memsz abi ph)) phs \<and>
    get_section (snd (handed (Suc (length phs)) st)) = ((0, None), snd (handed (Suc (length phs)) st)) \<and>
    (\<forall>ph \<in> set phs. \<forall>b. unat (p_filesz abi ph) \<le> length b \<longrightarrow>
       read_section (p_paddr abi ph) b st =
         Inr (take (unat (p_filesz abi ph)) (drop (unat (p_offset abi ph)) buf) @ drop (unat (p_filesz abi ph)) b))"
proof -
  let ?eh = "take (ehdr_size abi) buf"
  define st where "st = recorded env abi buf (phdrs abi buf ?eh) (elf_start\<lparr>entry := e_entry abi ?eh\<rparr>)"
  have st: "sections st = seg_sections abi phs" "mems st = seg_mems abi buf phs" "section_index st = 0"
    "symbols st = Map.empty"
    by (simp_all add: st_def recorded_def assms(3) elf_start_def Let_def)
  have hand: "handed (Suc (length phs)) st = (seg_sections abi phs, st\<lparr>section_index := length (sections st)\<rparr>)"
    by (subst handed_eq) (simp_all add: st seg_sections_def)
  have read: "read_section (p_paddr abi ph) b st =
      Inr (take (unat (p_filesz abi ph)) (drop (unat (p_offset abi ph)) buf) @ drop (unat (p_filesz abi ph)) b)"
    if "ph \<in> set phs" "unat (p_filesz abi ph) \<le> length b" for ph b
  proof -
    have "length (seg_bytes abi buf ph) = unat (p_filesz abi ph)"
      using that(1) assms(1) unfolding assms(3)
      by (auto simp: seg_bytes_def elf_ok_def Let_def list_all_iff seg_ok_def loadable_def)
    moreover have "mems st (p_paddr abi ph) = Some (seg_bytes abi buf ph)"
      unfolding st(2) seg_mems_def using that(1) assms(4) by (intro map_of_is_SomeI) (auto simp: comp_def)
    ultimately show ?thesis using that(2) copy_section_eq [of 0 "seg_bytes abi buf ph" b]
      by (simp add: read_section_def) (simp add: seg_bytes_def)
  qed
  show ?thesis
    using read_elf_eq [OF assms(1,2), of elf_start] st(4) hand read
    by (simp add: st_def [symmetric]) (simp add: get_section_def seg_sections_def)
qed

text \<open>
  The layouts of the ELF specification, and a file with one segment: three bytes of contents, four
  bytes in memory.
\<close>

definition field :: "nat \<Rightarrow> nat \<Rightarrow> bytes \<Rightarrow> 'a::len word" where
  "field off n b = le_word (take n (drop off b))"

definition elf64 :: elf_abi where
  "elf64 = \<lparr>off_bits = 64, ehdr_size = 64, phdr_size = 56, shdr_size = 64, sym_size = 24,
     e_entry = field 24 8, e_phoff = field 32 8, e_shoff = field 40 8, e_phnum = field 56 2,
     e_shnum = field 60 2, e_shstrndx = field 62 2,
     p_type = field 0 4, p_offset = field 8 8, p_paddr = field 24 8, p_filesz = field 32 8, p_memsz = field 40 8,
     sh_name = field 0 4, sh_type = field 4 4, sh_offset = field 24 8, sh_size = field 32 8,
     st_name = field 0 4, st_value = field 8 8\<rparr>"

definition elf32 :: elf_abi where
  "elf32 = \<lparr>off_bits = 32, ehdr_size = 52, phdr_size = 32, shdr_size = 40, sym_size = 16,
     e_entry = field 24 4, e_phoff = field 28 4, e_shoff = field 32 4, e_phnum = field 44 2,
     e_shnum = field 48 2, e_shstrndx = field 50 2,
     p_type = field 0 4, p_offset = field 4 4, p_paddr = field 12 4, p_filesz = field 16 4, p_memsz = field 20 4,
     sh_name = field 0 4, sh_type = field 4 4, sh_offset = field 16 4, sh_size = field 20 4,
     st_name = field 0 4, st_value = field 4 4\<rparr>"

definition elf_class :: "u8 \<Rightarrow> bytes \<Rightarrow> bool" where
  "elf_class c b \<longleftrightarrow> take 5 b = [0x7f, 0x45, 0x4c, 0x46, c]"

definition demo_env :: elf_env where
  "demo_env = \<lparr>abi32 = elf32, abi64 = elf64, is_elf32 = elf_class 1, is_elf64 = elf_class 2,
     PT_LOAD = 1, can_alloc = (\<lambda>n. n < 2 ^ 40)\<rparr>"

definition demo_elf :: bytes where
  "demo_elf =
    [0x7f, 0x45, 0x4c, 0x46, 2, 0, 0, 0, 0, 0, 0, 0, 0, 0, 0, 0, 0, 0, 0, 0, 0, 0, 0, 0,
     0, 0, 0, 0x80, 0, 0, 0, 0, 64, 0, 0, 0, 0, 0, 0, 0, 120, 0, 0, 0, 0, 0, 0, 0,
     0, 0, 0, 0, 0, 0, 0, 0, 1, 0, 0, 0, 1, 0, 0, 0, 1, 0, 0, 0, 0, 0, 0, 0,
     184, 0, 0, 0, 0, 0, 0, 0, 0, 0, 0, 0, 0, 0, 0, 0, 0, 0, 0, 0x80, 0, 0, 0, 0,
     3, 0, 0, 0, 0, 0, 0, 0, 4, 0, 0, 0, 0, 0, 0, 0, 0, 0, 0, 0, 0, 0, 0, 0,
     0, 0, 0, 0, 3, 0, 0, 0, 0, 0, 0, 0, 0, 0, 0, 0, 0, 0, 0, 0, 0, 0, 0, 0,
     187, 0, 0, 0, 0, 0, 0, 0, 1, 0, 0, 0, 0, 0, 0, 0, 0, 0, 0, 0, 0, 0, 0, 0,
     0, 0, 0, 0, 0, 0, 0, 0, 0, 0, 0, 0, 0, 0, 0, 0, 1, 2, 3, 0]"

lemma demo_length: "length demo_elf = 188"
  by (simp add: demo_elf_def)

lemmas demo_defs = field_def elf64_def demo_env_def elf_class_def demo_elf_def

lemma demo_header:
  "e_phoff elf64 (take 64 demo_elf) = 64" "e_phnum elf64 (take 64 demo_elf) = 1"
  "e_shoff elf64 (take 64 demo_elf) = 120" "e_shnum elf64 (take 64 demo_elf) = 1"
  "e_shstrndx elf64 (take 64 demo_elf) = 0"
  by (simp_all add: demo_defs)

lemma demo_phdr: "phdrs elf64 demo_elf (take 64 demo_elf) = [take 56 (drop 64 demo_elf)]"
  "p_type elf64 (take 56 (drop 64 demo_elf)) = 1" "p_offset elf64 (take 56 (drop 64 demo_elf)) = 184"
  "p_paddr elf64 (take 56 (drop 64 demo_elf)) = 0x80000000" "p_filesz elf64 (take 56 (drop 64 demo_elf)) = 3"
  "p_memsz elf64 (take 56 (drop 64 demo_elf)) = 4"
proof -
  have size: "phdr_size elf64 = 56" by (simp add: elf64_def)
  show "phdrs elf64 demo_elf (take 64 demo_elf) = [take 56 (drop 64 demo_elf)]"
    by (simp add: phdrs_def demo_header size)
qed (simp_all add: demo_defs)

lemma demo_shdr: "shdrs elf64 demo_elf (take 64 demo_elf) = [take 64 (drop 120 demo_elf)]"
  "sh_name elf64 (take 64 (drop 120 demo_elf)) = 0" "sh_type elf64 (take 64 (drop 120 demo_elf)) = 3"
  "sh_offset elf64 (take 64 (drop 120 demo_elf)) = 187" "sh_size elf64 (take 64 (drop 120 demo_elf)) = 1"
proof -
  have size: "shdr_size elf64 = 64" by (simp add: elf64_def)
  show "shdrs elf64 demo_elf (take 64 demo_elf) = [take 64 (drop 120 demo_elf)]"
    by (simp add: shdrs_def demo_header size)
qed (simp_all add: demo_defs)

lemma demo_sizes: "ehdr_size elf64 = 64" "phdr_size elf64 = 56" "shdr_size elf64 = 64" "off_bits elf64 = 64"
  by (simp_all add: elf64_def)

lemma demo_bytes: "demo_elf ! 187 = 0" "take 5 demo_elf = [0x7f, 0x45, 0x4c, 0x46, 2]" "drop 184 demo_elf = [1, 2, 3, 0]"
  by (simp_all add: demo_elf_def)

lemma demo_sections_ok: "sections_ok elf64 demo_elf (take 64 demo_elf)"
proof -
  have names: "names_ok elf64 demo_elf (shdrs elf64 demo_elf (take 64 demo_elf)) (take 64 (drop 120 demo_elf))"
    by (simp add: names_ok_def table_ok_def demo_shdr demo_length demo_bytes)
  have "find_tables elf64 demo_elf (take 64 demo_elf) (take 64 (drop 120 demo_elf)) 0 (0, 0) = Inr (0, 0)"
    using find_tables_ok [OF names, of 0 0 0] by (simp add: demo_header demo_sizes demo_length)
  then show ?thesis
    using names by (simp add: sections_ok_def demo_header demo_shdr(1) demo_sizes demo_length)
qed

lemma demo_elf_ok: "elf_ok demo_env elf64 demo_elf"
  using demo_sections_ok
  by (simp add: elf_ok_def Let_def demo_sizes demo_header demo_phdr demo_length small_file_def seg_ok_def demo_env_def elf_class_def demo_bytes)

theorem elf_delivered_witness:
  "\<exists>st. read_elf demo_env (File demo_elf) elf_start = Inr st \<and> fst (handed 2 st) = [(0x80000000, 4)] \<and>
     read_section 0x80000000 [9, 9, 9, 9] st = Inr [1, 2, 3, 9]"
proof -
  let ?ph = "take 56 (drop 64 demo_elf)"
  have abi: "elf64 = file_abi demo_env demo_elf" by (simp add: file_abi_def demo_env_def elf_class_def demo_bytes)
  have phs: "[?ph] = filter (loadable demo_env elf64) (phdrs elf64 demo_elf (take (ehdr_size elf64) demo_elf))"
    by (simp add: demo_sizes demo_phdr(1) loadable_def demo_phdr(2-)) (simp add: demo_env_def)
  have "distinct (map (p_paddr elf64) [?ph])" by simp
  from elf_delivered [OF demo_elf_ok abi phs this] obtain st where st: "read_elf demo_env (File demo_elf) elf_start = Inr st"
    "fst (handed (Suc (length [?ph])) st) = map (\<lambda>ph. (p_paddr elf64 ph, p_memsz elf64 ph)) [?ph]"
    "\<forall>ph \<in> set [?ph]. \<forall>b. unat (p_filesz elf64 ph) \<le> length b \<longrightarrow> read_section (p_paddr elf64 ph) b st =
       Inr (take (unat (p_filesz elf64 ph)) (drop (unat (p_offset elf64 ph)) demo_elf) @ drop (unat (p_filesz elf64 ph)) b)"
    by blast
  have "read_section 0x80000000 [9, 9, 9, 9] st = Inr [1, 2, 3, 9]"
    using st(3) [rule_format, of ?ph "[9, 9, 9, 9]"] by (simp add: demo_phdr demo_bytes)
  then show ?thesis using st(1,2) by (auto simp: demo_phdr numeral_2_eq_2)
qed

section \<open>The unchecked sum\<close>

text \<open>
  Claim C37: in a 32-bit ELF file the bounds check of a segment is made on a sum that wraps around
  at \<open>2 ^ 32\<close>. A segment that begins behind the end of the file passes the assertion when offset and
  size wrap around to a small number, and the loader then reads outside the mapped file.
\<close>

theorem elf32_sum_unchecked:
  assumes "off_bits abi = 32" and "loadable env abi ph" and "length buf < 2 ^ 32"
    and "length buf \<le> unat (p_offset abi ph)" and "unat (p_offset abi ph) < 2 ^ 32" "unat (p_filesz abi ph) < 2 ^ 32"
    and "2 ^ 32 \<le> unat (p_offset abi ph) + unat (p_filesz abi ph)"
    and "unat (p_offset abi ph) + unat (p_filesz abi ph) \<le> 2 ^ 32 + length buf"
  shows "fits buf (off_add abi (p_offset abi ph) (p_filesz abi ph)) \<and> load_segment env abi buf ph st = Inl Wild"
proof -
  let ?s = "unat (p_offset abi ph) + unat (p_filesz abi ph)"
  have "unat (p_offset abi ph + p_filesz abi ph) = ?s" using assms(5,6) by (simp add: unat_word_ariths)
  moreover have "?s mod 2 ^ 32 = ?s - 2 ^ 32" using assms(5-7) by (simp add: le_mod_geq)
  ultimately have "unat (off_add abi (p_offset abi ph) (p_filesz abi ph)) = ?s - 2 ^ 32"
    by (simp only: off_add_def assms(1) unsigned_take_bit_eq) (simp add: take_bit_eq_mod)
  then have fits: "fits buf (off_add abi (p_offset abi ph) (p_filesz abi ph))"
    using assms(3,8) by (simp add: fits_def word_le_nat_alt unat_of_nat)
  have "0 < unat (p_filesz abi ph)" using assms(2) by (simp add: loadable_def unat_gt_0)
  then have "write_bytes 0 (unat (p_filesz abi ph)) (drop (unat (p_offset abi ph)) buf) [] = Inl Wild"
    using assms(4) by (subst write_bytes.simps) simp
  then show ?thesis using fits assms(2) by (simp add: load_segment_def elf_write_def loadable_def Let_def)
qed

definition demo_phdr32 :: bytes where
  "demo_phdr32 = [1, 0, 0, 0, 0xf0, 0xff, 0xff, 0xff, 0, 0, 0, 0, 0, 0, 0, 0x80, 0x20, 0, 0, 0, 0x20, 0, 0, 0,
     0, 0, 0, 0, 0, 0, 0, 0]"

theorem elf32_sum_unchecked_witness:
  "fits (replicate 100 0) (off_add elf32 0xfffffff0 0x20) \<and>
   load_segment demo_env elf32 (replicate 100 0) demo_phdr32 elf_start = Inl Wild"
proof -
  have ph: "p_offset elf32 demo_phdr32 = 0xfffffff0" "p_filesz elf32 demo_phdr32 = 0x20"
    by (simp_all add: elf32_def field_def demo_phdr32_def)
  have "loadable demo_env elf32 demo_phdr32"
    by (simp add: loadable_def demo_env_def elf32_def field_def demo_phdr32_def)
  moreover have "off_bits elf32 = 32" by (simp add: elf32_def)
  ultimately show ?thesis
    using elf32_sum_unchecked [of elf32 demo_env demo_phdr32 "replicate 100 0" elf_start] by (simp add: ph)
qed

end
