(* ===== verification/Msim_Args.thy ===== *)
theory Msim_Args
  imports Boot_Prelude
begin

text \<open>
  \<open>corev_apu/tb/dpi/msim_helper.cc\<close>: \<open>sanitize_args\<close> picks the arguments for the host interface from
  the command line of the simulator. It leaves out what stands between \<open>+permissive\<close> and
  \<open>+permissive-off\<close> and removes two leading plus signs, in place, in the simulator's own array. Its only caller is \<open>debug_tick\<close> in \<open>SimDTM.cc\<close>.

  An argument is a buffer of characters with a terminating NUL. \<open>None\<close> stands for a read or write
  outside the buffer and for a loop that does not end. The answer of \<open>vpi_get_vlog_info\<close> is a
  parameter: \<open>None\<close> if the call fails, otherwise the array \<open>argv\<close>.
\<close>

section \<open>Model\<close>

abbreviation NUL :: char where "NUL \<equiv> CHR 0x00"

definition cstr :: "string \<Rightarrow> string" where
  "cstr a = a @ [NUL]"

definition strlen :: "string \<Rightarrow> nat" where
  "strlen buf = length (takeWhile (\<lambda>c. c \<noteq> NUL) buf)"

definition str_of :: "string \<Rightarrow> string" where
  "str_of buf = takeWhile (\<lambda>c. c \<noteq> NUL) buf"

text \<open>
  The inner loop. \<open>strlen\<close> is computed again in every turn; it is unsigned, so \<open>strlen - 1\<close> would be
  the largest number if it were 0.
\<close>

partial_function (option) shift_loop :: "nat \<Rightarrow> string \<Rightarrow> string option" where
  "shift_loop j buf =
     (if strlen buf = 0 \<or> j < strlen buf - 1 then
        (if j + 2 < length buf then shift_loop (j + 1) (buf[j := buf ! (j + 2)]) else None)
      else Some buf)"

definition strip_plus :: "string \<Rightarrow> string option" where
  "strip_plus buf =
     (if buf ! 0 = CHR ''+'' \<and> buf ! 1 = CHR ''+'' \<and> strlen buf > 3 then shift_loop 0 buf else Some buf)"

text \<open>One argument: the flag \<open>permissive_on\<close>, the arguments collected and the buffer afterwards.\<close>

definition sanitize_arg :: "string \<Rightarrow> bool \<times> string list \<Rightarrow> ((bool \<times> string list) \<times> string) option" where
  "sanitize_arg buf = (\<lambda>(permissive_on, htif_args). do {
     let permissive_on = permissive_on \<or> str_of buf = ''+permissive'';
     buf \<leftarrow> strip_plus buf;
     let htif_args = (if permissive_on then htif_args else htif_args @ [str_of buf]);
     Some ((permissive_on \<and> str_of buf \<noteq> ''+permissive-off'', htif_args), buf)
   })"

fun sanitize_loop :: "string list \<Rightarrow> bool \<times> string list \<Rightarrow> (string list \<times> string list) option" where
  "sanitize_loop [] st = Some (snd st, [])"
| "sanitize_loop (buf # bufs) st = do {
     (st, buf) \<leftarrow> sanitize_arg buf st;
     (res, bufs) \<leftarrow> sanitize_loop bufs st;
     Some (res, buf # bufs)
   }"

text \<open>The result: \<open>abort\<close>, or the arguments and \<open>argv\<close> as it is left. The first argument is skipped.\<close>

datatype sanitized = Abort | Args "string list" "string list"

definition sanitize_args :: "string list option \<Rightarrow> sanitized option" where
  "sanitize_args info =
     (case info of
        None \<Rightarrow> Some Abort
      | Some argv \<Rightarrow> do {
          (args, argv') \<leftarrow> sanitize_loop (tl argv) (False, []);
          Some (Args args (take 1 argv @ argv'))
        })"

section \<open>The debug transport\<close>

text \<open>
  \<open>SimDTM.cc\<close> creates the host interface at the first tick and passes requests and responses between
  it and the debug module. Its class \<open>dtm_t\<close> belongs to another package and is a parameter.
  A tick is \<open>Inl argv\<close> if \<open>sanitize_args\<close> aborts.
\<close>

record 'h dtm =
  dtm_new :: "string list \<Rightarrow> 'h"
  dtm_tick :: "u8 \<Rightarrow> u8 \<Rightarrow> u32 \<times> u32 \<Rightarrow> 'h \<Rightarrow> 'h"
  resp_ready :: "'h \<Rightarrow> u8"
  req_valid :: "'h \<Rightarrow> u8"
  req_bits :: "'h \<Rightarrow> u32 \<times> u32 \<times> u32"
  dtm_done :: "'h \<Rightarrow> bool"
  dtm_exit_code :: "'h \<Rightarrow> int"

record dtm_out =
  debug_resp_ready :: u8
  debug_req_valid :: u8
  debug_req_bits :: "u32 \<times> u32 \<times> u32"
  debug_result :: int

definition dtm_start :: "'h dtm \<Rightarrow> 'h option \<Rightarrow> string list option \<Rightarrow> ('h \<times> string list option) option option" where
  "dtm_start D dtm info =
     (case dtm of
        Some h \<Rightarrow> Some (Some (h, info))
      | None \<Rightarrow> map_option (\<lambda>r. case r of
            Abort \<Rightarrow> None
          | Args htif_args argv \<Rightarrow> Some (dtm_new D (''htif'' # htif_args), Some argv)) (sanitize_args info))"

definition debug_tick ::
    "'h dtm \<Rightarrow> u8 \<Rightarrow> u8 \<Rightarrow> u32 \<times> u32 \<Rightarrow> 'h option \<times> string list option \<Rightarrow>
     (string list option + dtm_out \<times> 'h option \<times> string list option) option" where
  "debug_tick D debug_req_ready debug_resp_valid resp_bits = (\<lambda>(dtm, info).
     map_option (\<lambda>started. case started of
         None \<Rightarrow> Inl info
       | Some (h, info) \<Rightarrow>
           (let h = dtm_tick D debug_req_ready debug_resp_valid resp_bits h in
            Inr (\<lparr>debug_resp_ready = resp_ready D h, debug_req_valid = req_valid D h,
                  debug_req_bits = req_bits D h,
                  debug_result = (if dtm_done D h then (dtm_exit_code D h * 2) OR 1 else 0)\<rparr>,
                 Some h, info)))
       (dtm_start D dtm info))"

section \<open>Specification\<close>

definition no_nul :: "string \<Rightarrow> bool" where
  "no_nul a \<longleftrightarrow> NUL \<notin> set a"

definition strip :: "string \<Rightarrow> string" where
  "strip a = (if take 2 a = ''++'' \<and> length a > 3 then drop 2 a else a)"

lemma str_of_cstr [simp]: "no_nul a \<Longrightarrow> str_of (cstr a @ b) = a" "no_nul a \<Longrightarrow> str_of (cstr a) = a"
  by (auto simp: str_of_def cstr_def no_nul_def takeWhile_append)

lemma strlen_str_of: "strlen buf = length (str_of buf)"
  by (simp add: strlen_def str_of_def)

lemma shift_once:
  assumes "j + 2 < length c"
  shows "(take j (drop 2 c) @ drop j c)[j := (take j (drop 2 c) @ drop j c) ! (j + 2)] = take (j + 1) (drop 2 c) @ drop (j + 1) c"
proof -
  have len: "length (take j (drop 2 c)) = j" using assms by simp
  have "drop j c = c ! j # drop (j + 1) c" using assms by (simp add: Cons_nth_drop_Suc)
  moreover have "take (j + 1) (drop 2 c) = take j (drop 2 c) @ [c ! (j + 2)]"
    using assms by (simp add: take_Suc_conv_app_nth)
  moreover have "(take j (drop 2 c) @ drop j c) ! (j + 2) = c ! (j + 2)"
    using assms len by (simp add: nth_append)
  ultimately show ?thesis using len by (simp add: list_update_append)
qed

text \<open>
  In the middle of the loop the first \<open>j\<close> characters are already shifted and the others are those of
  the original, so the string keeps its length until the NUL is copied.
\<close>

definition shifted :: "nat \<Rightarrow> string \<Rightarrow> string" where
  "shifted j a = take j (drop 2 (cstr a)) @ drop j (cstr a)"

lemma strlen_shifted:
  assumes "no_nul a" "j + 2 \<le> length a"
  shows "strlen (shifted j a) = length a"
proof -
  have "no_nul (take j (drop 2 a) @ drop j a)"
    using assms(1) by (auto simp: no_nul_def dest: in_set_takeD in_set_dropD)
  moreover have "shifted j a = cstr (take j (drop 2 a) @ drop j a)" using assms(2) by (simp add: shifted_def cstr_def)
  ultimately show ?thesis using assms(2) by (simp add: strlen_str_of)
qed

lemma shift_step:
  assumes "no_nul a" "j + 2 \<le> length a"
  shows "shift_loop j (shifted j a) = shift_loop (j + 1) (shifted (j + 1) a)"
proof -
  have "j + 2 < length (cstr a)" "length (shifted j a) = length (cstr a)"
    using assms(2) by (simp_all add: cstr_def shifted_def)
  moreover have "j < length a - Suc 0" using assms(2) by simp
  ultimately show ?thesis
    using shift_once [of j "cstr a"] strlen_shifted [OF assms]
    by (subst shift_loop.simps) (simp add: shifted_def)
qed

lemma shifted_all:
  assumes "2 \<le> length a"
  shows "shifted (length a - 1) a = cstr (drop 2 a) @ drop (length a - 1) (cstr a)"
proof -
  have "length a - 1 = length (cstr (drop 2 a))" using assms by (simp add: cstr_def)
  moreover have "drop 2 (cstr a) = cstr (drop 2 a)" using assms by (simp add: cstr_def)
  ultimately show ?thesis by (simp add: shifted_def)
qed

lemma shift_loop_from:
  assumes "no_nul a" "3 < length a"
  shows "j \<le> length a - 1 \<Longrightarrow> shift_loop j (shifted j a) = Some (shifted (length a - 1) a)"
proof (induction "length a - 1 - j" arbitrary: j)
  case 0
  have "no_nul (drop 2 a)" using assms(1) by (auto simp: no_nul_def dest: in_set_dropD)
  then have "strlen (shifted (length a - 1) a) = length a - 2"
    using assms(2) by (subst shifted_all) (simp_all add: strlen_str_of)
  moreover have "j = length a - 1" using 0 by simp
  moreover have "\<not> length a - Suc 0 < length a - 3" using assms(2) by arith
  ultimately show ?case using assms(2) by (subst shift_loop.simps) simp
next
  case (Suc n)
  then show ?case using shift_step [OF assms(1), of j] by simp
qed

text \<open>The string in the buffer loses its plus signs; what lies behind the NUL is not looked at.\<close>

lemma strip_plus_ok:
  assumes "no_nul a"
  shows "\<exists>rest. strip_plus (cstr a) = Some (cstr (strip a) @ rest)"
proof (cases "take 2 a = ''++'' \<and> length a > 3")
  case True
  then obtain t where "a = ''++'' @ t" by (metis append_take_drop_id)
  then have "cstr a ! 0 = CHR ''+''" "cstr a ! 1 = CHR ''+''" by (simp_all add: cstr_def)
  moreover have "strlen (cstr a) > 3" using assms True by (simp add: strlen_str_of)
  ultimately have "strip_plus (cstr a) = Some (shifted (length a - 1) a)"
    using shift_loop_from [OF assms, of 0] True by (simp add: strip_plus_def shifted_def)
  then show ?thesis using shifted_all [of a] True by (simp add: strip_def)
next
  case False
  then have "\<not> (cstr a ! 0 = CHR ''+'' \<and> cstr a ! 1 = CHR ''+'' \<and> strlen (cstr a) > 3)"
    using str_of_cstr(2) [OF assms] by (cases a; cases "tl a") (auto simp: cstr_def strlen_str_of)
  then show ?thesis using False by (auto simp: strip_plus_def strip_def)
qed

lemma strip_no_nul: "no_nul a \<Longrightarrow> no_nul (strip a)"
  by (auto simp: strip_def no_nul_def dest: in_set_dropD)

lemma sanitize_arg_ok:
  assumes "no_nul a"
  shows "\<exists>buf. str_of buf = strip a \<and> sanitize_arg (cstr a) (p, args) =
    Some ((((p \<or> a = ''+permissive'') \<and> strip a \<noteq> ''+permissive-off''),
      (if p \<or> a = ''+permissive'' then args else args @ [strip a])), buf)"
  using strip_plus_ok [OF assms] assms strip_no_nul [OF assms] by (auto simp: sanitize_arg_def Let_def)

text \<open>The arguments that the loop collects from here on, given the flag.\<close>

fun kept :: "bool \<Rightarrow> string list \<Rightarrow> string list" where
  "kept p [] = []"
| "kept p (a # as) =
     (if p \<or> a = ''+permissive'' then kept (strip a \<noteq> ''+permissive-off'') as else strip a # kept False as)"

lemma sanitize_loop_ok:
  "list_all no_nul as \<Longrightarrow> \<exists>bufs. map str_of bufs = map strip as \<and>
     sanitize_loop (map cstr as) (p, args) = Some (args @ kept p as, bufs)"
proof (induction as arbitrary: p args)
  case (Cons a as)
  then obtain buf where buf: "str_of buf = strip a" "sanitize_arg (cstr a) (p, args) =
      Some ((((p \<or> a = ''+permissive'') \<and> strip a \<noteq> ''+permissive-off''),
        (if p \<or> a = ''+permissive'' then args else args @ [strip a])), buf)"
    using sanitize_arg_ok [of a p args] by auto
  let ?p = "(p \<or> a = ''+permissive'') \<and> strip a \<noteq> ''+permissive-off''"
    and ?args = "if p \<or> a = ''+permissive'' then args else args @ [strip a]"
  obtain bufs where "map str_of bufs = map strip as"
    "sanitize_loop (map cstr as) (?p, ?args) = Some (?args @ kept ?p as, bufs)"
    using Cons.IH [of ?p ?args] Cons.prems by auto
  then have "map str_of (buf # bufs) = map strip (a # as)"
    "sanitize_loop (map cstr (a # as)) (p, args) = Some (args @ kept p (a # as), buf # bufs)"
    using buf by auto
  then show ?case by blast
qed simp

text \<open>
  Which arguments are between the marks: some \<open>+permissive\<close> stands at \<open>i\<close> or before it, with no \<open>+permissive-off\<close>
  from there to \<open>i\<close>. The closing mark is looked for after the plus signs are removed. \<open>p\<close> says
  that a block is open at the beginning.
\<close>

definition in_block :: "bool \<Rightarrow> string list \<Rightarrow> nat \<Rightarrow> bool" where
  "in_block p as i \<longleftrightarrow> p \<and> (\<forall>k<i. strip (as ! k) \<noteq> ''+permissive-off'') \<or>
     (\<exists>j\<le>i. as ! j = ''+permissive'' \<and> (\<forall>k. j \<le> k \<and> k < i \<longrightarrow> strip (as ! k) \<noteq> ''+permissive-off''))"

lemma in_block_0: "in_block p (a # as) 0 \<longleftrightarrow> p \<or> a = ''+permissive''"
  by (simp add: in_block_def)

lemma in_block_Suc:
  "in_block p (a # as) (Suc i) \<longleftrightarrow> in_block ((p \<or> a = ''+permissive'') \<and> strip a \<noteq> ''+permissive-off'') as i"
proof -
  have "(\<exists>j\<le>Suc i. (a # as) ! j = ''+permissive'' \<and> (\<forall>k. j \<le> k \<and> k < Suc i \<longrightarrow> strip ((a # as) ! k) \<noteq> ''+permissive-off'')) \<longleftrightarrow>
      a = ''+permissive'' \<and> (\<forall>k<Suc i. strip ((a # as) ! k) \<noteq> ''+permissive-off'') \<or>
      (\<exists>j\<le>i. as ! j = ''+permissive'' \<and> (\<forall>k. j \<le> k \<and> k < i \<longrightarrow> strip (as ! k) \<noteq> ''+permissive-off''))"
    (is "?L \<longleftrightarrow> ?Z \<or> ?S")
  proof
    assume ?L
    then obtain j where j: "j \<le> Suc i" "(a # as) ! j = ''+permissive''"
      "\<And>k. j \<le> k \<Longrightarrow> k < Suc i \<Longrightarrow> strip ((a # as) ! k) \<noteq> ''+permissive-off''" by blast
    show "?Z \<or> ?S"
    proof (cases j)
      case (Suc j')
      then have "as ! j' = ''+permissive''" "\<And>k. j' \<le> k \<Longrightarrow> k < i \<Longrightarrow> strip (as ! k) \<noteq> ''+permissive-off''"
        using j(2) j(3) [of "Suc k" for k] by auto
      then show ?thesis using j(1) Suc by auto
    qed (use j in simp)
  next
    assume "?Z \<or> ?S"
    then show ?L
    proof
      assume ?S
      then obtain j where j: "j \<le> i" "as ! j = ''+permissive''" "\<And>k. j \<le> k \<Longrightarrow> k < i \<Longrightarrow> strip (as ! k) \<noteq> ''+permissive-off''" by blast
      then have "strip ((a # as) ! k) \<noteq> ''+permissive-off''" if "Suc j \<le> k" "k < Suc i" for k using that by (cases k) auto
      then show ?L using j(1,2) by (intro exI [of _ "Suc j"]) auto
    qed auto
  qed
  then show ?thesis by (auto simp: in_block_def All_less_Suc2)
qed

lemma kept_nths: "kept p as = map strip (nths as {i. \<not> in_block p as i})"
proof (induction as arbitrary: p)
  case (Cons a as)
  show ?case
  proof (cases "p \<or> a = ''+permissive''")
    case True
    then show ?thesis by (simp add: Cons.IH nths_Cons in_block_0 in_block_Suc)
  next
    case False
    then show ?thesis by (simp add: Cons.IH nths_Cons in_block_0 in_block_Suc)
  qed
qed simp

text \<open>Later ticks use the host interface of the first one and leave the arguments alone.\<close>

lemma debug_tick_again:
  "debug_tick D r v x (Some h, info) = Some (Inr (out, h', info')) \<Longrightarrow> h' = Some (dtm_tick D r v x h) \<and> info' = info"
  by (auto simp: debug_tick_def dtm_start_def Let_def)

text \<open>
  Claim C38: if the simulator's command line can be read, \<open>sanitize_args\<close> returns for every command line and stays
  inside the strings. The arguments for the host interface are those that do not lie between \<open>+permissive\<close> and the next
  \<open>+permissive-off\<close> (or the end of the line), in order; a \<open>+permissive-off\<close> outside such a block is
  kept. An argument of more than three characters that begins with two plus signs loses them, in the result and in
  the simulator's own array, where those of the blocks lose them too.
\<close>

theorem sanitize_args_drops_block:
  assumes "list_all no_nul as"
  shows "\<exists>argv. sanitize_args (Some (map cstr (prog # as))) =
      Some (Args (map strip (nths as {i. \<not> in_block False as i})) (cstr prog # argv)) \<and>
    map str_of argv = map strip as"
proof -
  obtain bufs where "map str_of bufs = map strip as"
    "sanitize_loop (map cstr as) (False, []) = Some (kept False as, bufs)"
    using sanitize_loop_ok [OF assms, of False "[]"] by auto
  then show ?thesis by (simp add: sanitize_args_def kept_nths)
qed

theorem sanitize_args_drops_block_witness:
  "\<exists>argv. sanitize_args (Some (map cstr [''vsim'', ''++signature'', ''+permissive'', ''++x'', ''+permissive-off'', ''a.elf''])) =
     Some (Args [''signature'', ''a.elf''] argv)"
proof -
  let ?as = "[''++signature'', ''+permissive'', ''++x'', ''+permissive-off'', ''a.elf'']"
  have "map strip (nths ?as {i. \<not> in_block False ?as i}) = [''signature'', ''a.elf'']"
    unfolding kept_nths [symmetric] by (simp add: strip_def)
  then show ?thesis using sanitize_args_drops_block [of ?as "''vsim''"] by (auto simp: no_nul_def)
qed

end
