(* ===== verification/Getopt.thy ===== *)
theory Getopt
  imports Boot_Prelude
begin

text \<open>
  The library functions that \<open>ariane_tb.cpp\<close> uses to read its command line: \<open>getopt_long\<close> of the GNU C
  library in the mode that a leading minus sign in the option string selects (arguments that are not
  options are returned in order, with code 1), \<open>atoi\<close> and \<open>atoll\<close>.
\<close>

section \<open>getopt_long\<close>

text \<open>
  A long option has a name, a kind of argument (0 none, 1 required, 2 optional) and the code returned
  for it. Of the state of \<open>getopt_long\<close> the model keeps \<open>optind\<close> and what is left of a group of short
  options.
\<close>

type_synonym long_option = "string \<times> nat \<times> int"

record getopt =
  optind :: nat
  nextchar :: string

datatype opt = End | Opt int string

definition QUESTION :: int where "QUESTION = of_char (CHR ''?'')"

text \<open>The letters of the option string, each with whether it requires an argument.\<close>

type_synonym short_option = "char \<times> bool"

fun getopt_short :: "short_option list \<Rightarrow> string list \<Rightarrow> getopt \<Rightarrow> opt \<times> getopt" where
  "getopt_short shorts argv \<lparr>optind = i, nextchar = []\<rparr> = (End, \<lparr>optind = i, nextchar = []\<rparr>)"
| "getopt_short shorts argv \<lparr>optind = i, nextchar = c # cs\<rparr> =
     (let i = (if cs = [] then i + 1 else i) in
      case map_of shorts c of
        None \<Rightarrow> (Opt QUESTION [], \<lparr>optind = i, nextchar = cs\<rparr>)
      | Some False \<Rightarrow> (Opt (of_char c) [], \<lparr>optind = i, nextchar = cs\<rparr>)
      | Some True \<Rightarrow>
          if cs \<noteq> [] then (Opt (of_char c) cs, \<lparr>optind = i + 1, nextchar = []\<rparr>)
          else if i < length argv then (Opt (of_char c) (argv ! i), \<lparr>optind = i + 1, nextchar = []\<rparr>)
          else (Opt QUESTION [], \<lparr>optind = i, nextchar = []\<rparr>))"

text \<open>An exact name, or an abbreviation that stands for only one kind of option.\<close>

definition find_long :: "long_option list \<Rightarrow> string \<Rightarrow> (nat \<times> int) option" where
  "find_long longs name =
     (case map_of longs name of
        Some x \<Rightarrow> Some x
      | None \<Rightarrow>
          (case filter (\<lambda>(n, x). take (length name) n = name) longs of
             [] \<Rightarrow> None
           | (n, x) # rest \<Rightarrow> if list_all (\<lambda>(m, y). y = x) rest then Some x else None))"

definition getopt_word :: "long_option list \<Rightarrow> string list \<Rightarrow> string \<Rightarrow> nat \<Rightarrow> opt \<times> getopt" where
  "getopt_word longs argv word i =
     (let name = takeWhile (\<lambda>c. c \<noteq> CHR ''='') word;
          val = dropWhile (\<lambda>c. c \<noteq> CHR ''='') word;
          st = \<lparr>optind = i + 1, nextchar = []\<rparr> in
      case find_long longs name of
        None \<Rightarrow> (Opt QUESTION [], st)
      | Some (has_arg, code) \<Rightarrow>
          if val \<noteq> [] then (if has_arg = 0 then (Opt QUESTION [], st) else (Opt code (tl val), st))
          else if has_arg = 1 then
            (if i + 1 < length argv then (Opt code (argv ! (i + 1)), st\<lparr>optind := i + 2\<rparr>)
             else (Opt QUESTION [], st))
          else (Opt code [], st))"

definition getopt_long :: "short_option list \<Rightarrow> long_option list \<Rightarrow> string list \<Rightarrow> getopt \<Rightarrow> opt \<times> getopt" where
  "getopt_long shorts longs argv st =
     (if nextchar st \<noteq> [] then getopt_short shorts argv st
      else if length argv \<le> optind st then (End, st)
      else
        (let arg = argv ! optind st in
         if arg = ''--'' then (End, st\<lparr>optind := optind st + 1\<rparr>)
         else if take 2 arg = ''--'' then getopt_word longs argv (drop 2 arg) (optind st)
         else if take 1 arg = ''-'' \<and> length arg > 1 then
           getopt_short shorts argv (st\<lparr>nextchar := drop 1 arg\<rparr>)
         else (Opt 1 arg, st\<lparr>optind := optind st + 1\<rparr>)))"

text \<open>
  Every call that does not end the loop uses up characters of the command line: the words after
  \<open>optind\<close>, or the rest of a group.
\<close>

definition left_over :: "string list \<Rightarrow> getopt \<Rightarrow> nat" where
  "left_over argv st = (\<Sum>a \<leftarrow> drop (optind st + (if nextchar st = [] then 0 else 1)) argv. length a + 1) + length (nextchar st)"

lemma words_left_Suc: "i < length argv \<Longrightarrow>
  (\<Sum>a \<leftarrow> drop i argv. length a + 1) = length (argv ! i) + 1 + (\<Sum>a \<leftarrow> drop (Suc i) argv. length a + (1 :: nat))"
  by (simp add: Cons_nth_drop_Suc [symmetric])

lemma words_left_mono: "i \<le> j \<Longrightarrow> (\<Sum>a \<leftarrow> drop j argv. length a + 1) \<le> (\<Sum>a \<leftarrow> drop i argv. length a + (1 :: nat))"
proof -
  assume "i \<le> j"
  then have "drop j argv = drop (j - i) (drop i argv)" by simp
  then have "drop i argv = take (j - i) (drop i argv) @ drop j argv" by (metis append_take_drop_id)
  then show ?thesis by (metis le_add2 map_append sum_list_append)
qed

lemma getopt_short_progress:
  "nextchar st \<noteq> [] \<Longrightarrow> left_over argv (snd (getopt_short shorts argv st)) < left_over argv st"
proof -
  assume "nextchar st \<noteq> []"
  then obtain i c cs where st: "st = \<lparr>optind = i, nextchar = c # cs\<rparr>" by (cases st) (auto simp: neq_Nil_conv)
  have "(\<Sum>a \<leftarrow> drop (Suc (Suc i)) argv. length a + 1) \<le> (\<Sum>a \<leftarrow> drop (Suc i) argv. length a + (1 :: nat))"
    by (rule words_left_mono) simp
  then show ?thesis
    by (auto simp: st left_over_def Let_def split: option.split bool.split)
qed

lemma getopt_progress:
  assumes "getopt_long shorts longs argv st = (Opt c a, st')"
  shows "left_over argv st' < left_over argv st"
proof -
  have eq: "st' = snd (getopt_long shorts longs argv st)" using assms by simp
  show ?thesis
  proof (cases "nextchar st = []")
    case False
    then show ?thesis using getopt_short_progress [OF False, of argv shorts] by (simp add: eq getopt_long_def)
  next
    case True
    then have i: "optind st < length argv" using assms by (auto simp: getopt_long_def split: if_splits)
    note words = words_left_Suc [OF i] words_left_mono [of "Suc (optind st)" "Suc (Suc (optind st))" argv]
    have group: "take 1 (argv ! optind st) = ''-'' \<Longrightarrow> length (argv ! optind st) > 1 \<Longrightarrow>
        left_over argv (snd (getopt_short shorts argv (st\<lparr>nextchar := drop 1 (argv ! optind st)\<rparr>))) < left_over argv st"
      using getopt_short_progress [of "st\<lparr>nextchar := drop 1 (argv ! optind st)\<rparr>" argv shorts] words(1) True
      by (simp add: left_over_def)
    show ?thesis
      using assms True i words group
      by (auto simp: eq getopt_long_def getopt_word_def left_over_def Let_def split: if_splits option.split prod.split)
  qed
qed

section \<open>Numbers\<close>

text \<open>
  \<open>atoi\<close> and \<open>atoll\<close>: white space, a sign, digits; what follows is ignored. \<open>None\<close> is undefined
  behaviour: the number does not fit the result of \<open>w\<close> bits.
\<close>

definition is_space :: "char \<Rightarrow> bool" where
  "is_space c \<longleftrightarrow> (let n = of_char c :: nat in n = 32 \<or> 9 \<le> n \<and> n \<le> 13)"

definition is_digit :: "char \<Rightarrow> bool" where
  "is_digit c \<longleftrightarrow> (let n = of_char c :: nat in 48 \<le> n \<and> n \<le> 57)"

definition digits_value :: "string \<Rightarrow> int" where
  "digits_value s = foldl (\<lambda>v c. 10 * v + (of_char c - 48)) 0 (takeWhile is_digit s)"

definition ato :: "nat \<Rightarrow> string \<Rightarrow> int option" where
  "ato w s =
     (let s = dropWhile is_space s;
          v = (if take 1 s = ''-'' then - digits_value (drop 1 s)
               else if take 1 s = ''+'' then digits_value (drop 1 s) else digits_value s) in
      if - (2 ^ (w - 1)) \<le> v \<and> v < 2 ^ (w - 1) then Some v else None)"

end
