(* ===== verification/Ariane_Args.thy ===== *)
theory Ariane_Args
  imports Getopt Elf_Loader
begin

text \<open>
  The command line of the Verilator simulation, \<open>corev_apu/tb/ariane_tb.cpp\<close>, from the head of \<open>main\<close> to
  the arguments for the host interface (\<open>htif_argv\<close>). The option table of the host interface belongs
  to \<open>fesvr\<close> and is a parameter, as are the build switches \<open>VM_TRACE\<close> and
  \<open>VM_TRACE_FST\<close>, the file system and the values of
  local variables that the code does not initialise.
\<close>

section \<open>State\<close>

record cfg =
  vm_trace :: bool
  vm_trace_fst :: bool
  htif_options :: "long_option list"
  htif_optind :: int
  can_open :: "string \<Rightarrow> bool"

text \<open>
  The options. \<open>vcdfile\<close> is the name of the open file. \<open>told\<close> is what was written on the
  standard streams, by its format strings; the text of \<open>usage\<close> counts as one message.
\<close>

record opts =
  verbose :: bool
  perf :: bool
  random_seed :: u32
  max_cycles :: u64
  print_cycles :: bool
  rbb_port :: u16
  vcdfile :: "string option"
  fst_fname :: "string option"
  dump_start :: u64
  plusargs_legal :: bool
  told :: "string list"

definition tell :: "string \<Rightarrow> opts \<Rightarrow> opts" where
  "tell s os = os\<lparr>told := told os @ [s]\<rparr>"

definition usage :: "opts \<Rightarrow> opts" where
  "usage os = tell ''Usage: %s [EMULATOR OPTION]... [VERILOG PLUSARG]... [HOST OPTION]... BINARY [TARGET OPTION]...'' os"

definition main_opts :: "bool \<Rightarrow> bool \<Rightarrow> u32 \<Rightarrow> opts" where
  "main_opts junk1 junk2 seed =
     \<lparr>verbose = junk1, perf = junk2, random_seed = seed, max_cycles = - 1, print_cycles = False, rbb_port = 0,
      vcdfile = None, fst_fname = None, dump_start = 0, plusargs_legal = True, told = []\<rparr>"

text \<open>The static arrays; the second has no null pointer at its end.\<close>

definition long_options :: "cfg \<Rightarrow> long_option list" where
  "long_options cfg =
     [(''cycle-count'', 0, of_char (CHR ''c'')), (''help'', 0, of_char (CHR ''h'')),
      (''max-cycles'', 1, of_char (CHR ''m'')), (''seed'', 1, of_char (CHR ''s'')),
      (''rbb-port'', 1, of_char (CHR ''r'')), (''verbose'', 0, of_char (CHR ''V''))] @
     (if vm_trace cfg then
        [(''vcd'', 1, of_char (CHR ''v'')), (''dump-start'', 1, of_char (CHR ''x'')), (''fst'', 1, of_char (CHR ''f''))]
      else []) @ htif_options cfg"

definition short_options :: "cfg \<Rightarrow> short_option list" where
  "short_options cfg =
     [(CHR ''c'', False), (CHR ''h'', False), (CHR ''p'', False), (CHR ''m'', True), (CHR ''s'', True), (CHR ''r'', True)] @
     (if vm_trace cfg then [(CHR ''v'', True), (CHR ''f'', True), (CHR ''V'', False), (CHR ''x'', True)]
      else [(CHR ''V'', False)])"

definition verilog_plusargs :: "string option list" where
  "verilog_plusargs = [Some ''jtag_rbb_enable'', Some ''time_out'', Some ''debug_disable'']"

section \<open>The switch\<close>

text \<open>\<open>while (*plusarg && (legal_verilog_plusarg == 0))\<close>, from an element of the array on.\<close>

fun find_plusarg :: "string \<Rightarrow> string option list \<Rightarrow> bool res" where
  "find_plusarg arg [] = Inl Wild"
| "find_plusarg arg (None # ps) = Inr False"
| "find_plusarg arg (Some p # ps) = (if take (length p) (drop 1 arg) = p then Inr True else find_plusarg arg ps)"

definition find_htif :: "cfg \<Rightarrow> string \<Rightarrow> bool" where
  "find_htif cfg arg = list_ex (\<lambda>(n, x). take (length n) (drop 1 arg) = n) (htif_options cfg)"

text \<open>What a turn of the loop ends with: the next option, the end of the options, or \<open>return\<close>.\<close>

datatype stop = Finished nat | Return int

datatype turn = More | Stop stop

definition number :: "nat \<Rightarrow> string \<Rightarrow> (int \<Rightarrow> opts) \<Rightarrow> (turn \<times> opts) res" where
  "number w s f = (case ato w s of None \<Rightarrow> Inl Wild | Some v \<Rightarrow> Inr (More, f v))"

text \<open>The labels that process an option and leave the switch; \<open>None\<close> for the others.\<close>

definition simple_case :: "cfg \<Rightarrow> int \<Rightarrow> string \<Rightarrow> opts \<Rightarrow> (turn \<times> opts) res option" where
  "simple_case cfg c optarg os =
     (if c = of_char (CHR ''?'') then Some (Inr (Stop (Return 1), usage os))
      else if c = of_char (CHR ''c'') then Some (Inr (More, os\<lparr>print_cycles := True\<rparr>))
      else if c = of_char (CHR ''h'') then Some (Inr (Stop (Return 0), usage os))
      else if c = of_char (CHR ''m'') then Some (number 64 optarg (\<lambda>v. os\<lparr>max_cycles := of_int v\<rparr>))
      else if c = of_char (CHR ''s'') then Some (number 32 optarg (\<lambda>v. os\<lparr>random_seed := of_int v\<rparr>))
      else if c = of_char (CHR ''r'') then Some (number 32 optarg (\<lambda>v. os\<lparr>rbb_port := of_int v\<rparr>))
      else if c = of_char (CHR ''V'') then Some (Inr (More, os\<lparr>verbose := True\<rparr>))
      else if c = of_char (CHR ''p'') then Some (Inr (More, os\<lparr>perf := True\<rparr>))
      else if vm_trace cfg \<and> c = of_char (CHR ''v'') then
        Some (if optarg = ''-'' \<or> can_open cfg optarg then Inr (More, os\<lparr>vcdfile := Some optarg\<rparr>)
              else Inr (Stop (Return 1), tell ''Unable to open %s for VCD write'' os))
      else if vm_trace cfg \<and> c = of_char (CHR ''f'') then Some (Inr (More, os\<lparr>fst_fname := Some optarg\<rparr>))
      else if vm_trace cfg \<and> c = of_char (CHR ''x'') then Some (number 64 optarg (\<lambda>v. os\<lparr>dump_start := of_int v\<rparr>))
      else if c = of_char (CHR ''P'') then Some (Inr (More, os))
      else None)"

text \<open>
  \<open>case 1\<close>, an argument that is not an option: either the loop ends (\<open>Inl\<close>), or the switch is entered
  again with another code, option argument and state.
\<close>

definition plus_case ::
    "cfg \<Rightarrow> string option list \<Rightarrow> string \<Rightarrow> opts \<Rightarrow> (unit + int \<times> string \<times> opts) res" where
  "plus_case cfg tab arg os =
     (if take 1 arg \<noteq> ''+'' then Inr (Inl ())
      else if arg = ''+verbose'' then Inr (Inr (of_char (CHR ''V''), arg, os))
      else if take 12 arg = ''+max-cycles='' then Inr (Inr (of_char (CHR ''m''), drop 12 arg, os))
      else if vm_trace cfg \<and> take 12 arg = ''+dump-start='' then Inr (Inr (of_char (CHR ''x''), drop 12 arg, os))
      else if take 12 arg = ''+cycle-count'' then Inr (Inr (of_char (CHR ''c''), arg, os))
      else if plusargs_legal os then
        and_ok (find_plusarg arg tab) (\<lambda>legal.
          if legal then Inr (Inr (of_char (CHR ''P''), arg, os)) else Inr (Inr (1, arg, os\<lparr>plusargs_legal := False\<rparr>)))
      else if find_htif cfg arg then Inr (Inl ())
      else Inr (Inr (of_char (CHR ''?''), arg, tell ''%s: invalid plus-arg (Verilog or HTIF) %s'' os)))"

text \<open>The whole switch, with its jumps to \<open>retry\<close>. \<open>i\<close> is \<open>optind\<close>.\<close>

fun rounds :: "int \<Rightarrow> opts \<Rightarrow> nat" where
  "rounds c os = (if c = 1 then (if plusargs_legal os then 3 else 2)
     else if c = of_char (CHR ''?'') then 0 else 1)"

lemma plus_case_rounds:
  "plus_case cfg tab arg os = Inr (Inr (c, a, os')) \<Longrightarrow> rounds c os' < rounds 1 os"
  by (auto simp: plus_case_def tell_def and_ok_def split: if_splits sum.splits)

function switch ::
    "cfg \<Rightarrow> string option list \<Rightarrow> nat \<Rightarrow> int \<Rightarrow> string \<Rightarrow> opts \<Rightarrow> (turn \<times> opts) res" where
  "switch cfg tab i c optarg os =
     (case simple_case cfg c optarg os of
        Some r \<Rightarrow> r
      | None \<Rightarrow>
          if c = 1 then
            (case plus_case cfg tab optarg os of
               Inl e \<Rightarrow> Inl e
             | Inr (Inl _) \<Rightarrow> Inr (Stop (Finished (i - 1)), os)
             | Inr (Inr (c, optarg, os)) \<Rightarrow> switch cfg tab i c optarg os)
          else if c \<ge> htif_optind cfg then Inr (Stop (Finished (i - 1)), os)
          else switch cfg tab i (of_char (CHR ''?'')) optarg os)"
  by pat_completeness auto
termination
proof (relation "measure (\<lambda>(cfg, tab, i, c, optarg, os). rounds c os)", goal_cases)
  case 1
  show ?case by simp
next
  case (2 cfg tab i c optarg os x y z u v)
  then show ?case using plus_case_rounds [of cfg tab optarg os] by auto
next
  case (3 cfg tab i c optarg os)
  then show ?case by (auto simp: simple_case_def)
qed

declare switch.simps [simp del]

section \<open>The loop\<close>

function parse ::
    "cfg \<Rightarrow> string option list \<Rightarrow> string list \<Rightarrow> getopt \<Rightarrow> opts \<Rightarrow> (stop \<times> opts) res" where
  "parse cfg tab argv st os =
     (case getopt_long (short_options cfg) (long_options cfg) argv st of
        (End, st') \<Rightarrow> Inr (Finished (optind st'), os)
      | (Opt c optarg, st') \<Rightarrow>
          (case switch cfg tab (optind st') c optarg os of
             Inl e \<Rightarrow> Inl e
           | Inr (More, os') \<Rightarrow> parse cfg tab argv st' os'
           | Inr (Stop t, os') \<Rightarrow> Inr (t, os')))"
  by pat_completeness auto
termination
  by (relation "measure (\<lambda>(cfg, tab, argv, st, os). left_over argv st)") (auto dest: getopt_progress [OF sym])

declare parse.simps [simp del]

text \<open>
  From the head of \<open>main\<close> to the copy of \<open>htif_argv\<close>: either \<open>main\<close> returns (\<open>Inl\<close> with the code), or it
  goes on with these arguments.
\<close>

definition main_args ::
    "cfg \<Rightarrow> string option list \<Rightarrow> string list \<Rightarrow> opts \<Rightarrow> ((int + string list) \<times> opts) res" where
  "main_args cfg tab argv os =
     and_ok (parse cfg tab argv \<lparr>optind = 1, nextchar = []\<rparr> os) (\<lambda>(t, os).
       case t of
         Return r \<Rightarrow> Inr (Inl r, os)
       | Finished i \<Rightarrow>
           if i = length argv then
             Inr (Inl 1, usage (tell ''No binary specified for emulator'' os))
           else Inr (Inr (argv ! 0 # drop i argv), os))"

end
