(* ===== verification/Ariane_Sim.thy ===== *)
theory Ariane_Sim
  imports Ariane_Args "HOL-Library.While_Combinator"
begin

text \<open>
  The rest of \<open>main\<close> of \<open>corev_apu/tb/ariane_tb.cpp\<close>: reset, preloading of the memory, the clock loop and
  the verdict. The simulated hardware is generated from SystemVerilog and is a parameter, together
  with the host interface and the JTAG server that it drives through its own calls: the record
  \<open>harness\<close> says what one evaluation does for given values of the input pins, and what can be read off.
\<close>

section \<open>The simulated system\<close>

text \<open>The input pins \<open>rst_ni\<close>, \<open>clk_i\<close> and \<open>rtc_i\<close>.\<close>

type_synonym inputs = "u8 \<times> u8 \<times> u8"

record 'm harness =
  h_start :: "u16 \<Rightarrow> string list \<Rightarrow> 'm"
  h_eval :: "inputs \<Rightarrow> 'm \<Rightarrow> 'm"
  h_exit :: "'m \<Rightarrow> u32"
  h_dtm_done :: "'m \<Rightarrow> bool"
  h_dtm_exit :: "'m \<Rightarrow> int"
  h_dtm_stop :: "'m \<Rightarrow> 'm"
  h_jtag_done :: "'m \<Rightarrow> bool"
  h_jtag_exit :: "'m \<Rightarrow> int"
  read_section_void :: "u64 \<Rightarrow> u64 \<Rightarrow> elf \<Rightarrow> 'm \<Rightarrow> 'm"

record 'm sim =
  rst_ni :: u8
  clk_i :: u8
  rtc_i :: u8
  inner :: 'm
  main_time :: u64
  dumped :: "u64 list"

definition top_eval :: "'m harness \<Rightarrow> 'm sim \<Rightarrow> 'm sim" where
  "top_eval S s = s\<lparr>inner := h_eval S (rst_ni s, clk_i s, rtc_i s) (inner s)\<rparr>"

text \<open>The wave dump, in a build with tracing and if a file was named.\<close>

definition tracing :: "cfg \<Rightarrow> opts \<Rightarrow> bool" where
  "tracing cfg os \<longleftrightarrow> vm_trace cfg \<and> (vcdfile os \<noteq> None \<or> fst_fname os \<noteq> None)"

definition trace_start :: "cfg \<Rightarrow> opts \<Rightarrow> opts" where
  "trace_start cfg os =
     (if \<not> vm_trace cfg then os
      else if vm_trace_fst cfg then
        (if fst_fname os \<noteq> None then tell ''Starting FST waveform dump into file %s...'' os
         else tell ''No explicit FST file name supplied, using RTL defaults.'' os)
      else if vcdfile os \<noteq> None then tell ''Starting VCD waveform dump ...'' os
      else tell ''No explicit VCD file name supplied, using RTL defaults.'' os)"

definition dump :: "bool \<Rightarrow> u64 \<Rightarrow> 'm sim \<Rightarrow> 'm sim" where
  "dump tr t s = (if tr then s\<lparr>dumped := dumped s @ [t]\<rparr> else s)"

definition handle_sigterm :: "'m harness \<Rightarrow> 'm sim \<Rightarrow> 'm sim" where
  "handle_sigterm S s = s\<lparr>inner := h_dtm_stop S (inner s)\<rparr>"

definition sc_time_stamp :: "'m sim \<Rightarrow> u64" where
  "sc_time_stamp s = main_time s"

section \<open>Reset, preload and clock\<close>

definition reset_cycle :: "'m harness \<Rightarrow> bool \<Rightarrow> 'm sim \<Rightarrow> 'm sim" where
  "reset_cycle S tr s =
     (let s = s\<lparr>rst_ni := 0, clk_i := 0, rtc_i := 0\<rparr>;
          s = top_eval S s;
          s = dump tr (main_time s * 2) s;
          s = s\<lparr>clk_i := 1\<rparr>;
          s = top_eval S s;
          s = dump tr (main_time s * 2 + 1) s in
      s\<lparr>main_time := main_time s + 1\<rparr>)"

primrec reset_loop :: "'m harness \<Rightarrow> bool \<Rightarrow> nat \<Rightarrow> 'm sim \<Rightarrow> 'm sim" where
  "reset_loop S tr 0 s = s"
| "reset_loop S tr (Suc n) s = reset_loop S tr n (reset_cycle S tr s)"

function preload :: "'m harness \<Rightarrow> elf \<Rightarrow> 'm \<Rightarrow> elf \<times> 'm" where
  "preload S g m =
     (case get_section g of
        ((r, Some (addr, len)), g') \<Rightarrow>
          preload S g' (if addr = 0x80000000 then read_section_void S addr 0xFFFFFF g' m else m)
      | ((r, None), g') \<Rightarrow> (g', m))"
  by pat_completeness auto
termination
  by (relation "measure (\<lambda>(S, g, m). length (sections g) - section_index g)")
    (auto simp: get_section_def split: if_splits)

declare preload.simps [simp del]

definition cycle :: "'m harness \<Rightarrow> bool \<Rightarrow> 'm sim \<Rightarrow> 'm sim" where
  "cycle S tr s =
     (let s = s\<lparr>clk_i := 0\<rparr>;
          s = top_eval S s;
          s = dump tr (main_time s * 2) s;
          s = s\<lparr>clk_i := 1\<rparr>;
          s = top_eval S s;
          s = dump tr (main_time s * 2 + 1) s;
          s = (if main_time s mod 2 = 0 then s\<lparr>rtc_i := rtc_i s XOR 1\<rparr> else s) in
      s\<lparr>main_time := main_time s + 1\<rparr>)"

definition finished :: "'m harness \<Rightarrow> 'm sim \<Rightarrow> bool" where
  "finished S s \<longleftrightarrow> h_dtm_done S (inner s) \<or> h_jtag_done S (inner s) \<or> h_exit S (inner s) AND 1 \<noteq> 0"

definition run_loop :: "'m harness \<Rightarrow> bool \<Rightarrow> 'm sim \<Rightarrow> 'm sim option" where
  "run_loop S tr = while_option (\<lambda>s. \<not> finished S s) (cycle S tr)"

section \<open>The verdict\<close>

definition bench_verdict :: "'m harness \<Rightarrow> 'm \<Rightarrow> opts \<Rightarrow> int \<times> opts" where
  "bench_verdict S m os =
     (if h_dtm_exit S m \<noteq> 0 then
        (h_dtm_exit S m, tell ''%s *** FAILED *** (tohost = %d) after %ld cycles'' os)
      else if h_jtag_exit S m \<noteq> 0 then
        (h_jtag_exit S m, tell ''%s *** FAILED *** (tohost = %d, seed %d) after %ld cycles'' os)
      else if h_exit S m AND 0xFFFFFFFE \<noteq> 0 then
        (uint (drop_bit 1 (h_exit S m)), tell ''%s *** FAILED *** (tohost = %d) after %ld cycles'' os)
      else (0, tell ''%s *** SUCCESS *** (tohost = 0) after %ld cycles'' os))"

definition print_times :: "opts \<Rightarrow> opts" where
  "print_times os =
     (if perf os then tell ''Wall clock time passed: %f ms'' (tell ''CPU time used: %f ms'' os) else os)"

section \<open>main\<close>

text \<open>From the creation of the objects on, with the globals of \<open>elfloader.cc\<close>.\<close>

definition simulate ::
    "'m harness \<Rightarrow> bool \<Rightarrow> opts \<Rightarrow> string list \<Rightarrow> elf \<Rightarrow> ((int \<times> opts) \<times> 'm sim) option" where
  "simulate S tr os htif_argv g = do {
     let s = \<lparr>rst_ni = 0, clk_i = 0, rtc_i = 0, inner = h_start S (rbb_port os) htif_argv, main_time = 0, dumped = []\<rparr>;
     let s = reset_loop S tr 10 s;
     let s = s\<lparr>rst_ni := 1\<rparr>;
     let s = s\<lparr>inner := snd (preload S g (inner s))\<rparr>;
     s \<leftarrow> run_loop S tr s;
     let (ret, os) = bench_verdict S (inner s) os;
     Some ((ret, print_times os), s)
   }"

text \<open>
  \<open>main\<close>: \<open>None\<close> if the simulation does not end, \<open>Inl\<close> for a fault, \<open>Inr\<close> with the returned value. The
  files are found with \<open>fs\<close>; \<open>env\<close> and \<open>g\<close> belong to \<open>elfloader.cc\<close>.
\<close>

definition bench_main ::
    "cfg \<Rightarrow> 'm harness \<Rightarrow> elf_env \<Rightarrow> (string \<Rightarrow> opened) \<Rightarrow> elf \<Rightarrow> string list \<Rightarrow> opts \<Rightarrow> (fault + int \<times> opts) option" where
  "bench_main cfg S env fs g argv os =
     (case main_args cfg verilog_plusargs argv os of
        Inl e \<Rightarrow> Some (Inl e)
      | Inr (Inl r, os) \<Rightarrow> Some (Inr (r, os))
      | Inr (Inr htif_argv, os) \<Rightarrow>
          (case read_elf env (fs (htif_argv ! 1)) g of
             Inl e \<Rightarrow> Some (Inl e)
           | Inr g \<Rightarrow> map_option (\<lambda>(r, s). Inr r) (simulate S (tracing cfg os) (trace_start cfg os) htif_argv g)))"

end
