(* ===== verification/Ariane_Args_Props.thy ===== *)
theory Ariane_Args_Props
  imports Ariane_Args
begin

text \<open>
  Where the options of the simulator end and the arguments of the host begin, and two command lines
  that the parser does not handle.
\<close>

section \<open>Options of the simulator\<close>

text \<open>
  What the usage text promises of each option: the letters that only switch something on, and the
  letters with a value, those of a tracing build included. A number has to fit the type that it is read
  into, and a file for a trace has to open.
\<close>

inductive emu_flag :: "char \<Rightarrow> opts \<Rightarrow> opts \<Rightarrow> bool" where
  flag_count: "emu_flag (CHR ''c'') os (os\<lparr>print_cycles := True\<rparr>)"
| flag_verbose: "emu_flag (CHR ''V'') os (os\<lparr>verbose := True\<rparr>)"
| flag_perf: "emu_flag (CHR ''p'') os (os\<lparr>perf := True\<rparr>)"

inductive emu_flags :: "string \<Rightarrow> opts \<Rightarrow> opts \<Rightarrow> bool" where
  no_flags: "emu_flags [] os os"
| more_flags: "emu_flag c os os1 \<Longrightarrow> emu_flags cs os1 os' \<Longrightarrow> emu_flags (c # cs) os os'"

inductive emu_value :: "cfg \<Rightarrow> char \<Rightarrow> string \<Rightarrow> opts \<Rightarrow> opts \<Rightarrow> bool" for cfg where
  value_limit: "ato 64 n = Some v \<Longrightarrow> emu_value cfg (CHR ''m'') n os (os\<lparr>max_cycles := of_int v\<rparr>)"
| value_seed: "ato 32 n = Some v \<Longrightarrow> emu_value cfg (CHR ''s'') n os (os\<lparr>random_seed := of_int v\<rparr>)"
| value_port: "ato 32 n = Some v \<Longrightarrow> emu_value cfg (CHR ''r'') n os (os\<lparr>rbb_port := of_int v\<rparr>)"
| value_vcd: "vm_trace cfg \<Longrightarrow> n = ''-'' \<or> can_open cfg n \<Longrightarrow> emu_value cfg (CHR ''v'') n os (os\<lparr>vcdfile := Some n\<rparr>)"
| value_fst: "vm_trace cfg \<Longrightarrow> emu_value cfg (CHR ''f'') n os (os\<lparr>fst_fname := Some n\<rparr>)"
| value_start: "vm_trace cfg \<Longrightarrow> ato 64 n = Some v \<Longrightarrow> emu_value cfg (CHR ''x'') n os (os\<lparr>dump_start := of_int v\<rparr>)"

text \<open>
  A long name, or the beginning of one, that means one option only: it is the full name, or it
  is no full name and every option whose name begins like this is of the same kind and code.
\<close>

definition stands_for :: "cfg \<Rightarrow> string \<Rightarrow> nat \<Rightarrow> char \<Rightarrow> bool" where
  "stands_for cfg w k c \<longleftrightarrow> w \<noteq> [] \<and> CHR ''='' \<notin> set w \<and>
     (map_of (long_options cfg) w = Some (k, of_char c) \<or>
      w \<notin> fst ` set (long_options cfg) \<and> (\<exists>(n, x) \<in> set (long_options cfg). take (length w) n = w) \<and>
      (\<forall>(n, x) \<in> set (long_options cfg). take (length w) n = w \<longrightarrow> x = (k, of_char c)))"

text \<open>
  The ways to write an option: a group of letters, of which the last may take the rest of the word or
  the next word as its value; a long name, with its value behind an equals sign or in the next word;
  the older spelling with a plus sign; and an argument of the Verilog model.
\<close>

inductive emu_option :: "cfg \<Rightarrow> string list \<Rightarrow> opts \<Rightarrow> opts \<Rightarrow> bool" for cfg where
  group: "emu_flags cs os os' \<Longrightarrow> cs \<noteq> [] \<Longrightarrow> emu_option cfg [CHR ''-'' # cs] os os'"
| joined: "emu_flags cs os os1 \<Longrightarrow> emu_value cfg c n os1 os' \<Longrightarrow> n \<noteq> [] \<Longrightarrow> emu_option cfg [CHR ''-'' # cs @ c # n] os os'"
| separate: "emu_flags cs os os1 \<Longrightarrow> emu_value cfg c n os1 os' \<Longrightarrow> emu_option cfg [CHR ''-'' # cs @ [c], n] os os'"
| long_flag: "stands_for cfg w 0 c \<Longrightarrow> emu_flag c os os' \<Longrightarrow> emu_option cfg [''--'' @ w] os os'"
| long_joined: "stands_for cfg w 1 c \<Longrightarrow> emu_value cfg c n os os' \<Longrightarrow> emu_option cfg [''--'' @ w @ CHR ''='' # n] os os'"
| long_separate: "stands_for cfg w 1 c \<Longrightarrow> emu_value cfg c n os os' \<Longrightarrow> emu_option cfg [''--'' @ w, n] os os'"
| plus_verbose: "emu_flag (CHR ''V'') os os' \<Longrightarrow> emu_option cfg [''+verbose''] os os'"
| plus_count: "emu_flag (CHR ''c'') os os' \<Longrightarrow> emu_option cfg [''+cycle-count'' @ x] os os'"
| plus_limit: "emu_value cfg (CHR ''m'') n os os' \<Longrightarrow> emu_option cfg [''+max-cycles='' @ n] os os'"
| plus_start: "emu_value cfg (CHR ''x'') n os os' \<Longrightarrow> emu_option cfg [''+dump-start='' @ n] os os'"
| plus_model: "Some p \<in> set verilog_plusargs \<Longrightarrow> plusargs_legal os \<Longrightarrow> emu_option cfg [CHR ''+'' # p @ x] os os"

inductive emu_words :: "cfg \<Rightarrow> string list \<Rightarrow> opts \<Rightarrow> opts \<Rightarrow> bool" for cfg where
  no_words: "emu_words cfg [] os os"
| one_more: "emu_option cfg ws1 os os1 \<Longrightarrow> emu_words cfg ws os1 os' \<Longrightarrow> emu_words cfg (ws1 @ ws) os os'"

section \<open>What getopt_long and the switch make of them\<close>

lemma stands_for_word: "stands_for cfg w k c \<Longrightarrow> w \<noteq> []" "stands_for cfg w k c \<Longrightarrow> CHR ''='' \<notin> set w"
  by (simp_all add: stands_for_def)

lemma find_long_stands: "stands_for cfg w k c \<Longrightarrow> find_long (long_options cfg) w = Some (k, of_char c)"
proof -
  assume w: "stands_for cfg w k c"
  show ?thesis
  proof (cases "map_of (long_options cfg) w = Some (k, of_char c)")
    case False
    let ?F = "filter (\<lambda>(n, x). take (length w) n = w) (long_options cfg)"
    have "map_of (long_options cfg) w = None" using w False by (auto simp: stands_for_def map_of_eq_None_iff)
    moreover have "?F \<noteq> []" "\<forall>(n, x) \<in> set ?F. x = (k, of_char c)"
      using w False by (auto simp: stands_for_def filter_empty_conv)
    ultimately show ?thesis by (cases ?F) (auto simp: find_long_def list_all_iff)
  qed (simp add: find_long_def)
qed

lemma getopt_name:
  assumes "i < length argv" "argv ! i = ''--'' @ name" "name \<noteq> []" "CHR ''='' \<notin> set name" "find_long longs name = Some (0, c)"
  shows "getopt_long shorts longs argv \<lparr>optind = i, nextchar = []\<rparr> = (Opt c [], \<lparr>optind = i + 1, nextchar = []\<rparr>)"
proof -
  have eqs: "takeWhile (\<lambda>c. c \<noteq> CHR ''='') name = name" "dropWhile (\<lambda>c. c \<noteq> CHR ''='') name = []"
    using assms(4) by (auto simp: takeWhile_eq_all_conv dropWhile_eq_Nil_conv)
  show ?thesis using assms by (simp add: getopt_long_def getopt_word_def Let_def eqs)
qed

lemma getopt_assigned:
  assumes "i < length argv" "argv ! i = ''--'' @ name @ CHR ''='' # n" "CHR ''='' \<notin> set name"
    "find_long longs name = Some (k, c)" "k \<noteq> 0"
  shows "getopt_long shorts longs argv \<lparr>optind = i, nextchar = []\<rparr> = (Opt c n, \<lparr>optind = i + 1, nextchar = []\<rparr>)"
proof -
  have "takeWhile (\<lambda>c. c \<noteq> CHR ''='') (name @ CHR ''='' # n) = name"
    "dropWhile (\<lambda>c. c \<noteq> CHR ''='') (name @ CHR ''='' # n) = CHR ''='' # n"
    using assms(3) by (auto simp: takeWhile_tail dropWhile_append)
  then show ?thesis using assms by (simp add: getopt_long_def getopt_word_def Let_def)
qed

lemma getopt_separate:
  assumes "i + 1 < length argv" "argv ! i = ''--'' @ name" "name \<noteq> []" "CHR ''='' \<notin> set name" "find_long longs name = Some (1, c)"
  shows "getopt_long shorts longs argv \<lparr>optind = i, nextchar = []\<rparr> = (Opt c (argv ! (i + 1)), \<lparr>optind = i + 2, nextchar = []\<rparr>)"
proof -
  have eqs: "takeWhile (\<lambda>c. c \<noteq> CHR ''='') name = name" "dropWhile (\<lambda>c. c \<noteq> CHR ''='') name = []"
    using assms(4) by (auto simp: takeWhile_eq_all_conv dropWhile_eq_Nil_conv)
  show ?thesis using assms by (simp add: getopt_long_def getopt_word_def Let_def eqs)
qed

lemma getopt_plain:
  assumes "i < length argv" "take 1 (argv ! i) \<noteq> ''-'' \<or> argv ! i = ''-''"
  shows "getopt_long shorts longs argv \<lparr>optind = i, nextchar = []\<rparr> = (Opt 1 (argv ! i), \<lparr>optind = i + 1, nextchar = []\<rparr>)"
proof -
  have "\<not> (take 2 (argv ! i) = ''--'')" using assms(2) by (cases "argv ! i") auto
  moreover have "argv ! i \<noteq> ''--''" using assms(2) by auto
  ultimately show ?thesis using assms by (auto simp: getopt_long_def)
qed

lemma simple_case_simps:
  "simple_case cfg 99 a os = Some (Inr (More, os\<lparr>print_cycles := True\<rparr>))"
  "simple_case cfg 86 a os = Some (Inr (More, os\<lparr>verbose := True\<rparr>))"
  "simple_case cfg 112 a os = Some (Inr (More, os\<lparr>perf := True\<rparr>))"
  "simple_case cfg 109 a os = Some (number 64 a (\<lambda>v. os\<lparr>max_cycles := of_int v\<rparr>))"
  "simple_case cfg 115 a os = Some (number 32 a (\<lambda>v. os\<lparr>random_seed := of_int v\<rparr>))"
  "simple_case cfg 114 a os = Some (number 32 a (\<lambda>v. os\<lparr>rbb_port := of_int v\<rparr>))"
  "vm_trace cfg \<Longrightarrow> simple_case cfg 118 a os = Some (if a = ''-'' \<or> can_open cfg a then Inr (More, os\<lparr>vcdfile := Some a\<rparr>)
     else Inr (Stop (Return 1), tell ''Unable to open %s for VCD write'' os))"
  "vm_trace cfg \<Longrightarrow> simple_case cfg 102 a os = Some (Inr (More, os\<lparr>fst_fname := Some a\<rparr>))"
  "vm_trace cfg \<Longrightarrow> simple_case cfg 120 a os = Some (number 64 a (\<lambda>v. os\<lparr>dump_start := of_int v\<rparr>))"
  "simple_case cfg 80 a os = Some (Inr (More, os))"
  "simple_case cfg 63 a os = Some (Inr (Stop (Return 1), usage os))"
  "simple_case cfg 1 a os = None"
  by (simp_all add: simple_case_def)

lemma switch_simple: "simple_case cfg c a os = Some r \<Longrightarrow> switch cfg tab i c a os = r"
  by (simp add: switch.simps)

lemma switch_plus:
  "plus_case cfg tab a os = Inr (Inr (c, a', os1)) \<Longrightarrow> switch cfg tab i 1 a os = switch cfg tab i c a' os1"
  by (subst switch.simps) (simp add: simple_case_simps)

lemma number_Some: "ato w n = Some v \<Longrightarrow> number w n f = Inr (More, f v)"
  by (simp add: number_def)

lemma emu_flag_case:
  assumes "emu_flag c os os'"
  shows "simple_case cfg (of_char c) a os = Some (Inr (More, os'))" and "map_of (short_options cfg) c = Some False"
    and "c \<noteq> CHR ''-''"
  using assms by (cases; simp add: simple_case_simps short_options_def)+

lemma emu_value_case:
  assumes "emu_value cfg c n os os'"
  shows "simple_case cfg (of_char c) n os = Some (Inr (More, os'))" and "map_of (short_options cfg) c = Some True"
    and "c \<noteq> CHR ''-''"
  using assms by (cases; auto simp: simple_case_simps short_options_def number_Some)+

text \<open>One turn of the loop that goes on.\<close>

lemma parse_turn:
  assumes "getopt_long (short_options cfg) (long_options cfg) argv st = (Opt c a, st')"
    and "simple_case cfg c a os = Some (Inr (More, os'))"
  shows "parse cfg tab argv st os = parse cfg tab argv st' os'"
  using assms by (subst parse.simps) (simp add: switch_simple)

lemma parse_plus:
  assumes "i < length argv" "take 1 (argv ! i) = ''+''"
    and "plus_case cfg tab (argv ! i) os = Inr (Inr (c, a, os))" "simple_case cfg c a os = Some (Inr (More, os'))"
  shows "parse cfg tab argv \<lparr>optind = i, nextchar = []\<rparr> os = parse cfg tab argv \<lparr>optind = i + 1, nextchar = []\<rparr> os'"
  using getopt_plain [of i argv "short_options cfg" "long_options cfg"] assms
    switch_plus [OF assms(3), of "i + 1"] switch_simple [OF assms(4)] by (subst parse.simps) simp

lemma parse_flags:
  "emu_flags cs os os' \<Longrightarrow> cs \<noteq> [] \<Longrightarrow> parse cfg tab argv \<lparr>optind = i, nextchar = cs @ rest\<rparr> os =
   parse cfg tab argv \<lparr>optind = (if rest = [] then i + 1 else i), nextchar = rest\<rparr> os'"
proof (induction rule: emu_flags.induct)
  case (more_flags c os os1 cs os')
  note c = emu_flag_case [OF more_flags.hyps(1)]
  have "parse cfg tab argv \<lparr>optind = i, nextchar = c # cs @ rest\<rparr> os =
      parse cfg tab argv \<lparr>optind = (if cs @ rest = [] then i + 1 else i), nextchar = cs @ rest\<rparr> os1"
    by (rule parse_turn [OF _ c(1)]) (simp add: getopt_long_def c(2))
  then show ?case using more_flags.IH more_flags.hyps(2) by (cases "cs = []") (auto elim: emu_flags.cases)
qed simp

lemma emu_flags_head: "emu_flags (c # cs) os os' \<Longrightarrow> c \<noteq> CHR ''-''"
  by (erule emu_flags.cases) (auto dest: emu_flag_case(3))

lemma parse_group_opens:
  assumes "i < length argv" "argv ! i = CHR ''-'' # g" "g \<noteq> []" "hd g \<noteq> CHR ''-''"
  shows "parse cfg tab argv \<lparr>optind = i, nextchar = []\<rparr> os = parse cfg tab argv \<lparr>optind = i, nextchar = g\<rparr> os"
proof -
  have "getopt_long (short_options cfg) (long_options cfg) argv \<lparr>optind = i, nextchar = []\<rparr> =
      getopt_long (short_options cfg) (long_options cfg) argv \<lparr>optind = i, nextchar = g\<rparr>"
    using assms by (cases g) (auto simp: getopt_long_def)
  then show ?thesis by (simp add: parse.simps [of cfg tab argv _ os])
qed

lemma parse_value:
  assumes "emu_flags cs os os1" "emu_value cfg c n os1 os'"
    and "getopt_long (short_options cfg) (long_options cfg) argv \<lparr>optind = i, nextchar = c # r\<rparr> = (Opt (of_char c) n, st)"
    and i: "i < length argv" "argv ! i = CHR ''-'' # cs @ c # r"
  shows "parse cfg tab argv \<lparr>optind = i, nextchar = []\<rparr> os = parse cfg tab argv st os'"
proof -
  have "hd (cs @ c # r) \<noteq> CHR ''-''"
    using emu_value_case(3) [OF assms(2)] emu_flags_head [of "hd cs" "tl cs" os os1] assms(1) by (cases cs) simp_all
  then have "parse cfg tab argv \<lparr>optind = i, nextchar = []\<rparr> os = parse cfg tab argv \<lparr>optind = i, nextchar = cs @ c # r\<rparr> os"
    using parse_group_opens [OF i] by simp
  moreover have "parse cfg tab argv \<lparr>optind = i, nextchar = cs @ c # r\<rparr> os = parse cfg tab argv \<lparr>optind = i, nextchar = c # r\<rparr> os1"
    using parse_flags [OF assms(1), of cfg tab argv i "c # r"] assms(1) by (cases "cs = []") (auto elim: emu_flags.cases)
  ultimately show ?thesis using parse_turn [OF assms(3) emu_value_case(1) [OF assms(2)]] by simp
qed

lemma find_plusarg_known:
  "Some p \<in> set ps \<Longrightarrow> None \<notin> set ps \<Longrightarrow> find_plusarg (CHR ''+'' # p @ x) (ps @ ext) = Inr True"
  by (induction "CHR ''+'' # p @ x" ps rule: find_plusarg.induct) auto

lemma parse_model_arg:
  assumes "Some p \<in> set verilog_plusargs" "plusargs_legal os" "i < length argv" "argv ! i = CHR ''+'' # p @ x"
  shows "parse cfg (verilog_plusargs @ ext) argv \<lparr>optind = i, nextchar = []\<rparr> os =
    parse cfg (verilog_plusargs @ ext) argv \<lparr>optind = i + 1, nextchar = []\<rparr> os"
proof -
  have "find_plusarg (argv ! i) (verilog_plusargs @ ext) = Inr True"
    using find_plusarg_known [of p verilog_plusargs x ext] assms by (simp add: verilog_plusargs_def)
  then have "plus_case cfg (verilog_plusargs @ ext) (argv ! i) os = Inr (Inr (80, argv ! i, os))"
    using assms by (auto simp: plus_case_def verilog_plusargs_def and_ok_def)
  then show ?thesis using assms by (intro parse_plus [of i argv cfg _ os 80]) (simp_all add: simple_case_simps)
qed

text \<open>Every way to write an option is read as what it means, and the loop goes on behind it.\<close>

lemma parse_option:
  assumes "emu_option cfg ws os os'" and "drop i argv = ws @ rest"
  shows "parse cfg (verilog_plusargs @ ext) argv \<lparr>optind = i, nextchar = []\<rparr> os =
    parse cfg (verilog_plusargs @ ext) argv \<lparr>optind = i + length ws, nextchar = []\<rparr> os'"
proof -
  have at: "i + j < length argv \<and> argv ! (i + j) = ws ! j" if "j < length ws" for j
  proof -
    have "length ws \<le> length (drop i argv)" "drop i argv ! j = ws ! j" using that by (simp_all add: assms(2) nth_append)
    then show ?thesis using that by simp
  qed
  have here: "i < length argv" "argv ! i = ws ! 0" if "ws \<noteq> []" using at [of 0] that by simp_all
  show ?thesis using assms(1)
  proof cases
    case (group cs)
    then obtain c cs' where "cs = c # cs'" by (cases cs) auto
    then show ?thesis using group here parse_group_opens [of i argv cs] emu_flags_head
        parse_flags [of cs os os' cfg _ argv i "[]"] by simp
  next
    case (joined cs os1 c n)
    then show ?thesis
      using here parse_value [of cs os os1 cfg c n os' argv i n "\<lparr>optind = i + 1, nextchar = []\<rparr>"] emu_value_case(2)
      by (simp add: getopt_long_def)
  next
    case (separate cs os1 c n)
    then show ?thesis
      using here at [of 1] parse_value [of cs os os1 cfg c n os' argv i "[]" "\<lparr>optind = i + 2, nextchar = []\<rparr>"] emu_value_case(2)
      by (simp add: getopt_long_def)
  next
    case (long_flag w c)
    note w = stands_for_word [OF long_flag(2)] find_long_stands [OF long_flag(2)]
    show ?thesis using here long_flag parse_turn [OF getopt_name [OF _ _ w] emu_flag_case(1) [OF long_flag(3)]] by simp
  next
    case (long_joined w c n)
    note w = stands_for_word(2) [OF long_joined(2)] find_long_stands [OF long_joined(2)]
    show ?thesis using here long_joined parse_turn [OF getopt_assigned [OF _ _ w] emu_value_case(1) [OF long_joined(3)]] by simp
  next
    case (long_separate w c n)
    note w = stands_for_word [OF long_separate(2)] find_long_stands [OF long_separate(2)]
    have "argv ! (i + 1) = n" using at [of 1] long_separate(1) by simp
    then show ?thesis
      using here at [of 1] long_separate(1) parse_turn [OF getopt_separate [OF _ _ w]] emu_value_case(1) [OF long_separate(3)] by simp
  next
    case plus_verbose
    then show ?thesis using here emu_flag_case(1) [of "CHR ''V''"]
      by (simp add: parse_plus [of i argv cfg _ os 86] plus_case_def)
  next
    case (plus_count x)
    then show ?thesis using here emu_flag_case(1) [of "CHR ''c''"]
      by (simp add: parse_plus [of i argv cfg _ os 99] plus_case_def)
  next
    case (plus_limit n)
    then show ?thesis using here emu_value_case(1) [of cfg "CHR ''m''"]
      by (simp add: parse_plus [of i argv cfg _ os 109 n] plus_case_def)
  next
    case (plus_start n)
    then have "vm_trace cfg" by (auto elim: emu_value.cases)
    then show ?thesis using plus_start here emu_value_case(1) [of cfg "CHR ''x''"]
      by (simp add: parse_plus [of i argv cfg _ os 120 n] plus_case_def)
  next
    case (plus_model p x)
    then show ?thesis using here by (simp add: parse_model_arg)
  qed
qed

lemma parse_words_ext:
  "emu_words cfg ws os os' \<Longrightarrow> drop i argv = ws @ rest \<Longrightarrow>
   parse cfg (verilog_plusargs @ ext) argv \<lparr>optind = i, nextchar = []\<rparr> os =
   parse cfg (verilog_plusargs @ ext) argv \<lparr>optind = i + length ws, nextchar = []\<rparr> os'"
proof (induction arbitrary: i rule: emu_words.induct)
  case (one_more ws1 os os1 ws os')
  have "drop (i + length ws1) argv = drop (length ws1) (drop i argv)" by (simp add: add.commute)
  then have "drop (i + length ws1) argv = ws @ rest" using one_more.prems by simp
  then show ?case
    using parse_option [OF one_more.hyps(1), of i argv "ws @ rest"] one_more.IH one_more.prems by (simp add: add.assoc)
qed simp

lemmas parse_words = parse_words_ext [where ext = "[]", simplified]

lemma switch_binary:
  assumes "take 1 b \<noteq> ''+''"
  shows "switch cfg tab i 1 b os = Inr (Stop (Finished (i - 1)), os)"
  using assms by (subst switch.simps) (simp add: simple_case_simps plus_case_def)

text \<open>
  Claim C16: on the command line of the simulator, any number of its own options, spelled in any of the
  ways of \<open>emu_option\<close> (letters alone or in groups, values joined or in a word of their own, long names
  and their unambiguous abbreviations, the spellings with a plus sign, the arguments of the Verilog
  model, and the options of a tracing build), may precede the program. Each sets what it names, in
  order. A word that begins with neither a minus nor a plus sign ends them: the host interface gets the
  name of the simulator, that word and every word behind it, whatever these look like. The word
  \<open>--\<close> ends them too, and is itself dropped.
\<close>

theorem command_line_split:
  assumes "emu_words cfg ws os os'" and "take 1 b \<noteq> ''+''" and "take 1 b \<noteq> ''-''"
  shows "main_args cfg verilog_plusargs (prog # ws @ b # rest) os = Inr (Inr (prog # b # rest), os') \<and>
    main_args cfg verilog_plusargs (prog # ws @ ''--'' # w # rest) os = Inr (Inr (prog # w # rest), os')"
proof
  let ?st = "\<lparr>optind = 1 + length ws, nextchar = []\<rparr>"
  let ?argv = "prog # ws @ b # rest"
  have at: "1 + length ws < length ?argv" "?argv ! (1 + length ws) = b" by simp_all
  have "parse cfg verilog_plusargs ?argv \<lparr>optind = 1, nextchar = []\<rparr> os = parse cfg verilog_plusargs ?argv ?st os'"
    by (rule parse_words [OF assms(1), of 1 _ "b # rest"]) simp
  also have "getopt_long (short_options cfg) (long_options cfg) ?argv ?st = (Opt 1 b, \<lparr>optind = 2 + length ws, nextchar = []\<rparr>)"
    using getopt_plain [OF at(1)] at(2) assms(3) by simp
  then have "parse cfg verilog_plusargs ?argv ?st os' = Inr (Finished (1 + length ws), os')"
    using switch_binary [OF assms(2)] by (subst parse.simps) simp
  finally show "main_args cfg verilog_plusargs ?argv os = Inr (Inr (prog # b # rest), os')"
    by (simp add: main_args_def and_ok_def)
  let ?argv = "prog # ws @ ''--'' # w # rest"
  have "parse cfg verilog_plusargs ?argv \<lparr>optind = 1, nextchar = []\<rparr> os = parse cfg verilog_plusargs ?argv ?st os'"
    by (rule parse_words [OF assms(1), of 1 _ "''--'' # w # rest"]) simp
  also have "\<dots> = Inr (Finished (2 + length ws), os')"
    by (subst parse.simps) (simp add: getopt_long_def)
  finally show "main_args cfg verilog_plusargs ?argv os = Inr (Inr (prog # w # rest), os')"
    by (simp add: main_args_def and_ok_def)
qed

text \<open>A build without tracing, with one option of the host interface that takes an argument.\<close>

definition demo_cfg :: cfg where
  "demo_cfg = \<lparr>vm_trace = False, vm_trace_fst = False, htif_options = [(''disk'', 1, 1024)], htif_optind = 1024, can_open = (\<lambda>_. True)\<rparr>"

theorem command_line_split_witness:
  "main_args demo_cfg verilog_plusargs [''sim'', ''-cm'', ''100'', ''+time_out=5'', ''--verb'', ''a.elf'', ''-x''] (main_opts False False 0) =
     Inr (Inr [''sim'', ''a.elf'', ''-x''], (main_opts False False 0)\<lparr>print_cycles := True, max_cycles := 100, verbose := True\<rparr>)"
proof -
  let ?o = "main_opts False False 0"
  let ?c = "?o\<lparr>print_cycles := True\<rparr>"
  let ?m = "?c\<lparr>max_cycles := 100\<rparr>"
  have "emu_value demo_cfg (CHR ''m'') ''100'' ?c ?m"
    using value_limit [of "''100''" 100 demo_cfg ?c] by (simp add: ato_def is_space_def is_digit_def digits_value_def)
  then have "emu_option demo_cfg [''-cm'', ''100''] ?o ?m"
    using separate [OF more_flags [OF flag_count no_flags]] by fastforce
  moreover have "emu_option demo_cfg [''+time_out=5''] ?m ?m"
    using plus_model [of "''time_out''" ?m demo_cfg "''=5''"] by (simp add: verilog_plusargs_def main_opts_def)
  moreover have "stands_for demo_cfg ''verb'' 0 (CHR ''V'')" by (simp add: stands_for_def long_options_def demo_cfg_def)
  then have "emu_option demo_cfg [''--verb''] ?m (?m\<lparr>verbose := True\<rparr>)"
    using long_flag [OF _ flag_verbose] by fastforce
  ultimately have "emu_words demo_cfg ([''-cm'', ''100''] @ [''+time_out=5''] @ [''--verb''] @ []) ?o (?m\<lparr>verbose := True\<rparr>)"
    by (blast intro: emu_words.intros)
  from command_line_split [OF this, of "''a.elf''" "''sim''" "[''-x'']"] show ?thesis by simp
qed

text \<open>
  Claim C40: the array of Verilog arguments has no terminating null pointer. The first word with a plus
  sign that is neither an option of the simulator nor in the array makes the search run over
  its end, also when it is a legal argument of the host interface. With a null pointer at the
  end of the array, the same command line is handled: a word that the host interface knows ends the options and is
  handed on with the rest, and any other makes \<open>main\<close> return 1 after the message and the usage.
\<close>

theorem plusarg_overrun:
  assumes "emu_words cfg ws os os'" and "plusargs_legal os'" and "take 1 w = ''+''"
    and "w \<noteq> ''+verbose''" and "take 12 w \<notin> {''+max-cycles='', ''+dump-start='', ''+cycle-count''}"
    and "list_all (\<lambda>p. take (length p) (drop 1 w) \<noteq> p) [''jtag_rbb_enable'', ''time_out'', ''debug_disable'']"
  shows "main_args cfg verilog_plusargs (prog # ws @ w # rest) os = Inl Wild \<and>
    main_args cfg (verilog_plusargs @ [None]) (prog # ws @ w # rest) os =
      Inr (if find_htif cfg w then (Inr (prog # w # rest), os'\<lparr>plusargs_legal := False\<rparr>)
           else (Inl 1, usage (tell ''%s: invalid plus-arg (Verilog or HTIF) %s'' (os'\<lparr>plusargs_legal := False\<rparr>))))"
proof
  let ?argv = "prog # ws @ w # rest" and ?st = "\<lparr>optind = 1 + length ws, nextchar = []\<rparr>"
  let ?os = "os'\<lparr>plusargs_legal := False\<rparr>"
  have at: "1 + length ws < length ?argv" "?argv ! (1 + length ws) = w" by simp_all
  have opt: "getopt_long (short_options cfg) (long_options cfg) ?argv ?st = (Opt 1 w, \<lparr>optind = 2 + length ws, nextchar = []\<rparr>)"
    using getopt_plain [OF at(1)] at(2) assms(3) by simp
  have words: "parse cfg (verilog_plusargs @ ext) ?argv \<lparr>optind = 1, nextchar = []\<rparr> os = parse cfg (verilog_plusargs @ ext) ?argv ?st os'" for ext
    by (rule parse_words_ext [OF assms(1), of 1 _ "w # rest"]) simp
  have "plus_case cfg verilog_plusargs w os' = Inl Wild"
    using assms by (simp add: plus_case_def and_ok_def verilog_plusargs_def)
  then have "switch cfg verilog_plusargs i 1 w os' = Inl Wild" for i
    by (subst switch.simps) (simp add: simple_case_simps)
  then have "parse cfg verilog_plusargs ?argv ?st os' = Inl Wild" using opt by (subst parse.simps) simp
  then show "main_args cfg verilog_plusargs ?argv os = Inl Wild"
    using words [of "[]"] by (simp add: main_args_def and_ok_def)
  let ?tab = "verilog_plusargs @ [None]"
  have "plus_case cfg ?tab w os' = Inr (Inr (1, w, ?os))"
    using assms by (simp add: plus_case_def and_ok_def verilog_plusargs_def)
  then have "switch cfg ?tab i 1 w os' = switch cfg ?tab i 1 w ?os" for i by (rule switch_plus)
  moreover have "switch cfg ?tab i 1 w ?os = (if find_htif cfg w then Inr (Stop (Finished (i - 1)), ?os)
      else Inr (Stop (Return 1), usage (tell ''%s: invalid plus-arg (Verilog or HTIF) %s'' ?os)))" for i
    using assms(3-5) by (subst switch.simps) (simp add: simple_case_simps plus_case_def switch_simple)
  ultimately have "parse cfg ?tab ?argv ?st os' = Inr (if find_htif cfg w then (Finished (1 + length ws), ?os)
      else (Return 1, usage (tell ''%s: invalid plus-arg (Verilog or HTIF) %s'' ?os)))"
    using opt by (subst parse.simps) simp
  then show "main_args cfg ?tab ?argv os = Inr (if find_htif cfg w then (Inr (prog # w # rest), ?os)
      else (Inl 1, usage (tell ''%s: invalid plus-arg (Verilog or HTIF) %s'' ?os)))"
    using words [of "[None]"] by (simp add: main_args_def and_ok_def)
qed

theorem plusarg_overrun_witness:
  "main_args demo_cfg verilog_plusargs [''sim'', ''+disk=x'', ''a.elf''] (main_opts False False 0) = Inl Wild"
  using plusarg_overrun [OF emu_words.no_words, of "main_opts False False 0" "''+disk=x''" demo_cfg "''sim''" "[''a.elf'']"]
  by (simp add: main_opts_def)

text \<open>
  An option of the host interface ends the options of the simulator, and the code steps back
  by one word to hand it on. If its argument is joined to it with \<open>=\<close>, the host interface gets the option
  and the rest; if the argument is a word of its own, the option itself is lost and the host
  interface starts with its argument.
\<close>

theorem host_option_handed_on:
  assumes "emu_words cfg ws os os'" and "find_long (long_options cfg) name = Some (1, c)"
    and "name \<noteq> []" "CHR ''='' \<notin> set name" and "htif_optind cfg \<le> c" "256 \<le> c"
  shows "main_args cfg verilog_plusargs (prog # ws @ (''--'' @ name @ CHR ''='' # v) # rest) os =
      Inr (Inr (prog # (''--'' @ name @ CHR ''='' # v) # rest), os') \<and>
    main_args cfg verilog_plusargs (prog # ws @ (''--'' @ name) # v # rest) os = Inr (Inr (prog # v # rest), os')"
proof
  let ?st = "\<lparr>optind = 1 + length ws, nextchar = []\<rparr>"
  have "simple_case cfg c a os' = None" for a using assms(6) by (simp add: simple_case_def)
  then have sw: "switch cfg verilog_plusargs i c a os' = Inr (Stop (Finished (i - 1)), os')" for i a
    using assms(5,6) by (subst switch.simps) simp
  let ?argv = "prog # ws @ (''--'' @ name @ CHR ''='' # v) # rest"
  have at: "1 + length ws < length ?argv" "?argv ! (1 + length ws) = ''--'' @ name @ CHR ''='' # v" by simp_all
  have "parse cfg verilog_plusargs ?argv ?st os' = Inr (Finished (1 + length ws), os')"
    using getopt_assigned [OF at assms(4,2), of "short_options cfg"] sw by (subst parse.simps) simp
  moreover have "parse cfg verilog_plusargs ?argv \<lparr>optind = 1, nextchar = []\<rparr> os = parse cfg verilog_plusargs ?argv ?st os'"
    by (rule parse_words [OF assms(1), of 1 _ "(''--'' @ name @ CHR ''='' # v) # rest"]) simp
  ultimately show "main_args cfg verilog_plusargs ?argv os = Inr (Inr (prog # (''--'' @ name @ CHR ''='' # v) # rest), os')"
    by (simp add: main_args_def and_ok_def)
  let ?argv = "prog # ws @ (''--'' @ name) # v # rest"
  have at: "1 + length ws + 1 < length ?argv" "?argv ! (1 + length ws) = ''--'' @ name" by (simp_all add: nth_append)
  have "parse cfg verilog_plusargs ?argv ?st os' = Inr (Finished (2 + length ws), os')"
    using getopt_separate [OF at assms(3,4,2), of "short_options cfg"] sw by (subst parse.simps) simp
  moreover have "parse cfg verilog_plusargs ?argv \<lparr>optind = 1, nextchar = []\<rparr> os = parse cfg verilog_plusargs ?argv ?st os'"
    by (rule parse_words [OF assms(1), of 1 _ "(''--'' @ name) # v # rest"]) simp
  ultimately show "main_args cfg verilog_plusargs ?argv os = Inr (Inr (prog # v # rest), os')"
    by (simp add: main_args_def and_ok_def)
qed

theorem host_option_handed_on_witness:
  "main_args demo_cfg verilog_plusargs [''sim'', ''--disk=d.img'', ''a.elf''] (main_opts False False 0) =
     Inr (Inr [''sim'', ''--disk=d.img'', ''a.elf''], main_opts False False 0) \<and>
   main_args demo_cfg verilog_plusargs [''sim'', ''--disk'', ''d.img'', ''a.elf''] (main_opts False False 0) =
     Inr (Inr [''sim'', ''d.img'', ''a.elf''], main_opts False False 0)"
  using host_option_handed_on [OF emu_words.no_words, of demo_cfg "''disk''" 1024 "''sim''" "''d.img''" "[''a.elf'']" "main_opts False False 0"]
  by (simp add: demo_cfg_def long_options_def find_long_def)

end
