(* ===== verification/Ariane_Sim_Props.thy ===== *)
theory Ariane_Sim_Props
  imports Ariane_Sim Ariane_Args_Props
begin

text \<open>
  The simulation loop of \<open>ariane_tb.cpp\<close> against a plain description of what it applies to the pins,
  when it ends, and what is preloaded.
\<close>

section \<open>The stimulus\<close>

text \<open>
  The values of \<open>(rst_ni, clk_i, rtc_i)\<close> at each evaluation: ten cycles in reset, then cycles out of
  reset in which the real-time clock changes after every even one.
\<close>

definition stim_reset :: "inputs list" where
  "stim_reset = concat (replicate 10 [(0, 0, 0), (0, 1, 0)])"

definition rtc_at :: "nat \<Rightarrow> u8" where
  "rtc_at k = of_nat ((k + 1) div 2 mod 2)"

definition stim_run :: "nat \<Rightarrow> inputs list" where
  "stim_run n = concat (map (\<lambda>k. [(1, 0, rtc_at k), (1, 1, rtc_at k)]) [0..<n])"

definition drive :: "'m harness \<Rightarrow> inputs list \<Rightarrow> 'm \<Rightarrow> 'm" where
  "drive S ps m = foldl (\<lambda>m p. h_eval S p m) m ps"

definition over :: "'m harness \<Rightarrow> 'm \<Rightarrow> bool" where
  "over S m \<longleftrightarrow> h_dtm_done S m \<or> h_jtag_done S m \<or> h_exit S m AND 1 \<noteq> 0"

lemma finished_over: "finished S s = over S (inner s)"
  by (simp add: finished_def over_def)

lemma drive_append: "drive S (ps @ qs) m = drive S qs (drive S ps m)"
  by (simp add: drive_def)

definition stamps :: "bool \<Rightarrow> nat \<Rightarrow> u64 list" where
  "stamps tr n = (if tr then map of_nat [0..<2 * n] else [])"

lemma stamps_Suc: "stamps tr (Suc n) = stamps tr n @ (if tr then [of_nat (2 * n), of_nat (2 * n + 1)] else [])"
  by (simp add: stamps_def)

text \<open>The state of the program after \<open>n\<close> cycles of reset and after \<open>n\<close> cycles of the loop.\<close>

definition in_reset :: "bool \<Rightarrow> nat \<Rightarrow> 'm \<Rightarrow> 'm sim \<Rightarrow> bool" where
  "in_reset tr n m s \<longleftrightarrow> rtc_i s = 0 \<and> inner s = m \<and> main_time s = of_nat n \<and> dumped s = stamps tr n"

definition at_cycle :: "bool \<Rightarrow> nat \<Rightarrow> 'm \<Rightarrow> 'm sim \<Rightarrow> bool" where
  "at_cycle tr n m s \<longleftrightarrow> rst_ni s = 1 \<and> rtc_i s = rtc_at n \<and> inner s = m \<and> main_time s = of_nat (10 + n) \<and>
     dumped s = stamps tr (10 + n)"

lemma reset_cycle_step:
  assumes "in_reset tr n m s"
  shows "in_reset tr (Suc n) (drive S [(0, 0, 0), (0, 1, 0)] m) (reset_cycle S tr s)"
  using assms by (simp add: in_reset_def reset_cycle_def dump_def top_eval_def drive_def Let_def stamps_Suc mult.commute)

lemma reset_loop_steps:
  "in_reset tr k m s \<Longrightarrow> in_reset tr (k + n) (drive S (concat (replicate n [(0, 0, 0), (0, 1, 0)])) m) (reset_loop S tr n s)"
proof (induction n arbitrary: k m s)
  case 0
  then show ?case by (simp add: drive_def)
next
  case (Suc n)
  from Suc.IH [OF reset_cycle_step [OF Suc.prems, of S]] show ?case by (simp add: drive_def)
qed

lemma rtc_at_Suc: "rtc_at (Suc n) = (if even n then rtc_at n XOR 1 else rtc_at n)"
proof (cases "even n")
  case True
  then obtain k where "n = 2 * k" by blast
  then show ?thesis by (cases "even k") (auto simp: rtc_at_def elim!: evenE oddE)
next
  case False
  then obtain k where "n = 2 * k + 1" by (rule oddE)
  then show ?thesis by (simp add: rtc_at_def)
qed

lemma even_time: "((of_nat (10 + n) :: u64) mod 2 = 0) = even n"
proof -
  have "(of_nat (10 + n) :: u64) mod 2 = 0 \<longleftrightarrow> even (of_nat (10 + n) :: u64)" by (rule even_iff_mod_2_eq_zero [symmetric])
  also have "\<dots> \<longleftrightarrow> even n" by simp
  finally show ?thesis .
qed

lemma cycle_step:
  assumes "at_cycle tr n m s"
  shows "at_cycle tr (Suc n) (drive S [(1, 0, rtc_at n), (1, 1, rtc_at n)] m) (cycle S tr s)"
proof -
  have st: "stamps tr (11 + n) = stamps tr (10 + n) @ (if tr then [20 + of_nat n * 2, 21 + of_nat n * 2] else [])"
    using stamps_Suc [of tr "10 + n"] by (simp add: mult.commute)
  have "((10 + of_nat n :: u64) mod 2 = 0) = even n" using even_time [of n] by simp
  then show ?thesis
    using assms
    by (cases "even n")
      (simp_all add: at_cycle_def cycle_def dump_def top_eval_def drive_def Let_def rtc_at_Suc st)
qed

lemma cycles_steps:
  "at_cycle tr 0 m s \<Longrightarrow> at_cycle tr n (drive S (stim_run n) m) ((cycle S tr ^^ n) s)"
proof (induction n)
  case 0
  then show ?case by (simp add: stim_run_def drive_def)
next
  case (Suc n)
  from cycle_step [OF Suc.IH [OF Suc.prems], of S] show ?case by (simp add: stim_run_def drive_def)
qed

lemma upper_bits: "drop_bit 1 w = drop_bit 1 (w AND 0xFFFFFFFE)" for w :: u32
proof -
  have "drop_bit 1 w = drop_bit 1 (w AND NOT 1)"
  proof (rule bit_word_eqI)
    fix n
    have "bit w (1 + n) \<Longrightarrow> bit (NOT (1 :: u32)) (1 + n)"
      using bit_imp_le_length [of w "1 + n"] by (simp only: bit_not_iff possible_bit_word bit_1_iff) simp
    then show "bit (drop_bit 1 w) n = bit (drop_bit 1 (w AND NOT 1)) n"
      by (auto simp only: bit_drop_bit_eq bit_and_iff o_def)
  qed
  moreover have "NOT 1 = (0xFFFFFFFE :: u32)" by simp
  ultimately show ?thesis by (simp only:)
qed

section \<open>The loop\<close>

lemma run_loop_first:
  assumes "\<And>k. k < n \<Longrightarrow> \<not> finished S ((cycle S tr ^^ k) s)" "finished S ((cycle S tr ^^ n) s)"
  shows "run_loop S tr s = Some ((cycle S tr ^^ n) s)"
proof -
  have "(LEAST k. finished S ((cycle S tr ^^ k) s)) = n"
    using assms by (intro Least_equality) (auto simp: not_less [symmetric])
  then show ?thesis using assms(2) by (auto simp: run_loop_def while_option_def)
qed

lemma run_loop_returns: "run_loop S tr s \<noteq> None \<longleftrightarrow> (\<exists>n. finished S ((cycle S tr ^^ n) s))"
  by (simp add: run_loop_def while_option_def)

text \<open>The state in which the loop begins.\<close>

definition sim_begin :: "'m harness \<Rightarrow> bool \<Rightarrow> opts \<Rightarrow> string list \<Rightarrow> elf \<Rightarrow> 'm sim" where
  "sim_begin S tr os htif_argv g =
     (let s = reset_loop S tr 10 \<lparr>rst_ni = 0, clk_i = 0, rtc_i = 0, inner = h_start S (rbb_port os) htif_argv,
            main_time = 0, dumped = []\<rparr> in
      s\<lparr>rst_ni := 1, inner := snd (preload S g (inner s))\<rparr>)"

lemma simulate_begin:
  "simulate S tr os htif_argv g = map_option
     (\<lambda>s. let (ret, os) = bench_verdict S (inner s) os in ((ret, print_times os), s))
     (run_loop S tr (sim_begin S tr os htif_argv g))"
  by (cases "run_loop S tr (sim_begin S tr os htif_argv g)") (simp_all add: simulate_def sim_begin_def Let_def split: prod.split)

definition loaded :: "'m harness \<Rightarrow> opts \<Rightarrow> string list \<Rightarrow> elf \<Rightarrow> 'm" where
  "loaded S os htif_argv g = snd (preload S g (drive S stim_reset (h_start S (rbb_port os) htif_argv)))"

lemma sim_begin_at: "at_cycle tr 0 (loaded S os htif_argv g) (sim_begin S tr os htif_argv g)"
proof -
  let ?s = "\<lparr>rst_ni = 0, clk_i = 0, rtc_i = 0, inner = h_start S (rbb_port os) htif_argv, main_time = 0, dumped = []\<rparr>"
  have "in_reset tr 0 (h_start S (rbb_port os) htif_argv) ?s" by (simp add: in_reset_def stamps_def)
  from reset_loop_steps [OF this, where n = 10 and S = S] show ?thesis
    by (simp add: in_reset_def at_cycle_def sim_begin_def loaded_def stim_reset_def rtc_at_def Let_def)
qed

text \<open>
  Claim C21: the simulation ends exactly if the simulated system, driven with ten cycles of reset and
  then with clock cycles out of reset, ever raises its exit flag or has the host interface
  or the JTAG server report that they are done. The option for a maximal number of cycles has no
  influence.
\<close>

theorem simulation_ends:
  "simulate S tr os htif_argv g \<noteq> None \<longleftrightarrow>
     (\<exists>n. over S (drive S (stim_run n)
        (snd (preload S g (drive S stim_reset (h_start S (rbb_port os) htif_argv))))))"
proof -
  let ?s = "sim_begin S tr os htif_argv g"
  have fin: "finished S ((cycle S tr ^^ n) ?s) = over S (drive S (stim_run n) (loaded S os htif_argv g))" for n
    using cycles_steps [OF sim_begin_at [of tr S os htif_argv g], where n = n and S = S] by (simp add: finished_over at_cycle_def)
  show ?thesis using run_loop_returns [of S tr ?s] by (simp add: simulate_begin fin loaded_def)
qed

text \<open>
  Claim C12: a simulation that is over after \<open>n\<close> cycles, and not before, returns. The system has then
  seen exactly the stimulus, the time is \<open>10 + n\<close>, and with tracing there is one dump for every
  evaluation, with consecutive time stamps. The returned value is the code of the host interface if it is
  not 0, else that of the JTAG server if it is not 0, else the upper bits of the exit register.
\<close>

theorem simulation_follows_stimulus:
  assumes "m = snd (preload S g (drive S stim_reset (h_start S (rbb_port os) htif_argv)))"
    and "\<And>k. k < n \<Longrightarrow> \<not> over S (drive S (stim_run k) m)" and "over S (drive S (stim_run n) m)"
  shows "\<exists>s os'. simulate S tr os htif_argv g =
      Some ((let x = inner s in if h_dtm_exit S x \<noteq> 0 then h_dtm_exit S x else if h_jtag_exit S x \<noteq> 0 then h_jtag_exit S x
        else uint (drop_bit 1 (h_exit S x)), os'), s) \<and>
    inner s = drive S (stim_run n) m \<and> main_time s = of_nat (10 + n) \<and>
    dumped s = (if tr then map of_nat [0..<20 + 2 * n] else [])"
proof -
  let ?b = "sim_begin S tr os htif_argv g"
  define s where "s = (cycle S tr ^^ n) ?b"
  have at: "at_cycle tr k (drive S (stim_run k) m) ((cycle S tr ^^ k) ?b)" for k
    using cycles_steps [OF sim_begin_at [of tr S os htif_argv g], where n = k and S = S] by (simp add: loaded_def assms(1))
  have "run_loop S tr ?b = Some s"
    unfolding s_def using at assms(2,3) by (intro run_loop_first) (simp_all add: finished_over at_cycle_def)
  moreover have "drop_bit 1 (h_exit S x) = 0" if "h_exit S x AND 0xFFFFFFFE = 0" for x
    using upper_bits [of "h_exit S x"] that by simp
  ultimately have "\<exists>os'. simulate S tr os htif_argv g =
      Some ((let x = inner s in if h_dtm_exit S x \<noteq> 0 then h_dtm_exit S x else if h_jtag_exit S x \<noteq> 0 then h_jtag_exit S x
        else uint (drop_bit 1 (h_exit S x)), os'), s)"
    by (auto simp: simulate_begin bench_verdict_def Let_def)
  then show ?thesis using at [of n] by (auto simp: s_def at_cycle_def stamps_def)
qed

text \<open>A system that counts the rising clock edges out of reset and raises its exit register at the third.\<close>

definition count_harness :: "nat harness" where
  "count_harness = \<lparr>h_start = (\<lambda>_ _. 0), h_eval = (\<lambda>(r, c, _) m. if r = 1 \<and> c = 1 then m + 1 else m),
     h_exit = (\<lambda>m. if 3 \<le> m then 11 else 0), h_dtm_done = (\<lambda>_. False), h_dtm_exit = (\<lambda>_. 0), h_dtm_stop = id,
     h_jtag_done = (\<lambda>_. False), h_jtag_exit = (\<lambda>_. 0), read_section_void = (\<lambda>_ _ _ m. m)\<rparr>"

lemma count_run: "drive count_harness (stim_run n) m = m + n"
  by (induction n) (simp_all add: stim_run_def drive_def count_harness_def)

lemma count_reset: "drive count_harness stim_reset m = m"
  by (simp add: stim_reset_def drive_def count_harness_def numeral_eq_Suc)

definition no_elf :: elf where
  "no_elf = \<lparr>sections = [], symbols = Map.empty, mems = Map.empty, entry = 0, section_index = 0\<rparr>"

lemma no_elf_preload: "preload S no_elf m = (no_elf, m)"
  by (subst preload.simps) (simp add: no_elf_def get_section_def)

theorem simulation_follows_stimulus_witness:
  "\<exists>s os'. simulate count_harness True (main_opts False False 0) [''sim'', ''a.elf''] no_elf = Some ((5, os'), s) \<and> main_time s = 13"
proof -
  let ?m = "snd (preload count_harness no_elf (drive count_harness stim_reset
    (h_start count_harness (rbb_port (main_opts False False 0)) [''sim'', ''a.elf''])))"
  have m: "?m = 0" unfolding no_elf_preload count_reset by (simp add: count_harness_def)
  have run: "drive count_harness (stim_run k) ?m = k" for k unfolding m by (simp add: count_run)
  have "\<And>k. k < 3 \<Longrightarrow> \<not> over count_harness (drive count_harness (stim_run k) ?m)"
    "over count_harness (drive count_harness (stim_run 3) ?m)"
    unfolding run by (simp_all add: over_def count_harness_def)
  from simulation_follows_stimulus [OF refl this, where tr = True] obtain s os' where
    "simulate count_harness True (main_opts False False 0) [''sim'', ''a.elf''] no_elf =
      Some ((let x = inner s in if h_dtm_exit count_harness x \<noteq> 0 then h_dtm_exit count_harness x
        else if h_jtag_exit count_harness x \<noteq> 0 then h_jtag_exit count_harness x
        else uint (drop_bit 1 (h_exit count_harness x)), os'), s)"
    "inner s = 3" "main_time s = of_nat (10 + 3)" unfolding run by blast
  then show ?thesis by (simp add: count_harness_def)
qed

section \<open>Preloading\<close>

text \<open>
  The preload loop ends, uses up the sections, and loads the memory once for each section at
  \<open>0x80000000\<close> and for no other section: what the file holds elsewhere is not loaded.
\<close>

theorem preload_dram_only:
  "\<exists>gs. length gs = length (filter (\<lambda>(a, n). a = 0x80000000) (drop (section_index g) (sections g))) \<and>
     list_all (\<lambda>g'. sections g' = sections g \<and> mems g' = mems g) gs \<and>
     preload S g m = (g\<lparr>section_index := max (section_index g) (length (sections g))\<rparr>,
       foldl (\<lambda>m g'. read_section_void S 0x80000000 0xFFFFFF g' m) m gs)"
proof (induction S g m rule: preload.induct)
  case (1 S g m)
  show ?case
  proof (cases "section_index g < length (sections g)")
    case True
    let ?g = "g\<lparr>section_index := section_index g + 1\<rparr>"
    obtain a n where sec: "sections g ! section_index g = (a, n)" by force
    have d: "drop (section_index g) (sections g) = (a, n) # drop (section_index ?g) (sections ?g)"
      using True sec Cons_nth_drop_Suc [OF True] by simp
    have get: "get_section g = ((1, Some (a, n)), ?g)" using True sec by (simp add: get_section_def)
    let ?m = "if a = 0x80000000 then read_section_void S a 0xFFFFFF ?g m else m"
    obtain gs where gs: "length gs = length (filter (\<lambda>(a, n). a = 0x80000000) (drop (section_index ?g) (sections ?g)))"
      "list_all (\<lambda>g'. sections g' = sections ?g \<and> mems g' = mems ?g) gs"
      "preload S ?g ?m = (?g\<lparr>section_index := max (section_index ?g) (length (sections ?g))\<rparr>,
         foldl (\<lambda>m g'. read_section_void S 0x80000000 0xFFFFFF g' m) ?m gs)"
      using 1 [OF get [symmetric] refl refl refl] by blast
    have step: "preload S g m = preload S ?g ?m" using get by (subst preload.simps) simp
    show ?thesis
      using gs True by (intro exI [of _ "if a = 0x80000000 then ?g # gs else gs"]) (simp add: step d max_def)
  next
    case False
    then show ?thesis by (intro exI [of _ "[]"]) (subst preload.simps, simp add: get_section_def max_def)
  qed
qed

end
