(* ===== verification/Tb_Top.thy ===== *)
theory Tb_Top
  imports Boot_Prelude "HOL-Library.While_Combinator"
begin

text \<open>
  \<open>corev_apu/riscv-dbg/tb/tb_top_verilator.cpp\<close>, the Verilator driver of the debug test bench: it dumps the
  memory image to a file and then toggles the clock until the simulated program ends. The
  simulated hardware is a parameter, and so is whether each operation on the file succeeds.
\<close>

section \<open>Model\<close>

text \<open>The input pins \<open>fetch_enable_i\<close>, \<open>clk_i\<close> and \<open>rst_ni\<close>.\<close>

type_synonym tb_inputs = "u8 \<times> u8 \<times> u8"

record 'm tb_hw =
  hw_new :: 'm
  hw_eval :: "tb_inputs \<Rightarrow> 'm \<Rightarrow> 'm"
  got_finish :: "'m \<Rightarrow> bool"
  read_byte :: "u32 \<Rightarrow> 'm \<Rightarrow> u32"

record 'm tb =
  tb_fetch :: u8
  tb_clk :: u8
  tb_rst :: u8
  tb_inner :: 'm
  tb_time :: u64
  tb_wave :: "u64 list"

datatype file_op = Open_File | Write_Line nat | Close_File

definition tb_eval :: "'m tb_hw \<Rightarrow> 'm tb \<Rightarrow> 'm tb" where
  "tb_eval H s = s\<lparr>tb_inner := hw_eval H (tb_fetch s, tb_clk s, tb_rst s) (tb_inner s)\<rparr>"

text \<open>\<open>std::setfill('0') << std::setw(2) << std::hex << val << std::endl\<close>\<close>

definition hex_digit :: "nat \<Rightarrow> char" where
  "hex_digit n = ''0123456789abcdef'' ! (n mod 16)"

fun hex_text :: "nat \<Rightarrow> string" where
  "hex_text n = (if n < 16 then [hex_digit n] else hex_text (n div 16) @ [hex_digit n])"

declare hex_text.simps [simp del]

definition hex_line :: "u32 \<Rightarrow> string" where
  "hex_line val =
     (let t = hex_text (unat val) in replicate (2 - length t) (CHR ''0'') @ t @ [CHR 0x0A])"

text \<open>The loop of \<open>dump_memory\<close>, with the contents of the file; \<open>False\<close> if an exception ends it.\<close>

function dump_loop :: "'m tb_hw \<Rightarrow> (file_op \<Rightarrow> bool) \<Rightarrow> 'm \<Rightarrow> nat \<Rightarrow> nat \<Rightarrow> string \<Rightarrow> bool \<times> string" where
  "dump_loop H ok m i n f =
     (if i < n then
        (if ok (Write_Line i) then dump_loop H ok m (i + 1) n (f @ hex_line (read_byte H (of_nat i) m))
         else (False, f))
      else (True, f))"
  by pat_completeness auto
termination
  by (relation "measure (\<lambda>(H, ok, m, i, n, f). n - i)") auto

declare dump_loop.simps [simp del]

text \<open>\<open>dump_memory\<close>: the file, if it could be opened, and the message printed.\<close>

definition dump_memory :: "'m tb_hw \<Rightarrow> (file_op \<Rightarrow> bool) \<Rightarrow> 'm \<Rightarrow> string option \<times> string" where
  "dump_memory H ok m =
     (let failed = ''exception opening/reading/closing file memory_dump.bin'' in
      if ok Open_File then
        (let (good, f) = dump_loop H ok m 0 1048576 [] in
         if good \<and> ok Close_File then (Some f, ''finished dumping memory'') else (Some f, failed))
      else (None, failed))"

definition tb_cycle :: "'m tb_hw \<Rightarrow> bool \<Rightarrow> 'm tb \<Rightarrow> 'm tb" where
  "tb_cycle H vcd s =
     (let s = (if tb_time s > 40 then s\<lparr>tb_rst := 1\<rparr> else s);
          s = s\<lparr>tb_clk := (if tb_clk s = 0 then 1 else 0)\<rparr>;
          s = tb_eval H s;
          s = (if vcd then s\<lparr>tb_wave := tb_wave s @ [tb_time s]\<rparr> else s) in
      s\<lparr>tb_time := tb_time s + 5\<rparr>)"

definition tb_loop :: "'m tb_hw \<Rightarrow> bool \<Rightarrow> 'm tb \<Rightarrow> 'm tb option" where
  "tb_loop H vcd = while_option (\<lambda>s. \<not> got_finish H (tb_inner s)) (tb_cycle H vcd)"

definition tb_time_stamp :: "'m tb \<Rightarrow> u64" where
  "tb_time_stamp s = tb_time s"

text \<open>\<open>main\<close>, with the exit status, the dump and the final state.\<close>

definition tb_main ::
    "'m tb_hw \<Rightarrow> (file_op \<Rightarrow> bool) \<Rightarrow> bool \<Rightarrow> (int \<times> (string option \<times> string) \<times> 'm tb) option" where
  "tb_main H ok vcd = do {
     let s = \<lparr>tb_fetch = 1, tb_clk = 0, tb_rst = 0, tb_inner = hw_new H, tb_time = 0, tb_wave = []\<rparr>;
     let s = tb_eval H s;
     let d = dump_memory H ok (tb_inner s);
     s \<leftarrow> tb_loop H vcd s;
     Some (0, d, s)
   }"

section \<open>The dump\<close>

text \<open>Reading a dump back: the numbers of its lines.\<close>

fun read_dump :: "nat \<Rightarrow> string \<Rightarrow> nat list" where
  "read_dump v [] = []"
| "read_dump v (c # cs) =
     (if c = CHR 0x0A then v # read_dump 0 cs
      else read_dump (16 * v + (let n = of_char c in if n < 58 then n - 48 else n - 87)) cs)"

lemma hex_digit_cases: "n < 16 \<Longrightarrow> hex_digit n \<noteq> CHR 0x0A \<and>
  (let k = of_char (hex_digit n) :: nat in if k < 58 then k - 48 else k - 87) = n"
proof -
  assume "n < 16"
  then have "n = 0 \<or> n = 1 \<or> n = 2 \<or> n = 3 \<or> n = 4 \<or> n = 5 \<or> n = 6 \<or> n = 7 \<or>
      n = 8 \<or> n = 9 \<or> n = 10 \<or> n = 11 \<or> n = 12 \<or> n = 13 \<or> n = 14 \<or> n = 15" by arith
  then show ?thesis by (elim disjE) (simp_all add: hex_digit_def)
qed

lemma hex_digit_mod: "hex_digit n = hex_digit (n mod 16)"
  by (simp add: hex_digit_def)

lemma read_dump_digit: "read_dump v (hex_digit n # cs) = read_dump (16 * v + n mod 16) cs"
  using hex_digit_cases [of "n mod 16"] hex_digit_mod [of n] by (simp add: Let_def split: if_splits)

lemma read_dump_hex: "\<exists>k. read_dump v (hex_text n @ cs) = read_dump (v * 16 ^ k + n) cs"
proof (induction n arbitrary: v cs rule: hex_text.induct)
  case (1 n)
  show ?case
  proof (cases "n < 16")
    case True
    then show ?thesis by (subst hex_text.simps) (auto simp: read_dump_digit mult.commute simp del: read_dump.simps intro!: exI [of _ 1])
  next
    case False
    obtain k where "read_dump v (hex_text (n div 16) @ [hex_digit n] @ cs) = read_dump (v * 16 ^ k + n div 16) ([hex_digit n] @ cs)"
      using 1 False by blast
    moreover have "16 * (v * 16 ^ k + n div 16) + n mod 16 = v * 16 ^ Suc k + n" by (simp add: algebra_simps)
    ultimately show ?thesis using False by (subst hex_text.simps) (auto simp: read_dump_digit ac_simps simp del: read_dump.simps intro!: exI [of _ "Suc k"])
  qed
qed

lemma read_dump_zeros: "read_dump 0 (replicate k (CHR ''0'') @ cs) = read_dump 0 cs"
  by (induction k) simp_all

lemma read_dump_line: "read_dump 0 (hex_line val @ cs) = unat val # read_dump 0 cs"
  using read_dump_hex [of 0 "unat val" "CHR 0x0A # cs"] by (auto simp: hex_line_def Let_def read_dump_zeros)

lemma dump_loop_eq:
  "i \<le> k \<Longrightarrow> k \<le> n \<Longrightarrow> (\<And>j. i \<le> j \<Longrightarrow> j < k \<Longrightarrow> ok (Write_Line j)) \<Longrightarrow> (k < n \<Longrightarrow> \<not> ok (Write_Line k)) \<Longrightarrow>
   dump_loop H ok m i n f = (k = n, f @ concat (map (\<lambda>j. hex_line (read_byte H (of_nat j) m)) [i..<k]))"
proof (induction "k - i" arbitrary: i f)
  case 0
  then show ?case by (subst dump_loop.simps) auto
next
  case (Suc d)
  have i: "i < k" "i < n" using Suc(2-4) by auto
  then have "dump_loop H ok m i n f = dump_loop H ok m (i + 1) n (f @ hex_line (read_byte H (of_nat i) m))"
    using Suc(5) [of i] by (subst dump_loop.simps) simp
  also have "\<dots> = (k = n, (f @ hex_line (read_byte H (of_nat i) m)) @
      concat (map (\<lambda>j. hex_line (read_byte H (of_nat j) m)) [i + 1..<k]))"
    using Suc by (intro Suc(1)) auto
  finally show ?case using i upt_conv_Cons [of i k] by simp
qed

lemma read_dump_lines:
  "read_dump 0 (concat (map (\<lambda>j. hex_line (f j)) js)) = map (\<lambda>j. unat (f j)) js"
  by (induction js) (simp_all add: read_dump_line)

text \<open>
  Claim C25: \<open>dump_memory\<close> always returns and handles every failure of the file itself. If the file can
  be opened and line \<open>k\<close> is the first that cannot be written, the file holds the first \<open>k\<close> bytes of the memory,
  two hexadecimal digits to a line, and reading them back gives these bytes. The dump is reported
  as finished exactly if all of the 1048576 lines were written and the file was closed.
\<close>

theorem dump_reads_back:
  assumes "ok Open_File" and "k \<le> 1048576" and "\<And>j. j < k \<Longrightarrow> ok (Write_Line j)"
    and "k < 1048576 \<Longrightarrow> \<not> ok (Write_Line k)"
  shows "\<exists>f. fst (dump_memory H ok m) = Some f \<and>
      read_dump 0 f = map (\<lambda>j. unat (read_byte H (of_nat j) m)) [0..<k] \<and>
      (snd (dump_memory H ok m) = ''finished dumping memory'' \<longleftrightarrow> k = 1048576 \<and> ok Close_File)"
  using dump_loop_eq [of 0 k 1048576 ok H m "[]"] assms
  by (simp add: dump_memory_def Let_def read_dump_lines)

definition demo_hw :: "nat tb_hw" where
  "demo_hw = \<lparr>hw_new = 0, hw_eval = (\<lambda>_ m. m + 1), got_finish = (\<lambda>m. 20 \<le> m), read_byte = (\<lambda>a m. a + 10)\<rparr>"

theorem dump_reads_back_witness:
  "\<exists>f. fst (dump_memory demo_hw (\<lambda>x. x \<noteq> Write_Line 3) 0) = Some f \<and> read_dump 0 f = [10, 11, 12]"
  using dump_reads_back [of "\<lambda>x. x \<noteq> Write_Line 3" 3 demo_hw 0] by (auto simp: demo_hw_def upt_rec)

section \<open>The clock\<close>

text \<open>The pins at the \<open>n\<close>-th evaluation of the loop.\<close>

definition tb_stim :: "nat \<Rightarrow> tb_inputs" where
  "tb_stim n = (1, if even n then 1 else 0, if 9 \<le> n then 1 else 0)"

definition tb_drive :: "'m tb_hw \<Rightarrow> nat \<Rightarrow> 'm" where
  "tb_drive H n = foldl (\<lambda>m p. hw_eval H p m) (hw_eval H (1, 0, 0) (hw_new H)) (map tb_stim [0..<n])"

definition tb_at :: "'m tb_hw \<Rightarrow> bool \<Rightarrow> nat \<Rightarrow> 'm tb \<Rightarrow> bool" where
  "tb_at H vcd n s \<longleftrightarrow> tb_fetch s = 1 \<and> tb_clk s = (if even n then 0 else 1) \<and> tb_rst s = (if 10 \<le> n then 1 else 0) \<and>
     tb_inner s = tb_drive H n \<and> tb_time s = of_nat (5 * n) \<and> tb_wave s = (if vcd then map (\<lambda>k. of_nat (5 * k)) [0..<n] else [])"

lemma tb_late: "n < 10 \<Longrightarrow> (40 < (of_nat (5 * n) :: u64)) = (9 \<le> n)"
proof -
  assume "n < 10"
  then have "unat (of_nat (5 * n) :: u64) = 5 * n" by (simp only: unat_of_nat) simp
  then show ?thesis by (auto simp: word_less_nat_alt)
qed

lemma tb_cycle_step:
  assumes "tb_at H vcd n s"
  shows "tb_at H vcd (Suc n) (tb_cycle H vcd s)"
proof -
  have rst: "(if 40 < tb_time s then 1 else tb_rst s) = (if 9 \<le> n then 1 else 0)"
    using assms tb_late [of n] by (cases "n < 10") (auto simp: tb_at_def)
  have cycle: "tb_cycle H vcd s = s\<lparr>tb_rst := (if 40 < tb_time s then 1 else tb_rst s), tb_clk := (if tb_clk s = 0 then 1 else 0),
      tb_inner := hw_eval H (tb_fetch s, if tb_clk s = 0 then 1 else 0, if 40 < tb_time s then 1 else tb_rst s) (tb_inner s),
      tb_wave := (if vcd then tb_wave s @ [tb_time s] else tb_wave s), tb_time := tb_time s + 5\<rparr>"
    by (simp add: tb_cycle_def tb_eval_def Let_def)
  show ?thesis
    unfolding cycle rst using assms by (auto simp: tb_at_def tb_drive_def tb_stim_def algebra_simps)
qed

text \<open>
  The driver returns exactly if the simulated program finishes, with exit status 0. Until then
  every evaluation toggles the clock, starting with a rising edge, the reset is held for the
  first nine and released for good from the tenth on, and the time advances by 5.
\<close>

theorem tb_main_drives:
  "(tb_main H ok vcd \<noteq> None \<longleftrightarrow> (\<exists>n. got_finish H (tb_drive H n))) \<and>
   (case tb_main H ok vcd of None \<Rightarrow> True
    | Some (r, d, s) \<Rightarrow> r = 0 \<and> d = dump_memory H ok (tb_drive H 0) \<and>
        (\<exists>n. got_finish H (tb_drive H n) \<and> list_all (\<lambda>k. \<not> got_finish H (tb_drive H k)) [0..<n] \<and>
           tb_inner s = tb_drive H n \<and> tb_time s = of_nat (5 * n)))"
proof -
  let ?s = "tb_eval H \<lparr>tb_fetch = 1, tb_clk = 0, tb_rst = 0, tb_inner = hw_new H, tb_time = 0, tb_wave = []\<rparr>"
  let ?f = "tb_cycle H vcd"
  have at: "tb_at H vcd n ((?f ^^ n) ?s)" for n
  proof (induction n)
    case 0
    show ?case by (simp add: tb_at_def tb_eval_def tb_drive_def)
  next
    case (Suc n)
    then show ?case by (simp add: tb_cycle_step)
  qed
  then have inner: "tb_inner ((?f ^^ n) ?s) = tb_drive H n" "tb_time ((?f ^^ n) ?s) = of_nat (5 * n)" for n
    by (simp_all add: tb_at_def)
  show ?thesis
  proof (cases "\<exists>n. got_finish H (tb_drive H n)")
    case True
    define n where "n = (LEAST n. got_finish H (tb_drive H n))"
    have fin: "got_finish H (tb_drive H n)" unfolding n_def using True by (rule LeastI_ex)
    moreover have "list_all (\<lambda>k. \<not> got_finish H (tb_drive H k)) [0..<n]"
      unfolding n_def by (auto simp: list_all_iff dest: not_less_Least)
    moreover have "tb_loop H vcd ?s = Some ((?f ^^ n) ?s)"
      using True by (simp add: tb_loop_def while_option_def inner n_def)
    ultimately show ?thesis using True inner [of n] inner(1) [of 0] by (auto simp: tb_main_def Let_def)
  next
    case False
    then have "tb_loop H vcd ?s = None" by (simp add: tb_loop_def while_option_def inner)
    then show ?thesis using False by (simp add: tb_main_def Let_def)
  qed
qed

end
