(* ===== verification/Boot_Start.thy ===== *)
theory Boot_Start
  imports Riscv_Core Smp
begin

text \<open>
  The machine code at the start of \<open>corev_apu/fpga/src/bootrom/bootrom_64.h\<close>, the image of the FPGA
  boot loader that the hardware executes: \<open>_prog_start\<close> of \<open>startup.S\<close> with the macros of \<open>smp.h\<close>
  assembled. Several harts run it, one instruction at a time in any order, on the CLINT's
  \<open>msip\<close> registers, and the program that hart 0 loads runs beside it. Every instruction of the image
  is a step of the protocol of \<open>Smp\<close> or none.
\<close>

section \<open>The image\<close>

definition boot_start :: "u32 list" where
  "boot_start =
    [0x00800913, 0x30491073, 0x00000493, 0xf1402973, 0x03249663, 0x0210011b, 0x01a11113, 0x303000ef,
     0x020004b7, 0x00100913, 0x0124a023, 0x00448493, 0x02000937, 0x4009091b, 0xff24c6e3, 0x10500073,
     0x34402973, 0x00897913, 0xfe090ae3, 0x020004b7, 0xf1402973, 0x00291913, 0x00990933, 0x00092023,
     0x0004a903, 0xfe091ee3, 0x00448493, 0x02000937, 0x4009091b, 0xff24c6e3, 0xf1402573, 0x00001597,
     0xc8458593, 0x0010049b, 0x01f49493, 0x00048067]"

definition boot_code :: "insn list" where
  "boot_code =
    [Addi 18 0 8, Csrrw 0 0x304 18, Addi 9 0 0, Csrrs 18 0xf14 0, Bne 9 18 44,
     Addiw 2 0 33, Slli 2 2 26, Jal 1 0xb02,
     Lui 9 0x2000000, Addi 18 0 1, Sw 18 9 0, Addi 9 9 4, Lui 18 0x2000000, Addiw 18 18 0x400, Blt 9 18 (-20),
     Wfi, Csrrs 18 0x344 0, Andi 18 18 8, Beq 18 0 (-12),
     Lui 9 0x2000000, Csrrs 18 0xf14 0, Slli 18 18 2, Add 18 18 9, Sw 0 18 0,
     Lw 18 9 0, Bne 18 0 (-4), Addi 9 9 4, Lui 18 0x2000000, Addiw 18 18 0x400, Blt 9 18 (-20),
     Csrrs 10 0xf14 0, Auipc 11 0x1000, Addi 11 11 (-892), Addiw 9 0 1, Slli 9 9 31, Jalr 0 9 0]"

lemma boot_start_decoded: "map decode boot_start = map Some boot_code"
  by (simp add: boot_start_def boot_code_def decode_simps)

section \<open>The machine\<close>

text \<open>
  The CLINT of \<open>Smp\<close> behind its addresses. Bit 3 of a hart's \<open>mip\<close> shows its register; the other bits
  are up to the rest of the hardware, \<open>ip\<close>.
\<close>

definition clint_index :: "u64 \<Rightarrow> nat" where
  "clint_index a = unat (a - 0x2000000) div 4"

definition clint_bus :: "nat \<Rightarrow> bool \<Rightarrow> (u64 \<Rightarrow> (nat \<Rightarrow> bool) \<Rightarrow> u64) \<Rightarrow> (nat \<Rightarrow> bool) bus" where
  "clint_bus H x ip = \<lparr>bus_lbu = \<lambda>a r. (0, r),
     bus_lw = \<lambda>a r. (if clint_lw H x (clint_index a) r then 1 else 0, r),
     bus_sw = \<lambda>a v r. clint_write H (clint_index a) (v AND 1 = 1) r,
     bus_mip = \<lambda>i r. (if r (unat i) then 8 else 0) OR (ip i r AND NOT 8)\<rparr>"

record machine =
  sip :: "nat \<Rightarrow> bool"
  harts :: "nat \<Rightarrow> hart"
  inprog :: "nat \<Rightarrow> bool"

text \<open>
  The image is at \<open>ROM_BASE\<close>. A hart executes the instruction at its program counter; at the first
  instruction of \<open>main\<close> it runs \<open>main\<close>, which does not touch the CLINT (\<open>main\<close> is the subject of
  \<open>Boot\<close>). The \<open>main\<close> of the repository does not return to the start code: it jumps to the loaded program
  at \<open>DRAM_BASE\<close>, with registers that are left open here, or stays in a loop for ever. A hart that has
  reached \<open>DRAM_BASE\<close> enters the program (\<open>inprog\<close>). What the program then does is unknown: it may do
  anything with its hart and set or clear the software interrupts of the harts in \<open>W\<close>.
\<close>

definition rom_base :: u64 where "rom_base = 0x10000"
definition main_entry :: u64 where "main_entry = 0x10b1e"
definition dtb_addr :: u64 where "dtb_addr = 0x10d00"

inductive machine_step ::
    "nat \<Rightarrow> bool \<Rightarrow> (u64 \<Rightarrow> (nat \<Rightarrow> bool) \<Rightarrow> u64) \<Rightarrow> nat set \<Rightarrow> machine \<Rightarrow> machine \<Rightarrow> bool"
  for H x ip W where
  machine_insn: "i < H \<Longrightarrow> \<not> inprog m i \<Longrightarrow>
    step (clint_bus H x ip) boot_start rom_base (harts m i, sip m) = Some (e, h, r) \<Longrightarrow>
    machine_step H x ip W m (m\<lparr>sip := r, harts := (harts m)(i := h)\<rparr>)"
| machine_main: "i < H \<Longrightarrow> \<not> inprog m i \<Longrightarrow> hpc (harts m i) = main_entry \<Longrightarrow> hpc h = 0x80000000 \<Longrightarrow>
    machine_step H x ip W m (m\<lparr>harts := (harts m)(i := h)\<rparr>)"
| machine_enter: "i < H \<Longrightarrow> \<not> inprog m i \<Longrightarrow> hpc (harts m i) = 0x80000000 \<Longrightarrow>
    machine_step H x ip W m (m\<lparr>inprog := (inprog m)(i := True)\<rparr>)"
| machine_prog: "i < H \<Longrightarrow> inprog m i \<Longrightarrow> \<forall>k. k \<in> W \<and> k < H \<or> r k = sip m k \<Longrightarrow>
    machine_step H x ip W m (m\<lparr>sip := r, harts := (harts m)(i := h)\<rparr>)"

text \<open>Reset: every hart at the first instruction, the other registers unknown, no interrupt pending.\<close>

definition machine_reset :: "nat \<Rightarrow> machine \<Rightarrow> bool" where
  "machine_reset H m \<longleftrightarrow> sip m = (\<lambda>_. False) \<and> inprog m = (\<lambda>_. False) \<and>
     (\<forall>i < H. hpc (harts m i) = rom_base \<and> csregs (harts m i) 0xf14 = of_nat i)"

section \<open>Where a hart is\<close>

definition insn_at :: "nat \<Rightarrow> u64" where "insn_at n = rom_base + of_nat (4 * n)"
definition clint_addr :: "nat \<Rightarrow> u64" where "clint_addr k = of_nat (0x2000000 + 4 * k)"

text \<open>
  What the registers \<open>s1\<close>, \<open>s2\<close>, \<open>a0\<close> and \<open>a1\<close> hold before instruction \<open>n\<close> of the image, for hart
  \<open>i\<close> at place \<open>p\<close> of the protocol and register number \<open>k\<close> in a loop.
\<close>

definition boot_place :: "nat \<Rightarrow> smp_pc" where
  "boot_place i = (if i = 0 then SMain else SSleep)"

definition placed :: "nat \<Rightarrow> nat \<Rightarrow> smp_pc \<Rightarrow> nat \<Rightarrow> (nat \<Rightarrow> u64) \<Rightarrow> bool" where
  "placed i n p k x =
    (if n \<le> 2 then p = boot_place i
     else if n = 3 then p = boot_place i \<and> x 9 = 0
     else if n = 4 then p = boot_place i \<and> x 9 = 0 \<and> x 18 = of_nat i
     else if n \<le> 7 then i = 0 \<and> p = SMain
     else if n = 8 then p = SSend 0
     else if n \<le> 10 then p = SSend k \<and> k < 256 \<and> x 9 = clint_addr k \<and> (n = 10 \<longrightarrow> x 18 = 1)
     else if n \<le> 14 then p = smp_next_send 256 k \<and> k < 256 \<and> x 9 = clint_addr (if n = 11 then k else k + 1) \<and>
       (n = 13 \<longrightarrow> x 18 = clint_addr 0) \<and> (n = 14 \<longrightarrow> x 18 = clint_addr 256)
     else if n \<le> 16 then p = SSleep
     else if n = 17 then p = (if x 18 AND 8 = 0 then SSleep else SAck)
     else if n = 18 then p = (if x 18 = 0 then SSleep else SAck)
     else if n \<le> 23 then p = SAck \<and> (n > 19 \<longrightarrow> x 9 = clint_addr 0) \<and>
       (n = 21 \<longrightarrow> x 18 = of_nat i) \<and> (n = 22 \<longrightarrow> x 18 = of_nat (4 * i)) \<and> (n = 23 \<longrightarrow> x 18 = clint_addr i)
     else if n = 24 then p = SCheck k \<and> k < 256 \<and> x 9 = clint_addr k
     else if n = 25 then p = (if x 18 = 0 then smp_next_check 256 k else SCheck k) \<and> k < 256 \<and> x 9 = clint_addr k
     else if n \<le> 29 then p = smp_next_check 256 k \<and> k < 256 \<and> x 9 = clint_addr (if n = 26 then k else k + 1) \<and>
       (n = 28 \<longrightarrow> x 18 = clint_addr 0) \<and> (n = 29 \<longrightarrow> x 18 = clint_addr 256)
     else n \<le> 35 \<and> p = SGo \<and> (n > 30 \<longrightarrow> x 10 = of_nat i) \<and> (n = 32 \<longrightarrow> x 11 = 0x1107c) \<and>
       (n > 32 \<longrightarrow> x 11 = 0x10d00) \<and> (n = 34 \<longrightarrow> x 9 = 1) \<and> (n = 35 \<longrightarrow> x 9 = 0x80000000))"

definition hart_at :: "nat \<Rightarrow> hart \<Rightarrow> smp_pc \<Rightarrow> bool" where
  "hart_at i h p \<longleftrightarrow> csregs h 0xf14 = of_nat i \<and>
     ((\<exists>n k. hpc h = insn_at n \<and> placed i n p k (xregs h)) \<or>
      (hpc h = main_entry \<and> i = 0 \<and> p = SMain \<and> xregs h 1 = insn_at 8) \<or>
      (hpc h = 0x80000000 \<and> p = SGo \<and> xregs h 10 = of_nat i \<and> xregs h 11 = 0x10d00))"

section \<open>One instruction\<close>

lemma hart_atI: "csregs h 0xf14 = of_nat i \<Longrightarrow> hpc h = insn_at n \<Longrightarrow> placed i n p k (xregs h) \<Longrightarrow> hart_at i h p"
  unfolding hart_at_def by blast

lemma placed_bound: "placed i n p k x \<Longrightarrow> n < 36"
  by (simp add: placed_def split: if_splits)

lemma step_at:
  assumes "n < 36" "hpc h = insn_at n"
  shows "step b boot_start rom_base (h, d) = Some (exec b (boot_code ! n) (h, d))"
proof -
  have len: "length boot_start = 36" by (simp add: boot_start_def)
  have "decode (boot_start ! n) = Some (boot_code ! n)"
    using boot_start_decoded assms(1) nth_map [of n boot_start decode] nth_map [of n boot_code Some] len
    by (metis length_map)
  moreover have "unat (of_nat (4 * n) :: u64) = 4 * n" using assms(1) by (simp only: unat_of_nat) simp
  ultimately show ?thesis using assms len by (simp add: step_def fetch_def insn_at_def)
qed

lemma insn_at_Suc [simp]: "insn_at n + 4 = insn_at (Suc n)"
  by (simp add: insn_at_def algebra_simps)

lemma clint_addr_simps [simp]:
  "clint_addr k + 4 = clint_addr (Suc k)" "0x2000000 = clint_addr 0" "clint_addr 0 + 0x400 = clint_addr 256"
  "scast (ucast (clint_addr 256) :: u32) = clint_addr 256"
  "push_bit 2 (of_nat i) = (4 * of_nat i :: u64)" "4 * of_nat i + clint_addr 0 = clint_addr i"
  by (simp_all add: clint_addr_def push_bit_of_nat push_bit_eq_mult)

lemma reg_simps [simp]:
  "getx h 0 = 0" "getx h (numeral n) = xregs h (numeral n)" "getx h (Suc 0) = xregs h (Suc 0)"
  "setx (numeral n) v h = h\<lparr>xregs := (xregs h)(numeral n := v)\<rparr>" "setx 0 v h = h"
  "setx (Suc 0) v h = h\<lparr>xregs := (xregs h)(Suc 0 := v)\<rparr>" "hpc (next_pc h) = hpc h + 4"
  "xregs (next_pc h) = xregs h" "csregs (next_pc h) = csregs h"
  by (simp_all add: getx_def setx_def next_pc_def)

text \<open>The instructions that fall through and do not touch the CLINT.\<close>

definition quiet_insns :: "nat set" where
  "quiet_insns = {0, 1, 2, 3, 5, 6, 9, 11, 12, 13, 15, 17, 19, 20, 21, 22, 26, 27, 28, 30, 31, 32, 33, 34}"

text \<open>Hart \<open>i\<close> is before instruction \<open>n\<close>, with what \<open>placed\<close> says of its registers.\<close>

definition before :: "nat \<Rightarrow> nat \<Rightarrow> smp_pc \<Rightarrow> nat \<Rightarrow> hart \<Rightarrow> bool" where
  "before i n p k h \<longleftrightarrow> csregs h 0xf14 = of_nat i \<and> hpc h = insn_at n \<and> placed i n p k (xregs h)"

lemma quiet_insn:
  assumes "n \<in> quiet_insns"
    and "placed i n p k (xregs h)" "hpc h = insn_at n" "csregs h 0xf14 = of_nat i"
  shows "case exec (clint_bus H x ip) (boot_code ! n) (h, r) of (e, h', r') \<Rightarrow> r' = r \<and> before i (Suc n) p k h'"
proof -
  have pc: "insn_at 31 + 0x1000 = 0x1107c" by (simp_all add: insn_at_def rom_base_def)
  show ?thesis
    using assms(1) unfolding quiet_insns_def insert_iff empty_iff
    by (elim disjE) (use assms(2-) in \<open>simp_all add: boot_code_def placed_def before_def pc\<close>)
qed

text \<open>
  Moves of hart \<open>i\<close> in the protocol: none, or a step from place \<open>p\<close> to \<open>p'\<close> that changes the registers
  of the CLINT from \<open>r\<close> to \<open>r'\<close>.
\<close>

definition hart_moves :: "nat \<Rightarrow> bool \<Rightarrow> nat \<Rightarrow> smp_pc \<Rightarrow> (nat \<Rightarrow> bool) \<Rightarrow> smp_pc \<Rightarrow> (nat \<Rightarrow> bool) \<Rightarrow> bool" where
  "hart_moves H x i p r p' r' \<longleftrightarrow> p' = p \<and> r' = r \<or>
     (\<forall>q. q i = p \<longrightarrow> smp_step H 256 x \<lparr>msip = r, pc = q\<rparr> \<lparr>msip = r', pc = q(i := p')\<rparr>)"

lemma hart_moves_refl [simp]: "hart_moves H x i p r p r"
  by (simp add: hart_moves_def)

definition simulated :: "nat \<Rightarrow> bool \<Rightarrow> nat \<Rightarrow> smp_pc \<Rightarrow> (nat \<Rightarrow> bool) \<Rightarrow> ending \<times> hart \<times> (nat \<Rightarrow> bool) \<Rightarrow> bool" where
  "simulated H x i p r y \<longleftrightarrow> (case y of (e, h', r') \<Rightarrow> \<exists>p'. hart_moves H x i p r p' r' \<and> hart_at i h' p')"

lemma simulatedI:
  assumes "hart_moves H x i p r p' r'" "csregs h 0xf14 = of_nat i" "hpc h = insn_at n" "placed i n p' k (xregs h)"
  shows "simulated H x i p r (e, h, r')"
  using assms hart_atI unfolding simulated_def by auto

lemma quiet_simulated:
  assumes "n \<in> quiet_insns"
    and "placed i n p k (xregs h)" "hpc h = insn_at n" "csregs h 0xf14 = of_nat i"
  shows "simulated H x i p r (exec (clint_bus H x ip) (boot_code ! n) (h, r))"
  using quiet_insn [OF assms, where H = H and x = x and ip = ip and r = r] by (auto simp: before_def intro: simulatedI [OF hart_moves_refl] split: prod.splits)

lemma of_nat_hart [simp]: "i < 256 \<Longrightarrow> (of_nat i :: u64) = 0 \<longleftrightarrow> i = 0"
  by (auto simp: word_of_nat_eq_0_iff dest: dvd_imp_le)

lemma clint_addr_less:
  assumes "k \<le> 256" "l \<le> 256"
  shows "sint (clint_addr k) < sint (clint_addr l) \<longleftrightarrow> k < l"
proof -
  have "sint (clint_addr m) = int (0x2000000 + 4 * m)" if "m \<le> 256" for m
    unfolding clint_addr_def by (simp only: sint_uint uint_nat unat_of_nat, use that in \<open>simp add: signed_take_bit_int_eq_self_iff\<close>)
  with assms show ?thesis by simp
qed

text \<open>The branches.\<close>

lemma branch_targets:
  "insn_at 4 + 44 = insn_at 15" "insn_at 14 - 20 = insn_at 9" "insn_at 18 - 12 = insn_at 15"
  "insn_at 25 - 4 = insn_at 24" "insn_at 29 - 20 = insn_at 24"
  by (simp_all add: insn_at_def)

lemma branch_simulated:
  assumes "n \<in> {4, 8, 14, 18, 25, 29}" "i < 256"
    and "placed i n p k (xregs h)" "hpc h = insn_at n" "csregs h 0xf14 = of_nat i"
  shows "simulated H x i p r (exec (clint_bus H x ip) (boot_code ! n) (h, r))"
proof -
  note simps = boot_code_def placed_def clint_addr_less branch_targets boot_place_def smp_next_send_def smp_next_check_def
  from assms(1) consider "n = 4" | "n = 8" | "n = 14" | "n = 18" | "n = 25" | "n = 29" by auto
  then show ?thesis
  proof cases
    case 1
    show ?thesis
    proof (cases "i = 0")
      case True
      with 1 assms(2-) show ?thesis by (auto simp: simps intro!: simulatedI [where n = 5])
    next
      case False
      with 1 assms(2-) show ?thesis by (auto simp: simps intro!: simulatedI [where n = 15])
    qed
  next
    case 2
    with assms(2-) show ?thesis by (auto simp: simps intro!: simulatedI [where n = 9 and k = 0])
  next
    case 3
    show ?thesis
    proof (cases "k < 255")
      case True
      with 3 assms(2-) show ?thesis by (auto simp: simps intro!: simulatedI [where n = 9 and k = "Suc k"])
    next
      case False
      with 3 assms(2-) show ?thesis by (auto simp: simps intro!: simulatedI [where n = 15])
    qed
  next
    case 4
    show ?thesis
    proof (cases "xregs h 18 = 0")
      case True
      with 4 assms(2-) show ?thesis by (auto simp: simps intro!: simulatedI [where n = 15])
    next
      case False
      with 4 assms(2-) show ?thesis by (auto simp: simps intro!: simulatedI [where n = 19])
    qed
  next
    case 5
    show ?thesis
    proof (cases "xregs h 18 = 0")
      case True
      with 5 assms(2-) show ?thesis by (auto simp: simps intro!: simulatedI [where n = 26 and k = k])
    next
      case False
      with 5 assms(2-) show ?thesis by (auto simp: simps intro!: simulatedI [where n = 24 and k = k])
    qed
  next
    case 6
    show ?thesis
    proof (cases "k < 255")
      case True
      with 6 assms(2-) show ?thesis by (auto simp: simps intro!: simulatedI [where n = 24 and k = "Suc k"])
    next
      case False
      with 6 assms(2-) show ?thesis by (auto simp: simps intro!: simulatedI [where n = 30])
    qed
  qed
qed

text \<open>The accesses to the CLINT, each of which is one step of the protocol.\<close>

lemma clint_index_addr: "k \<le> 256 \<Longrightarrow> clint_index (clint_addr k) = k"
  unfolding clint_index_def clint_addr_def of_nat_add of_nat_numeral
  by (simp only: add_diff_cancel_left' unat_of_nat) simp

lemma pending_masked: "(y AND - 9) AND 8 = (0 :: u64)" "(8 OR (y AND - 9)) AND 8 = (8 :: u64)"
  by (simp_all add: bit.conj_disj_distrib2 and.assoc)

lemma access_simulated:
  assumes "n \<in> {10, 16, 23, 24}" "i < H" "H \<le> 256"
    and "placed i n p k (xregs h)" "hpc h = insn_at n" "csregs h 0xf14 = of_nat i"
  shows "simulated H x i p r (exec (clint_bus H x ip) (boot_code ! n) (h, r))"
proof -
  have i: "unat (of_nat i :: u64) = i" using assms(2,3) by (simp add: unat_of_nat)
  note simps = boot_code_def placed_def clint_bus_def clint_index_addr
  from assms(1) consider "n = 10" | "n = 16" | "n = 23" | "n = 24" by auto
  then show ?thesis
  proof cases
    case 1
    with assms(2-) smp_send [of i H "\<lparr>msip = r, pc = q\<rparr>" k 256 x for q] show ?thesis
      by (auto simp: simps hart_moves_def intro!: simulatedI [where n = 11 and k = k and p' = "smp_next_send 256 k"])
  next
    case 2
    with assms(2-) smp_wake [of i H "\<lparr>msip = r, pc = q\<rparr>" 256 x for q] show ?thesis
      by (auto simp: simps i hart_moves_def pending_masked intro!: simulatedI [where n = 17 and p' = "if r i then SAck else SSleep"])
  next
    case 3
    with assms(2-) smp_ack [of i H "\<lparr>msip = r, pc = q\<rparr>" 256 x for q] show ?thesis
      by (auto simp: simps hart_moves_def intro!: simulatedI [where n = 24 and k = 0 and p' = "SCheck 0"])
  next
    case 4
    with assms(2-) smp_check [of i H "\<lparr>msip = r, pc = q\<rparr>" k x 256 for q] show ?thesis
      by (cases "clint_lw H x k r") (auto simp: simps hart_moves_def intro!: simulatedI [where n = 25 and k = k
        and p' = "if clint_lw H x k r then SCheck k else smp_next_check 256 k"])
  qed
qed

text \<open>The call of \<open>main\<close> and the jump to the loaded program.\<close>

lemma leave_simulated:
  assumes "n \<in> {7, 35}" "placed i n p k (xregs h)" "hpc h = insn_at n" "csregs h 0xf14 = of_nat i"
  shows "simulated H x i p r (exec (clint_bus H x ip) (boot_code ! n) (h, r))"
proof -
  have call: "insn_at 7 + 0xb02 = main_entry" by (simp add: insn_at_def rom_base_def main_entry_def)
  from assms(1) consider "n = 7" | "n = 35" by auto
  then show ?thesis
  proof cases
    case 1
    with assms(2-) call have "exec (clint_bus H x ip) (boot_code ! n) (h, r) =
        (Running, h\<lparr>xregs := (xregs h)(1 := insn_at 8), hpc := main_entry\<rparr>, r)" "i = 0" "p = SMain"
      by (simp_all add: boot_code_def placed_def)
    with assms(4) show ?thesis by (auto simp: simulated_def hart_at_def intro!: exI [of _ SMain])
  next
    case 2
    with assms(2-) have "exec (clint_bus H x ip) (boot_code ! n) (h, r) = (Running, h\<lparr>hpc := 0x80000000\<rparr>, r)"
        "p = SGo" "xregs h 10 = of_nat i" "xregs h 11 = 0x10d00"
      by (simp_all add: boot_code_def placed_def)
    with assms(4) show ?thesis by (auto simp: simulated_def hart_at_def intro!: exI [of _ SGo])
  qed
qed

lemma insn_at_apart:
  assumes "n < 36"
  shows "unat (insn_at n) = 0x10000 + 4 * n" "insn_at n \<noteq> main_entry" "insn_at n \<noteq> 0x80000000"
proof -
  have "insn_at n = of_nat (0x10000 + 4 * n)" by (simp add: insn_at_def rom_base_def)
  then show n: "unat (insn_at n) = 0x10000 + 4 * n" using assms by (simp only: unat_of_nat) simp
  have "4 * n + 0x10000 < 0x10b1e" using assms by simp
  with n show "insn_at n \<noteq> main_entry" "insn_at n \<noteq> 0x80000000" by (auto simp: main_entry_def)
qed

lemma insn_kinds:
  assumes "n < (36 :: nat)"
  shows "n \<in> quiet_insns \<or>
    n \<in> {4, 8, 14, 18, 25, 29} \<or> n \<in> {10, 16, 23, 24} \<or> n \<in> {7, 35}"
proof -
  from assms have "n = 0 \<or> n = 1 \<or> n \<in> set [2..<36]" unfolding set_upt by (cases "n < 2") auto
  then show ?thesis by (simp del: set_upt add: quiet_insns_def) argo
qed

lemma insn_simulated:
  assumes "hart_at i h p" "step (clint_bus H x ip) boot_start rom_base (h, r) = Some y"
    and H: "i < H" "H \<le> 256"
  shows "simulated H x i p r y"
proof -
  have out: "hpc h = a \<Longrightarrow> a \<in> {main_entry, 0x80000000} \<Longrightarrow> False" for a
    using assms(2) by (auto simp: step_def fetch_def rom_base_def main_entry_def boot_start_def)
  with assms(1) obtain n k where *: "placed i n p k (xregs h)" "hpc h = insn_at n" "csregs h 0xf14 = of_nat i"
    unfolding hart_at_def by blast
  have n: "n < 36" using placed_bound * by blast
  then have y: "y = exec (clint_bus H x ip) (boot_code ! n) (h, r)" using step_at [OF n *(2)] assms(2) by (metis option.inject)
  from insn_kinds [OF n] consider
      "n \<in> quiet_insns"
    | "n \<in> {4, 8, 14, 18, 25, 29}" | "n \<in> {10, 16, 23, 24}" | "n \<in> {7, 35}"
    by blast
  then show ?thesis
    unfolding y using * H by cases (simp_all add: quiet_simulated branch_simulated access_simulated leave_simulated)
qed

section \<open>Where a hart can be\<close>

lemma hart_in_program:
  assumes "hart_at i h p" "hpc h = 0x80000000"
  shows "p = SGo \<and> xregs h 10 = of_nat i \<and> xregs h 11 = 0x10d00"
  using assms placed_bound insn_at_apart(3) by (auto simp: hart_at_def main_entry_def)

section \<open>Runs\<close>

text \<open>One hart runs while the others wait.\<close>

inductive solo :: "nat \<Rightarrow> bool \<Rightarrow> (u64 \<Rightarrow> (nat \<Rightarrow> bool) \<Rightarrow> u64) \<Rightarrow> hart \<times> (nat \<Rightarrow> bool) \<Rightarrow> hart \<times> (nat \<Rightarrow> bool) \<Rightarrow> bool"
  for H x ip where
  solo_insn: "step (clint_bus H x ip) boot_start rom_base (h, r) = Some (e, h', r') \<Longrightarrow> solo H x ip (h, r) (h', r')"
| solo_main: "hpc h = main_entry \<Longrightarrow> solo H x ip (h, r) (h\<lparr>hpc := 0x80000000\<rparr>, r)"

lemma solo_run:
  assumes "(solo H x ip)\<^sup>*\<^sup>* (h, r) (h', r')" "i < H" "\<not> inprog m i" "harts m i = h" "sip m = r"
  shows "(machine_step H x ip W)\<^sup>*\<^sup>* m (m\<lparr>sip := r', harts := (harts m)(i := h')\<rparr>)"
  using assms(1)
proof (induction rule: rtranclp_induct2)
  case refl
  then show ?case using assms(4,5) by (cases m) (auto simp: fun_upd_idem)
next
  case (step h1 r1 h2 r2)
  let ?m = "m\<lparr>sip := r1, harts := (harts m)(i := h1)\<rparr>"
  from step(2) have "machine_step H x ip W ?m (m\<lparr>sip := r2, harts := (harts m)(i := h2)\<rparr>)"
  proof cases
    case (solo_insn e)
    then show ?thesis using machine_insn [OF assms(2), of ?m x ip e h2 r2 W] assms(3) by simp
  next
    case solo_main
    then show ?thesis using machine_main [OF assms(2), of ?m h2 x ip W] assms(3) by simp
  qed
  with step(3) show ?case by (rule rtranclp.rtrancl_into_rtrancl)
qed

definition gets :: "nat \<Rightarrow> bool \<Rightarrow> (u64 \<Rightarrow> (nat \<Rightarrow> bool) \<Rightarrow> u64) \<Rightarrow> hart \<times> (nat \<Rightarrow> bool) \<Rightarrow> (hart \<Rightarrow> (nat \<Rightarrow> bool) \<Rightarrow> bool) \<Rightarrow> bool" where
  "gets H x ip y P \<longleftrightarrow> (\<exists>h r. (solo H x ip)\<^sup>*\<^sup>* y (h, r) \<and> P h r)"

lemma gets_here: "P h r \<Longrightarrow> gets H x ip (h, r) P"
  unfolding gets_def by blast

lemma gets_step: "solo H x ip y z \<Longrightarrow> gets H x ip z P \<Longrightarrow> gets H x ip y P"
  unfolding gets_def by (meson converse_rtranclp_into_rtranclp)

lemma gets_trans: "gets H x ip y Q \<Longrightarrow> (\<And>h r. Q h r \<Longrightarrow> gets H x ip (h, r) P) \<Longrightarrow> gets H x ip y P"
  unfolding gets_def by (meson rtranclp_trans)

lemma gets_insn:
  assumes "before i n p k h" "gets H x ip (snd (exec (clint_bus H x ip) (boot_code ! n) (h, r))) P"
  shows "gets H x ip (h, r) P"
proof -
  obtain e h' r' where y: "exec (clint_bus H x ip) (boot_code ! n) (h, r) = (e, h', r')" by (metis prod_cases3)
  have "n < 36" "hpc h = insn_at n" using assms(1) placed_bound unfolding before_def by blast+
  then have "solo H x ip (h, r) (h', r')" by (intro solo_insn [where e = e]) (metis step_at y)
  then show ?thesis by (rule gets_step) (use assms(2) y in simp)
qed

definition leads :: "nat \<Rightarrow> bool \<Rightarrow> (u64 \<Rightarrow> (nat \<Rightarrow> bool) \<Rightarrow> u64) \<Rightarrow> (hart \<Rightarrow> (nat \<Rightarrow> bool) \<Rightarrow> bool) \<Rightarrow>
    (hart \<Rightarrow> (nat \<Rightarrow> bool) \<Rightarrow> bool) \<Rightarrow> bool" where
  "leads H x ip P Q \<longleftrightarrow> (\<forall>h r. P h r \<longrightarrow> gets H x ip (h, r) Q)"

definition stands :: "nat \<Rightarrow> nat \<Rightarrow> smp_pc \<Rightarrow> nat \<Rightarrow> (nat \<Rightarrow> bool) \<Rightarrow> hart \<Rightarrow> (nat \<Rightarrow> bool) \<Rightarrow> bool" where
  "stands i n p k r h r' \<longleftrightarrow> before i n p k h \<and> r' = r"

lemma leads_trans [trans]: "leads H x ip P Q \<Longrightarrow> leads H x ip Q R \<Longrightarrow> leads H x ip P R"
  unfolding leads_def by (auto intro: gets_trans [where Q = Q])

lemma leads_refl: "leads H x ip P P"
  by (simp add: leads_def gets_here)

lemma leads_insn:
  assumes "\<And>h. before i n p k h \<Longrightarrow> gets H x ip (snd (exec (clint_bus H x ip) (boot_code ! n) (h, r))) Q"
  shows "leads H x ip (stands i n p k r) Q"
  using assms by (auto simp: leads_def stands_def intro: gets_insn)

lemma run_quiet:
  assumes "n \<in> quiet_insns"
  shows "leads H x ip (stands i n p k r) (stands i (Suc n) p k r)"
proof (rule leads_insn)
  fix h assume "before i n p k h"
  then have "case exec (clint_bus H x ip) (boot_code ! n) (h, r) of (e, h', r') \<Rightarrow> r' = r \<and> before i (Suc n) p k h'"
    using assms by (intro quiet_insn) (simp_all add: before_def)
  then show "gets H x ip (snd (exec (clint_bus H x ip) (boot_code ! n) (h, r))) (stands i (Suc n) p k r)"
    by (auto simp: stands_def split: prod.splits intro!: gets_here)
qed

lemma run_quiets:
  assumes "\<forall>l \<in> {n..<n + d}. l \<in> quiet_insns"
  shows "leads H x ip (stands i n p k r) (stands i (n + d) p k r)"
  using assms
proof (induction d)
  case (Suc d)
  then have "leads H x ip (stands i n p k r) (stands i (n + d) p k r)" "n + d \<in> quiet_insns" by simp_all
  from leads_trans [OF this(1) run_quiet [OF this(2)]] show ?case by simp
qed (simp add: leads_refl)

lemma quiet_runs:
  "leads H x ip (stands i 0 p k r) (stands i 4 p k r)" "leads H x ip (stands i 5 p k r) (stands i 7 p k r)"
  "leads H x ip (stands i 9 p k r) (stands i 10 p k r)" "leads H x ip (stands i 11 p k r) (stands i 14 p k r)"
  "leads H x ip (stands i 15 p k r) (stands i 16 p k r)" "leads H x ip (stands i 17 p k r) (stands i 18 p k r)"
  "leads H x ip (stands i 19 p k r) (stands i 23 p k r)" "leads H x ip (stands i 26 p k r) (stands i 29 p k r)"
  "leads H x ip (stands i 30 p k r) (stands i 35 p k r)"
  using run_quiets [of 0 4] run_quiets [of 5 2] run_quiets [of 9 1] run_quiets [of 11 3] run_quiets [of 15 1]
    run_quiets [of 17 1] run_quiets [of 19 4] run_quiets [of 26 3] run_quiets [of 30 5]
  by (simp_all add: quiet_insns_def atLeastLessThanSuc numeral_eq_Suc)

text \<open>The other instructions, as far as a run without waiting needs them.\<close>

lemmas insn_simps = before_def placed_def boot_code_def boot_place_def clint_bus_def clint_index_addr branch_targets
  clint_addr_less smp_next_send_def smp_next_check_def stands_def

lemma run_pause: "i < 256 \<Longrightarrow> leads H x ip (stands i 4 p k r) (stands i (if i = 0 then 5 else 15) p k r)"
  by (rule leads_insn) (auto simp: insn_simps intro!: gets_here)

lemma run_call:
  "leads H x ip (stands i 7 p k r) (\<lambda>h r'. i = 0 \<and> hpc h = main_entry \<and> xregs h 1 = insn_at 8 \<and> csregs h 0xf14 = 0 \<and> r' = r)"
proof (rule leads_insn)
  fix h assume 7: "before i 7 p k h"
  have "insn_at 7 + 0xb02 = main_entry" by (simp add: insn_at_def rom_base_def main_entry_def)
  with 7 show "gets H x ip (snd (exec (clint_bus H x ip) (boot_code ! 7) (h, r)))
      (\<lambda>h r'. i = 0 \<and> hpc h = main_entry \<and> xregs h 1 = insn_at 8 \<and> csregs h 0xf14 = 0 \<and> r' = r)"
    by (auto simp: before_def placed_def boot_code_def intro!: gets_here)
qed

lemma run_wake: "i < 256 \<Longrightarrow> r i \<Longrightarrow> leads H x ip (stands i 16 p k r) (stands i 17 SAck k r)"
  by (rule leads_insn) (auto simp: insn_simps unat_of_nat pending_masked intro!: gets_here)

lemma run_woken: "leads H x ip (stands i 18 SAck k r) (stands i 19 SAck k r)"
  by (rule leads_insn) (auto simp: insn_simps intro!: gets_here split: if_splits)

lemma run_ack: "i < 256 \<Longrightarrow> leads H x ip (stands i 23 p k r) (stands i 24 (SCheck 0) 0 (clint_write H i False r))"
  by (rule leads_insn) (auto simp: insn_simps intro!: gets_here)

lemma run_check: "\<not> clint_lw H x k r \<Longrightarrow> leads H x ip (stands i 24 p k r) (stands i 26 (smp_next_check 256 k) k r)"
proof (rule leads_insn)
  fix h assume 24: "before i 24 p k h" and k: "\<not> clint_lw H x k r"
  let ?h = "next_pc (h\<lparr>xregs := (xregs h)(18 := 0)\<rparr>)"
  have "before i 25 (smp_next_check 256 k) k ?h" using 24 by (auto simp: before_def placed_def)
  moreover have "snd (exec (clint_bus H x ip) (boot_code ! 25) (?h, r)) = (next_pc ?h, r)" by (simp add: boot_code_def)
  moreover have "gets H x ip (next_pc ?h, r) (stands i 26 (smp_next_check 256 k) k r)"
    using 24 by (intro gets_here) (simp add: stands_def before_def placed_def)
  ultimately have "gets H x ip (?h, r) (stands i 26 (smp_next_check 256 k) k r)" using gets_insn by metis
  then show "gets H x ip (snd (exec (clint_bus H x ip) (boot_code ! 24) (h, r))) (stands i 26 (smp_next_check 256 k) k r)"
    using 24 k by (simp add: insn_simps)
qed

lemma run_check_next: "k < 255 \<Longrightarrow> leads H x ip (stands i 29 p k r) (stands i 24 (SCheck (Suc k)) (Suc k) r)"
  by (rule leads_insn) (auto simp: insn_simps intro!: gets_here)

lemma run_checked: "\<not> k < 255 \<Longrightarrow> leads H x ip (stands i 29 p k r) (stands i 30 SGo 0 r)"
  by (rule leads_insn) (auto simp: insn_simps intro!: gets_here)

lemma run_jump: "leads H x ip (stands i 35 p k r) (\<lambda>h' r'. r' = r \<and> hpc h' = 0x80000000)"
  by (rule leads_insn) (auto simp: insn_simps intro!: gets_here)

lemma run_check_turn: "\<not> clint_lw H x k r \<Longrightarrow> leads H x ip (stands i 24 p k r) (stands i 29 (smp_next_check 256 k) k r)"
  by (rule leads_trans [OF run_check quiet_runs(8)])

lemma check_loop:
  assumes "k < 256" "\<forall>l. \<not> clint_lw H x l r"
  shows "leads H x ip (stands i 24 (SCheck k) k r) (\<lambda>h' r'. r' = r \<and> hpc h' = 0x80000000)"
  using assms(1)
proof (induction "255 - k" arbitrary: k)
  case 0
  then have "leads H x ip (stands i 24 (SCheck k) k r) (stands i 30 SGo 0 r)"
    using assms(2) by (intro leads_trans [OF run_check_turn run_checked]) auto
  from leads_trans [OF this leads_trans [OF quiet_runs(9) run_jump]] show ?case .
next
  case (Suc d)
  have "leads H x ip (stands i 24 (SCheck k) k r) (stands i 24 (SCheck (Suc k)) (Suc k) r)"
    by (rule leads_trans [OF run_check_turn run_check_next]) (use assms(2) Suc(2) in auto)
  from leads_trans [OF this] Suc show ?case by simp
qed

lemma run_enter:
  "leads H x ip (stands i 7 p k r) (\<lambda>h r'. hpc h = 0x80000000 \<and> r' = r)"
proof (rule leads_trans [OF run_call], unfold leads_def, intro allI impI)
  fix h :: hart and r'
  assume h: "i = 0 \<and> hpc h = main_entry \<and> xregs h 1 = insn_at 8 \<and> csregs h 0xf14 = 0 \<and> r' = r"
  show "gets H x ip (h, r') (\<lambda>h r'. hpc h = 0x80000000 \<and> r' = r)"
    by (rule gets_step [OF solo_main]) (use h in \<open>auto intro: gets_here\<close>)
qed

lemma run_hart0: "leads H x ip (stands 0 0 SMain 0 r) (\<lambda>h r'. hpc h = 0x80000000 \<and> r' = r)"
  using leads_trans [OF quiet_runs(1) leads_trans [OF run_pause [of 0, simplified] leads_trans [OF quiet_runs(2) run_enter]]]
  by simp

lemma run_woken_hart:
  assumes "0 < i" "i < H" "H \<le> 256" "r i" "\<forall>l. \<not> clint_lw H x l (r(i := False))"
  shows "leads H x ip (stands i 0 SSleep 0 r) (\<lambda>h r'. r' = r(i := False) \<and> hpc h = 0x80000000)"
proof -
  have i: "i < 256" "i \<noteq> 0" using assms(1-3) by simp_all
  have 1: "leads H x ip (stands i 0 SSleep 0 r) (stands i 15 SSleep 0 r)"
    using leads_trans [OF quiet_runs(1) run_pause [OF i(1)]] i(2) by simp
  have 2: "leads H x ip (stands i 15 SSleep 0 r) (stands i 18 SAck 0 r)"
    by (rule leads_trans [OF quiet_runs(5) leads_trans [OF run_wake [of i r, OF i(1) assms(4)] quiet_runs(6)]])
  have 3: "leads H x ip (stands i 18 SAck 0 r) (stands i 24 (SCheck 0) 0 (r(i := False)))"
    using leads_trans [OF run_woken leads_trans [OF quiet_runs(7) run_ack [OF i(1)]]] clint_write_own [OF assms(2)] by metis
  show ?thesis
    by (rule leads_trans [OF 1 leads_trans [OF 2 leads_trans [OF 3 check_loop]]]) (use assms(5) in auto)
qed

section \<open>A main that does not return\<close>

text \<open>Until hart 0 is in the loaded program it is before or in \<open>main\<close> and sends nothing.\<close>

lemma main_insn:
  assumes "hart_at 0 h SMain" "step (clint_bus H x ip) boot_start rom_base (h, r) = Some (e, h', r')"
  shows "hart_at 0 h' SMain \<and> r' = r"
proof -
  have "hpc h \<noteq> main_entry"
    using assms(2) by (auto simp: step_def fetch_def rom_base_def main_entry_def boot_start_def)
  with assms(1) obtain n k where b: "before 0 n SMain k h" by (auto simp: hart_at_def before_def)
  have e: "exec (clint_bus H x ip) (boot_code ! n) (h, r) = (e, h', r')"
    using step_at [of n h "clint_bus H x ip" r] b placed_bound assms(2) by (metis before_def option.inject)
  have "n \<le> 7" using b by (auto simp: before_def placed_def smp_next_send_def smp_next_check_def split: if_splits)
  then have "n \<in> {0, 1, 2, 3, 4, 5, 6, 7}" by auto
  then consider "n \<in> quiet_insns" | "n = 4" | "n = 7" unfolding quiet_insns_def by blast
  then show ?thesis
  proof cases
    case 1
    then have "r' = r \<and> before 0 (Suc n) SMain k h'"
      using quiet_insn [where n = n and H = H and x = x and ip = ip and r = r] b e by (fastforce simp: before_def)
    then show ?thesis by (auto simp: before_def intro: hart_atI)
  next
    case 2
    with e b show ?thesis by (auto simp: before_def boot_code_def placed_def intro!: hart_atI [where n = 5])
  next
    case 3
    moreover have "insn_at 7 + 0xb02 = main_entry" by (simp add: insn_at_def rom_base_def main_entry_def)
    ultimately show ?thesis using e b by (auto simp: before_def boot_code_def placed_def hart_at_def)
  qed
qed

text \<open>The other harts never set a register; each clears its own at most.\<close>

fun late :: "smp_pc \<Rightarrow> bool" where
  "late SMain = False"
| "late (SSend k) = False"
| "late p = True"

lemma hart_moves_late:
  assumes "hart_moves H x i p r p' r'" "late p" "i < H"
  shows "late p' \<and> (r' = r \<or> r' = r(i := False)) \<and> (p = SSleep \<and> \<not> r i \<longrightarrow> p' = SSleep \<and> r' = r)"
proof -
  let ?q = "(\<lambda>_. SGo)(i := p)"
  have "smp_step H 256 x \<lparr>msip = r, pc = ?q\<rparr> \<lparr>msip = r', pc = ?q(i := p')\<rparr> \<Longrightarrow> ?thesis"
    by (erule smp_step.cases) (use assms(2,3) in \<open>auto simp: smp_next_check_def clint_write_own
      dest!: fun_cong [of _ _ i] split: if_splits\<close>)
  then show ?thesis using assms(1,2) fun_upd_same [of "\<lambda>_. SGo" i p] unfolding hart_moves_def by blast
qed

lemma late_insn:
  assumes "hart_at i h p" "late p" "step (clint_bus H x ip) boot_start rom_base (h, r) = Some (e, h', r')"
    and "i < H" "H \<le> 256"
  shows "(\<exists>p'. hart_at i h' p' \<and> late p') \<and> (r' = r \<or> r' = r(i := False)) \<and>
    (p = SSleep \<and> \<not> r i \<longrightarrow> hart_at i h' SSleep \<and> r' = r)"
proof -
  obtain p' where p': "hart_moves H x i p r p' r'" "hart_at i h' p'"
    using insn_simulated [OF assms(1,3,4,5)] by (auto simp: simulated_def)
  from hart_moves_late [OF p'(1) assms(2,4)] p'(2) show ?thesis by auto
qed

text \<open>
  The state of the machine, as long as hart 0 has not entered the program and after that; \<open>sleeping\<close> are
  the harts that nobody wakes.
\<close>

definition parked :: "nat \<Rightarrow> machine \<Rightarrow> bool" where
  "parked H m \<longleftrightarrow> sip m = (\<lambda>_. False) \<and> \<not> inprog m 0 \<and>
     (hart_at 0 (harts m 0) SMain \<or> hpc (harts m 0) = 0x80000000) \<and>
     (\<forall>i. 0 < i \<and> i < H \<longrightarrow> \<not> inprog m i \<and> hart_at i (harts m i) SSleep)"

definition running :: "nat \<Rightarrow> nat set \<Rightarrow> machine \<Rightarrow> bool" where
  "running H W m \<longleftrightarrow> inprog m 0 \<and> (\<forall>k. k \<in> W \<or> \<not> sip m k) \<and>
     (\<forall>i. 0 < i \<and> i < H \<longrightarrow> (i \<in> W \<and> inprog m i) \<or>
        (\<not> inprog m i \<and> (if i \<in> W then \<exists>p. hart_at i (harts m i) p \<and> late p else hart_at i (harts m i) SSleep)))"

lemma not_fetched:
  assumes "step b boot_start rom_base (h, r) = Some y"
  shows "hpc h \<noteq> 0x80000000" "hpc h \<noteq> main_entry"
  using assms by (auto simp: step_def fetch_def rom_base_def main_entry_def boot_start_def)

lemma asleep_apart:
  assumes "hart_at i h p" "0 < i"
  shows "hpc h \<noteq> main_entry" "p = SSleep \<Longrightarrow> hpc h \<noteq> 0x80000000"
  using assms placed_bound insn_at_apart(2,3) by (auto simp: hart_at_def main_entry_def)

lemma parked_step:
  assumes "machine_step H x ip W m m'" "parked H m" "H \<le> 256"
  shows "parked H m' \<or> running H W m'"
  using assms(1)
proof cases
  case (machine_insn i e h r)
  show ?thesis
  proof (cases "i = 0")
    case True
    with machine_insn assms(2) not_fetched(1) [OF machine_insn(4)] have "hart_at 0 (harts m 0) SMain"
      by (auto simp: parked_def)
    from main_insn [OF this] machine_insn True assms(2) show ?thesis by (auto simp: parked_def)
  next
    case False
    with machine_insn assms(2) have "hart_at i (harts m i) SSleep" by (auto simp: parked_def)
    from late_insn [OF this _ machine_insn(4)] machine_insn False assms(2,3) show ?thesis by (auto simp: parked_def)
  qed
next
  case (machine_main i h)
  have "i = 0" using machine_main assms(2) asleep_apart(1) [of i "harts m i" SSleep] by (auto simp: parked_def)
  with machine_main assms(2) show ?thesis by (auto simp: parked_def)
next
  case (machine_enter i)
  have "i = 0" using machine_enter assms(2) asleep_apart(2) [of i "harts m i" SSleep] by (auto simp: parked_def)
  with machine_enter assms(2) show ?thesis by (auto simp: parked_def running_def intro!: exI [of _ SSleep])
next
  case (machine_prog i r h)
  then have False using assms(2) by (cases "i = 0") (auto simp: parked_def)
  then show ?thesis ..
qed

lemma running_step:
  assumes "machine_step H x ip W m m'" "running H W m" "H \<le> 256"
  shows "running H W m'"
  using assms(1)
proof cases
  case (machine_insn i e h r)
  then have i: "0 < i" using assms(2) by (cases "i = 0") (auto simp: running_def)
  with machine_insn assms(2) obtain p where p: "hart_at i (harts m i) p" "late p" "i \<notin> W \<Longrightarrow> p = SSleep \<and> \<not> sip m i"
    by (fastforce simp: running_def split: if_splits)
  from late_insn [OF p(1,2) machine_insn(4,2) assms(3)] p(3)
  have "(\<exists>p'. hart_at i h p' \<and> late p') \<and> (i \<notin> W \<longrightarrow> hart_at i h SSleep)" "\<forall>k. r k \<longrightarrow> sip m k" by (auto split: if_splits)
  with machine_insn i assms(2) show ?thesis by (auto simp: running_def)
next
  case (machine_main i h)
  then show ?thesis using assms(2) asleep_apart(1) [of i "harts m i"] by (cases "i = 0") (fastforce simp: running_def split: if_splits)+
next
  case (machine_enter i)
  then show ?thesis using assms(2) asleep_apart(2) [of i "harts m i" SSleep] by (cases "i = 0") (fastforce simp: running_def split: if_splits)+
next
  case (machine_prog i r h)
  then show ?thesis using assms(2) by (cases "i = 0") (fastforce simp: running_def split: if_splits)+
qed

lemma machine_reachable:
  assumes "(machine_step H x ip W)\<^sup>*\<^sup>* m0 m" "machine_reset H m0" "H \<le> 256" "0 < H"
  shows "parked H m \<or> running H W m"
  using assms(1)
proof (induction rule: rtranclp_induct)
  case base
  have at: "hart_at i (harts m0 i) (boot_place i)" if "i < H" for i
    using assms(2) that by (intro hart_atI [where n = 0]) (auto simp: machine_reset_def placed_def insn_at_def)
  have "hart_at i (harts m0 i) SSleep" if "0 < i" "i < H" for i using at [OF that(2)] that(1) by (simp add: boot_place_def)
  with at [OF assms(4)] assms(2) have "parked H m0" by (simp add: parked_def machine_reset_def boot_place_def)
  then show ?case ..
qed (use parked_step running_step assms(3) in blast)

section \<open>What the image does\<close>

lemma sleeping_low:
  assumes "hart_at i h SSleep"
  shows "unat (hpc h) \<le> 0x10048"
proof -
  obtain n k where n: "hpc h = insn_at n" "placed i n SSleep k (xregs h)" using assms by (auto simp: hart_at_def)
  have "n \<le> 18" using n(2) by (auto simp: placed_def smp_next_check_def split: if_splits)
  with n(1) show ?thesis by (simp add: insn_at_apart(1))
qed

text \<open>
  Claim C17: the start code of the image never releases the other harts, since its \<open>main\<close> does not
  return to \<open>smp_resume\<close>. For up to 256 harts, any order of their instructions and anything that the
  loaded program does: a hart other than hart 0 whose software interrupt the program does not set stays
  for ever in the code up to the \<open>wfi\<close> loop, and its interrupt is never pending; and before hart 0 enters
  the program no software interrupt is pending at all and no other hart is in the program.
\<close>

theorem boot_start_never_releases:
  assumes "H \<le> 256" "machine_reset H m0" "(machine_step H x ip W)\<^sup>*\<^sup>* m0 m" "0 < i" "i < H"
  shows "(i \<notin> W \<longrightarrow> unat (hpc (harts m i)) \<le> 0x10048 \<and> \<not> sip m i \<and> \<not> inprog m i) \<and>
    (inprog m 0 \<or> sip m = (\<lambda>_. False) \<and> \<not> inprog m i)"
  using machine_reachable [OF assms(3,2,1)] assms(4,5) sleeping_low [of i "harts m i"]
  by (auto simp: parked_def running_def)

text \<open>
  Claim C6: a hart other than hart 0 that the start code hands over to the loaded program was woken by
  that program, which hart 0 had entered before, and it arrives as the start code means it to: with its
  number in \<open>a0\<close> and the address \<open>0x10d00\<close> of the device tree in \<open>a1\<close>.
\<close>

theorem boot_start_hands_over:
  assumes "H \<le> 256" "machine_reset H m0" "(machine_step H x ip W)\<^sup>*\<^sup>* m0 m" "0 < i" "i < H"
    and "\<not> inprog m i" "hpc (harts m i) = 0x80000000"
  shows "i \<in> W \<and> inprog m 0 \<and> xregs (harts m i) 10 = of_nat i \<and> xregs (harts m i) 11 = dtb_addr"
proof -
  have s: "running H W m" "i \<in> W"
    using machine_reachable [OF assms(3,2,1)] assms(4-) asleep_apart(2) [of i "harts m i" SSleep]
    by (auto simp: parked_def running_def split: if_splits)
  then obtain p where "hart_at i (harts m i) p" using assms(4-6) unfolding running_def by metis
  from hart_in_program [OF this assms(7)] s show ?thesis by (simp add: running_def dtb_addr_def)
qed

text \<open>A run with two harts: hart 0 enters the program, which wakes hart 1.\<close>

definition demo_machine :: machine where
  "demo_machine = \<lparr>sip = \<lambda>_. False, harts = \<lambda>i. \<lparr>xregs = \<lambda>_. 0, csregs = (\<lambda>_. 0)(0xf14 := of_nat i), hpc = rom_base\<rparr>,
     inprog = \<lambda>_. False\<rparr>"

lemma demo_reset: "machine_reset 2 demo_machine"
  by (simp add: machine_reset_def demo_machine_def)

lemma demo_enters:
  "\<exists>m. (machine_step 2 x ip W)\<^sup>*\<^sup>* demo_machine m \<and> inprog m = (\<lambda>_. False)(0 := True) \<and> sip m = (\<lambda>_. False) \<and>
     harts m 1 = harts demo_machine 1"
proof -
  have "stands 0 0 SMain 0 (\<lambda>_. False) (harts demo_machine 0) (sip demo_machine)"
    by (simp add: stands_def before_def placed_def boot_place_def demo_machine_def insn_at_def)
  with run_hart0 [of 2 x ip "\<lambda>_. False"] obtain h where
    h: "(solo 2 x ip)\<^sup>*\<^sup>* (harts demo_machine 0, sip demo_machine) (h, \<lambda>_. False)" "hpc h = 0x80000000"
    by (auto simp: leads_def gets_def)
  let ?m = "demo_machine\<lparr>sip := \<lambda>_. False, harts := (harts demo_machine)(0 := h)\<rparr>"
  have "(machine_step 2 x ip W)\<^sup>*\<^sup>* demo_machine ?m"
    by (rule solo_run [OF h(1)]) (simp_all add: demo_machine_def)
  moreover have "machine_step 2 x ip W ?m (?m\<lparr>inprog := (inprog ?m)(0 := True)\<rparr>)"
    by (rule machine_enter) (use h(2) in \<open>simp_all add: demo_machine_def\<close>)
  ultimately show ?thesis
    by (intro exI [of _ "?m\<lparr>inprog := (inprog ?m)(0 := True)\<rparr>"]) (auto simp: demo_machine_def intro: rtranclp.rtrancl_into_rtrancl)
qed

lemma demo_wakes:
  "\<exists>m. (machine_step 2 x ip {1})\<^sup>*\<^sup>* demo_machine m \<and> inprog m = (\<lambda>_. False)(0 := True) \<and> hpc (harts m 1) = 0x80000000"
proof -
  obtain m where m: "(machine_step 2 x ip {1})\<^sup>*\<^sup>* demo_machine m" "inprog m = (\<lambda>_. False)(0 := True)" "sip m = (\<lambda>_. False)"
    "harts m 1 = harts demo_machine 1" using demo_enters by blast
  let ?r = "(\<lambda>_. False)(1 := True) :: nat \<Rightarrow> bool"
  let ?m = "m\<lparr>sip := ?r, harts := (harts m)(0 := harts m 0)\<rparr>"
  have 1: "machine_step 2 x ip {1} m ?m" by (rule machine_prog) (use m in auto)
  have "clint_sel 2 2 = 0" by (simp add: clint_sel_def clint_width_def clog2.simps)
  then have "\<not> clint_lw 2 x l (\<lambda>_. False)" for l
    using clint_lw_own [of l 2 x "\<lambda>_. False"] by (cases "l = 2") (auto simp: clint_lw_def)
  then have "leads 2 x ip (stands 1 0 SSleep 0 ?r) (\<lambda>h r'. r' = ?r(1 := False) \<and> hpc h = 0x80000000)"
    by (intro run_woken_hart) (auto simp: fun_upd_idem)
  moreover have "stands 1 0 SSleep 0 ?r (harts ?m 1) (sip ?m)"
    using m(4) by (simp add: stands_def before_def placed_def boot_place_def demo_machine_def insn_at_def)
  ultimately obtain h r where h: "(solo 2 x ip)\<^sup>*\<^sup>* (harts ?m 1, sip ?m) (h, r)" "hpc h = 0x80000000"
    unfolding leads_def gets_def by blast
  have "(machine_step 2 x ip {1})\<^sup>*\<^sup>* ?m (?m\<lparr>sip := r, harts := (harts ?m)(1 := h)\<rparr>)"
    by (rule solo_run [OF h(1)]) (simp_all add: m(2))
  with m(1) 1 have "(machine_step 2 x ip {1})\<^sup>*\<^sup>* demo_machine (?m\<lparr>sip := r, harts := (harts ?m)(1 := h)\<rparr>)"
    by (meson rtranclp.rtrancl_into_rtrancl rtranclp_trans)
  with h(2) m(2) show ?thesis by (intro exI [of _ "?m\<lparr>sip := r, harts := (harts ?m)(1 := h)\<rparr>"]) auto
qed

theorem boot_start_never_releases_witness:
  "\<exists>m. (machine_step 2 False (\<lambda>_ _. 0) {})\<^sup>*\<^sup>* demo_machine m \<and> inprog m 0 \<and>
    unat (hpc (harts m 1)) \<le> 0x10048 \<and> \<not> sip m 1 \<and> \<not> inprog m 1"
proof -
  obtain m where m: "(machine_step 2 False (\<lambda>_ _. 0) {})\<^sup>*\<^sup>* demo_machine m" "inprog m = (\<lambda>_. False)(0 := True)"
    using demo_enters by blast
  from boot_start_never_releases [OF _ demo_reset m(1), of 1] m show ?thesis by auto
qed

theorem boot_start_hands_over_witness:
  "\<exists>m. (machine_step 2 True (\<lambda>_ _. 0x80) {1})\<^sup>*\<^sup>* demo_machine m \<and> hpc (harts m 1) = 0x80000000 \<and>
    xregs (harts m 1) 10 = 1 \<and> xregs (harts m 1) 11 = dtb_addr"
proof -
  obtain m where m: "(machine_step 2 True (\<lambda>_ _. 0x80) {1})\<^sup>*\<^sup>* demo_machine m" "inprog m = (\<lambda>_. False)(0 := True)"
    "hpc (harts m 1) = 0x80000000" using demo_wakes by blast
  from boot_start_hands_over [OF _ demo_reset m(1), of 1] m show ?thesis by auto
qed

end
