(* ===== verification/Device_Tree.thy ===== *)
theory Device_Tree
  imports Boot_Prelude
begin

text \<open>
  Flattened device trees, as the boot loader hands them to the loaded program: the source format of
  the files \<open>cv64a6.dts\<close> and \<open>cv32a6.dts\<close>, the compiled format (version 17) and a reader for it. A
  compiled tree is a sequence of big-endian words.
\<close>

section \<open>Sources\<close>

text \<open>
  A node has a label, a name, properties and subnodes; a cell may refer to a node by its label.
\<close>

datatype cell = Num u32 | Ref string
datatype dts_value = Cells "cell list" | Strings "string list" | Bytes "u8 list"
datatype dts = Dts "string option" string "(string \<times> dts_value) list" "dts list"

text \<open>References are replaced with numbers, in the order of their first use.\<close>

definition first_uses :: "'a list \<Rightarrow> 'a list" where
  "first_uses xs = rev (remdups (rev xs))"

fun cell_refs :: "cell list \<Rightarrow> string list" where
  "cell_refs [] = []"
| "cell_refs (Num n # cs) = cell_refs cs"
| "cell_refs (Ref l # cs) = l # cell_refs cs"

definition value_refs :: "dts_value \<Rightarrow> string list" where
  "value_refs v = (case v of Cells cs \<Rightarrow> cell_refs cs | _ \<Rightarrow> [])"

primrec dts_refs :: "dts \<Rightarrow> string list" where
  "dts_refs (Dts l n ps cs) = concat (map (\<lambda>(k, v). value_refs v) ps) @ concat (map dts_refs cs)"

fun index_of :: "'a list \<Rightarrow> 'a \<Rightarrow> nat option" where
  "index_of [] x = None"
| "index_of (y # ys) x = (if x = y then Some 0 else map_option Suc (index_of ys x))"

definition phandles :: "dts \<Rightarrow> string \<Rightarrow> u32 option" where
  "phandles t l = map_option (\<lambda>n. of_nat (n + 1)) (index_of (first_uses (dts_refs t)) l)"

section \<open>Trees\<close>

datatype fdt = Fdt "u8 list" "(u8 list \<times> u8 list) list" "fdt list"

definition be_bytes :: "u32 \<Rightarrow> u8 list" where
  "be_bytes w = [ucast (drop_bit 24 w), ucast (drop_bit 16 w), ucast (drop_bit 8 w), ucast w]"

definition name_bytes :: "string \<Rightarrow> u8 list" where
  "name_bytes s = map of_char s"

primrec cell_word :: "(string \<Rightarrow> u32 option) \<Rightarrow> cell \<Rightarrow> u32" where
  "cell_word ph (Num n) = n"
| "cell_word ph (Ref l) = (case ph l of None \<Rightarrow> 0 | Some n \<Rightarrow> n)"

primrec value_bytes :: "(string \<Rightarrow> u32 option) \<Rightarrow> dts_value \<Rightarrow> u8 list" where
  "value_bytes ph (Cells cs) = concat (map (\<lambda>c. be_bytes (cell_word ph c)) cs)"
| "value_bytes ph (Strings ss) = concat (map (\<lambda>s. name_bytes s @ [0]) ss)"
| "value_bytes ph (Bytes bs) = bs"

text \<open>A node that is referred to gets its number in a property of its own.\<close>

definition phandle_prop :: "(string \<Rightarrow> u32 option) \<Rightarrow> string option \<Rightarrow> (u8 list \<times> u8 list) list" where
  "phandle_prop ph l =
     (case l of None \<Rightarrow> []
      | Some x \<Rightarrow> (case ph x of None \<Rightarrow> [] | Some n \<Rightarrow> [(name_bytes ''phandle'', be_bytes n)]))"

primrec resolve :: "(string \<Rightarrow> u32 option) \<Rightarrow> dts \<Rightarrow> fdt" where
  "resolve ph (Dts l n ps cs) =
     Fdt (name_bytes n) (map (\<lambda>(k, v). (name_bytes k, value_bytes ph v)) ps @ phandle_prop ph l)
       (map (resolve ph) cs)"

definition dts_tree :: "dts \<Rightarrow> fdt" where
  "dts_tree t = resolve (phandles t) t"

section \<open>The compiled format\<close>

definition pack :: "u8 \<Rightarrow> u8 \<Rightarrow> u8 \<Rightarrow> u8 \<Rightarrow> u32" where
  "pack a b c d = push_bit 24 (ucast a) OR push_bit 16 (ucast b) OR push_bit 8 (ucast c) OR ucast d"

text \<open>Bytes in big-endian words, with zeroes up to the end of the last one.\<close>

fun be_words :: "u8 list \<Rightarrow> u32 list" where
  "be_words [] = []"
| "be_words [a] = [pack a 0 0 0]"
| "be_words [a, b] = [pack a b 0 0]"
| "be_words [a, b, c] = [pack a b c 0]"
| "be_words (a # b # c # d # r) = pack a b c d # be_words r"

text \<open>
  The names of the properties are in a block of their own, where every name is kept once, and a
  property refers to its name by its offset.
\<close>

primrec prop_names :: "fdt \<Rightarrow> u8 list list" where
  "prop_names (Fdt n ps cs) = map fst ps @ concat (map prop_names cs)"

definition names_block :: "u8 list list \<Rightarrow> u8 list" where
  "names_block ns = concat (map (\<lambda>n. n @ [0]) ns)"

fun name_offset :: "u8 list list \<Rightarrow> u8 list \<Rightarrow> nat" where
  "name_offset [] k = 0"
| "name_offset (n # ns) k = (if n = k then 0 else length n + 1 + name_offset ns k)"

definition prop_words :: "u8 list list \<Rightarrow> u8 list \<times> u8 list \<Rightarrow> u32 list" where
  "prop_words ns = (\<lambda>(k, v). [3, of_nat (length v), of_nat (name_offset ns k)] @ be_words v)"

primrec node_words :: "u8 list list \<Rightarrow> fdt \<Rightarrow> u32 list" where
  "node_words ns (Fdt n ps cs) =
     [1] @ be_words (n @ [0]) @ concat (map (prop_words ns) ps) @ concat (map (node_words ns) cs) @ [2]"

text \<open>
  Header (magic number, total size, the offsets of the tree, of the names and of the empty list of
  reserved memory, version 17, compatible with 16, boot hart 0, and the sizes), reserved memory, tree, names.
\<close>

definition fdt_header :: "nat \<Rightarrow> nat \<Rightarrow> u32 list" where
  "fdt_header zn zt = [0xd00dfeed, of_nat (56 + zt + zn), 56, of_nat (56 + zt), 40, 17, 16, 0, of_nat zn, of_nat zt]"

definition fdt_blob :: "fdt \<Rightarrow> u32 list" where
  "fdt_blob t =
     (let ns = first_uses (prop_names t); b = names_block ns; ws = node_words ns t @ [9] in
      fdt_header (length b) (4 * length ws) @ [0, 0, 0, 0] @ ws @ be_words b)"

section \<open>Reader\<close>

datatype token = TBegin "u8 list" | TProp "u8 list" "u8 list" | TEnd

primrec take_name :: "u32 list \<Rightarrow> (u8 list \<times> u32 list) option" where
  "take_name [] = None"
| "take_name (w # ws) =
     (let b = be_bytes w in
      if 0 \<in> set b then Some (takeWhile (\<lambda>x. x \<noteq> 0) b, ws)
      else case take_name ws of None \<Rightarrow> None | Some (n, r) \<Rightarrow> Some (b @ n, r))"

lemma take_name_shorter: "take_name ws = Some (n, r) \<Longrightarrow> length r < length ws"
  by (induction ws arbitrary: n) (auto simp: Let_def split: if_splits option.splits)

definition string_at :: "u8 list \<Rightarrow> nat \<Rightarrow> u8 list" where
  "string_at b k = takeWhile (\<lambda>x. x \<noteq> 0) (drop k b)"

text \<open>The tokens of the tree: 1 begins a node, 3 is a property, 2 ends a node, 4 is padding and 9 the end.\<close>

function fdt_tokens :: "u8 list \<Rightarrow> u32 list \<Rightarrow> token list option" where
  "fdt_tokens b ws =
     (case ws of [] \<Rightarrow> None | w # ws1 \<Rightarrow>
      if w = 1 then
        (case take_name ws1 of None \<Rightarrow> None | Some (n, r) \<Rightarrow> map_option ((#) (TBegin n)) (fdt_tokens b r))
      else if w = 2 then map_option ((#) TEnd) (fdt_tokens b ws1)
      else if w = 3 then
        (case ws1 of len # off # r \<Rightarrow>
           (let k = (unat len + 3) div 4; v = take (unat len) (concat (map be_bytes (take k r))) in
            if length r < k then None
            else map_option ((#) (TProp (string_at b (unat off)) v)) (fdt_tokens b (drop k r)))
         | _ \<Rightarrow> None)
      else if w = 4 then fdt_tokens b ws1
      else if w = 9 \<and> ws1 = [] then Some []
      else None)"
  by pat_completeness auto
termination
  by (relation "measure (\<lambda>(b, ws). length ws)") (auto dest: take_name_shorter)

declare fdt_tokens.simps [simp del]

text \<open>The nodes that are open, innermost first, with the properties and subnodes seen so far.\<close>

fun build :: "(u8 list \<times> (u8 list \<times> u8 list) list \<times> fdt list) list \<Rightarrow> token list \<Rightarrow> fdt option" where
  "build st (TBegin n # ts) = build ((n, [], []) # st) ts"
| "build ((n, ps, cs) # st) (TProp k v # ts) = (if cs = [] then build ((n, ps @ [(k, v)], cs) # st) ts else None)"
| "build ((n, ps, cs) # (m, qs, ds) # st) (TEnd # ts) = build ((m, qs, ds @ [Fdt n ps cs]) # st) ts"
| "build [(n, ps, cs)] [TEnd] = Some (Fdt n ps cs)"
| "build _ _ = None"

definition fdt_read :: "u32 list \<Rightarrow> fdt option" where
  "fdt_read ws =
     (if length ws < 10 \<or> ws ! 0 \<noteq> 0xd00dfeed \<or> 17 < ws ! 6 then None
      else
        let tree = take (unat (ws ! 9) div 4) (drop (unat (ws ! 2) div 4) ws);
          names = take (unat (ws ! 8)) (drop (unat (ws ! 3)) (concat (map be_bytes ws))) in
        (case fdt_tokens names tree of None \<Rightarrow> None | Some ts \<Rightarrow> build [] ts))"

section \<open>Lookup\<close>

definition fdt_name :: "fdt \<Rightarrow> u8 list" where
  "fdt_name t = (case t of Fdt n ps cs \<Rightarrow> n)"

text \<open>The node at a path below the root, and the cells of one of its properties.\<close>

fun fdt_find :: "string list \<Rightarrow> fdt \<Rightarrow> fdt option" where
  "fdt_find [] t = Some t"
| "fdt_find (n # p) (Fdt m ps cs) =
     (case List.find (\<lambda>c. fdt_name c = name_bytes n) cs of None \<Rightarrow> None | Some c \<Rightarrow> fdt_find p c)"

definition fdt_cells :: "string list \<Rightarrow> string \<Rightarrow> fdt \<Rightarrow> u32 list option" where
  "fdt_cells p k t =
     (case fdt_find p t of None \<Rightarrow> None | Some (Fdt n ps cs) \<Rightarrow> map_option be_words (map_of ps (name_bytes k)))"

section \<open>Names\<close>

lemma unat_of_char [simp]: "unat (of_char c :: u8) = of_char c"
proof -
  have "(of_char c :: u8) = of_nat (of_char c)" by (simp add: of_nat_of_char)
  then show ?thesis by (simp only: unat_of_nat) simp
qed

lemma of_char_u8_eq [simp]: "(of_char c :: u8) = of_char d \<longleftrightarrow> c = d"
  by (metis unat_of_char of_char_eq_iff)

lemma name_bytes_eq [simp]: "name_bytes s = name_bytes t \<longleftrightarrow> s = t"
  by (auto simp: name_bytes_def inj_def intro: map_injective)

lemma length_name_bytes [simp]: "length (name_bytes s) = length s"
  by (simp add: name_bytes_def)

text \<open>The offset of a name that is given as a string.\<close>

fun str_offset :: "string list \<Rightarrow> string \<Rightarrow> nat" where
  "str_offset [] k = 0"
| "str_offset (n # ns) k = (if n = k then 0 else length n + 1 + str_offset ns k)"

lemma name_offset_bytes: "name_offset (map name_bytes ns) (name_bytes k) = str_offset ns k"
  by (induction ns) auto

text \<open>The names of the properties of a source.\<close>

primrec dts_names :: "(string \<Rightarrow> u32 option) \<Rightarrow> dts \<Rightarrow> string list" where
  "dts_names ph (Dts l n ps cs) =
     map fst ps @ (if Option.bind l ph = None then [] else [''phandle'']) @ concat (map (dts_names ph) cs)"

lemma prop_names_resolve: "prop_names (resolve ph t) = map name_bytes (dts_names ph t)"
proof (induction t)
  case (Dts l n ps cs)
  have "map fst (phandle_prop ph l) = map name_bytes (if Option.bind l ph = None then [] else [''phandle''])"
    by (auto simp: phandle_prop_def split: option.splits)
  moreover have "concat (map prop_names (map (resolve ph) cs)) = map name_bytes (concat (map (dts_names ph) cs))"
    using Dts by (induction cs) auto
  ultimately show ?case by (simp add: comp_def case_prod_unfold)
qed

lemma first_uses_map: "inj f \<Longrightarrow> first_uses (map f xs) = map f (first_uses xs)"
proof -
  assume "inj f"
  then have "remdups (map f ys) = map f (remdups ys)" for ys by (induction ys) (auto simp: inj_image_mem_iff)
  then show ?thesis by (simp add: first_uses_def rev_map)
qed

section \<open>Words and bytes\<close>

lemma be_bytes_pack [simp]: "be_bytes (pack a b c d) = [a, b, c, d]"
  unfolding be_bytes_def pack_def list.inject
  by (auto simp: bit_eq_iff bit_simps dest: bit_imp_le_length)

lemma pack_be_bytes: "pack (ucast (drop_bit 24 w)) (ucast (drop_bit 16 w)) (ucast (drop_bit 8 w)) (ucast w) = w"
proof (rule bit_word_eqI)
  fix n
  assume "n < LENGTH(32)"
  then show "bit (pack (ucast (drop_bit 24 w)) (ucast (drop_bit 16 w)) (ucast (drop_bit 8 w)) (ucast w)) n = bit w n"
    by (cases "n < 16"; cases "n < 24") (auto simp: pack_def bit_simps)
qed

lemma length_be_bytes [simp]: "length (be_bytes w) = 4"
  by (simp add: be_bytes_def)

lemma be_words_be_bytes [simp]: "be_words (be_bytes w @ r) = w # be_words r" "be_words (be_bytes w) = [w]"
  by (simp_all add: be_bytes_def pack_be_bytes)

lemma length_be_words [simp]: "length (be_words bs) = (length bs + 3) div 4"
  by (induction bs rule: be_words.induct) auto

lemma length_concat_be_bytes [simp]: "length (concat (map be_bytes ws)) = 4 * length ws"
  by (induction ws) auto

lemma take_be_words [simp]: "take (length bs) (concat (map be_bytes (be_words bs))) = bs"
  by (induction bs rule: be_words.induct) auto

lemma take_name_words [simp]: "0 \<notin> set n \<Longrightarrow> take_name (be_words (n @ [0]) @ r) = Some (n, r)"
  by (induction n rule: be_words.induct) (auto simp: Let_def)

section \<open>Reading what was written\<close>

primrec tree_tokens :: "fdt \<Rightarrow> token list" where
  "tree_tokens (Fdt n ps cs) =
     [TBegin n] @ map (\<lambda>(k, v). TProp k v) ps @ concat (map tree_tokens cs) @ [TEnd]"

text \<open>Names are without NUL, and the lengths and offsets fit into a word.\<close>

definition prop_ok :: "u8 list list \<Rightarrow> u8 list \<times> u8 list \<Rightarrow> bool" where
  "prop_ok ns = (\<lambda>(k, v). k \<in> set ns \<and> length v < 2 ^ 32)"

primrec tree_ok :: "u8 list list \<Rightarrow> fdt \<Rightarrow> bool" where
  "tree_ok ns (Fdt n ps cs) \<longleftrightarrow> 0 \<notin> set n \<and> list_all (prop_ok ns) ps \<and> list_all (tree_ok ns) cs"

definition block_ok :: "u8 list list \<Rightarrow> bool" where
  "block_ok ns \<longleftrightarrow> list_all (\<lambda>n. 0 \<notin> set n) ns \<and> length (names_block ns) < 2 ^ 32"

lemma name_in_block:
  assumes "k \<in> set ns" "list_all (\<lambda>n. 0 \<notin> set n) ns"
  shows "string_at (names_block ns) (name_offset ns k) = k \<and> name_offset ns k < length (names_block ns)"
  using assms
proof (induction ns)
  case (Cons n ns)
  then have "n = k \<Longrightarrow> takeWhile (\<lambda>x. x \<noteq> 0) (n @ 0 # names_block ns) = k"
    by (auto simp: takeWhile_append)
  with Cons show ?case by (auto simp: string_at_def names_block_def)
qed simp

lemma prop_tokens:
  assumes "prop_ok ns kv" "block_ok ns"
  shows "fdt_tokens (names_block ns) (prop_words ns kv @ r) =
    map_option ((#) (case kv of (k, v) \<Rightarrow> TProp k v)) (fdt_tokens (names_block ns) r)"
proof -
  obtain k v where kv: "kv = (k, v)" by (cases kv)
  have "string_at (names_block ns) (name_offset ns k) = k" "name_offset ns k < 2 ^ 32" "length v < 2 ^ 32"
    using name_in_block [of k ns] assms unfolding kv prop_ok_def block_ok_def by auto
  then have "unat (of_nat (length v) :: u32) = length v" "unat (of_nat (name_offset ns k) :: u32) = name_offset ns k"
    "string_at (names_block ns) (name_offset ns k) = k"
    by (simp_all only: unat_of_nat) simp_all
  then show ?thesis unfolding kv by (simp add: fdt_tokens.simps [of _ "_ # _"] prop_words_def Let_def)
qed

lemma props_tokens:
  assumes "list_all (prop_ok ns) ps" "block_ok ns"
  shows "fdt_tokens (names_block ns) (concat (map (prop_words ns) ps) @ r) =
    map_option ((@) (map (\<lambda>(k, v). TProp k v) ps)) (fdt_tokens (names_block ns) r)"
  using assms(1) by (cases "fdt_tokens (names_block ns) r"; induction ps) (auto simp: prop_tokens assms(2))

lemma node_tokens:
  assumes "tree_ok ns t" "block_ok ns"
  shows "fdt_tokens (names_block ns) (node_words ns t @ r) =
    map_option ((@) (tree_tokens t)) (fdt_tokens (names_block ns) r)"
  using assms(1)
proof (induction t arbitrary: r)
  case (Fdt n ps cs)
  have cs: "fdt_tokens (names_block ns) (concat (map (node_words ns) cs) @ r) =
      map_option ((@) (concat (map tree_tokens cs))) (fdt_tokens (names_block ns) r)" for r
    using Fdt by (cases "fdt_tokens (names_block ns) r"; induction cs) auto
  have "fdt_tokens (names_block ns) (2 # r) = map_option ((#) TEnd) (fdt_tokens (names_block ns) r)"
    by (simp add: fdt_tokens.simps [of _ "_ # _"])
  moreover have "fdt_tokens (names_block ns) (1 # be_words (n @ [0]) @ s) =
      map_option ((#) (TBegin n)) (fdt_tokens (names_block ns) s)" for s
    using Fdt.prems by (simp add: fdt_tokens.simps [of _ "_ # _"])
  ultimately show ?case
    using Fdt.prems by (simp add: props_tokens assms(2) cs option.map_comp comp_def)
qed

lemma build_props: "build ((n, qs, []) # st) (map (\<lambda>(k, v). TProp k v) ps @ ts) = build ((n, qs @ ps, []) # st) ts"
  by (induction ps arbitrary: qs) auto

lemma build_node:
  "build ((m, qs, ds) # st) (tree_tokens t @ ts) = build ((m, qs, ds @ [t]) # st) ts"
proof (induction t arbitrary: m qs ds st ts)
  case (Fdt n ps cs)
  have "build ((n, ps, es) # st) (concat (map tree_tokens cs) @ ts) = build ((n, ps, es @ cs) # st) ts" for es st ts
    using Fdt by (induction cs arbitrary: es) auto
  then show ?case by (simp add: build_props)
qed

lemma build_tree: "build [] (tree_tokens t) = Some t"
proof (cases t)
  case (Fdt n ps cs)
  have "build ((n, ps, es) # st) (concat (map tree_tokens cs) @ ts) = build ((n, ps, es @ cs) # st) ts" for es st ts
    by (induction cs arbitrary: es) (auto simp: build_node)
  then show ?thesis unfolding Fdt by (simp add: build_props)
qed

lemma tokens_end: "fdt_tokens b [9] = Some []"
  by (simp add: fdt_tokens.simps [of _ "_ # _"])

definition fdt_ok :: "fdt \<Rightarrow> bool" where
  "fdt_ok t \<longleftrightarrow> (let ns = first_uses (prop_names t) in
     tree_ok ns t \<and> block_ok ns \<and> 4 * length (fdt_blob t) < 2 ^ 32)"

text \<open>
  Reading a compiled device tree gives the tree back, for every tree whose names have no
  NUL and whose size fits into 32 bits.
\<close>

lemma fdt_read_blob:
  assumes "fdt_ok t"
  shows "fdt_read (fdt_blob t) = Some t"
proof -
  define ns where "ns = first_uses (prop_names t)"
  define b where "b = names_block ns"
  define ws where "ws = node_words ns t @ [9]"
  have blob: "fdt_blob t = fdt_header (length b) (4 * length ws) @ [0, 0, 0, 0] @ ws @ be_words b"
    unfolding fdt_blob_def Let_def ns_def b_def ws_def ..
  have ok: "tree_ok ns t" "block_ok ns" and "4 * length (fdt_blob t) < 2 ^ 32"
    using assms unfolding fdt_ok_def Let_def ns_def by blast+
  then have "56 + 4 * length ws + length b < 2 ^ 32" unfolding blob fdt_header_def by simp
  then have sizes: "unat (of_nat (length b) :: u32) = length b" "unat (of_nat (4 * length ws) :: u32) = 4 * length ws"
    "unat (of_nat (56 + 4 * length ws) :: u32) = 56 + 4 * length ws" by (simp_all only: unat_of_nat) simp_all
  let ?ws = "fdt_blob t"
  have fields: "10 \<le> length ?ws" "?ws ! 0 = 0xd00dfeed" "?ws ! 6 = 16" "?ws ! 2 = 56"
    "?ws ! 3 = of_nat (56 + 4 * length ws)" "?ws ! 8 = of_nat (length b)" "?ws ! 9 = of_nat (4 * length ws)"
    unfolding blob fdt_header_def by simp_all
  have tree: "take (length ws) (drop 14 ?ws) = ws" unfolding blob fdt_header_def by simp
  have "concat (map be_bytes ?ws) = concat (map be_bytes (fdt_header (length b) (4 * length ws) @ [0, 0, 0, 0] @ ws))
      @ concat (map be_bytes (be_words b))"
    unfolding blob by simp
  moreover have "length (concat (map be_bytes (fdt_header (length b) (4 * length ws) @ [0, 0, 0, 0] @ ws))) = 56 + 4 * length ws"
    by (simp add: fdt_header_def)
  ultimately have names: "take (length b) (drop (56 + 4 * length ws) (concat (map be_bytes ?ws))) = b" by simp
  have "fdt_tokens b ws = Some (tree_tokens t)"
    unfolding ws_def b_def by (simp add: node_tokens ok tokens_end)
  then show ?thesis
    using fields tree names unfolding fdt_read_def Let_def by (simp add: sizes build_tree del: of_nat_add of_nat_mult)
qed

section \<open>Sources whose tree can be read back\<close>

primrec value_size :: "dts_value \<Rightarrow> nat" where
  "value_size (Cells cs) = 4 * length cs"
| "value_size (Strings ss) = sum_list (map (\<lambda>s. length s + 1) ss)"
| "value_size (Bytes bs) = length bs"

lemma length_value_bytes: "length (value_bytes ph v) = value_size v"
proof (cases v)
  case (Cells cs)
  then show ?thesis by (induction cs arbitrary: v) auto
next
  case (Strings ss)
  then show ?thesis by (induction ss arbitrary: v) auto
qed simp

primrec dts_ok :: "dts \<Rightarrow> bool" where
  "dts_ok (Dts l n ps cs) \<longleftrightarrow> CHR 0x00 \<notin> set n \<and> list_all (\<lambda>(k, v). value_size v < 2 ^ 32) ps \<and> list_all dts_ok cs"

lemma zero_name_bytes: "0 \<in> set (name_bytes s) \<longleftrightarrow> CHR 0x00 \<in> set s"
proof -
  have "(0 :: u8) = of_char (CHR 0x00)" by simp
  then show ?thesis unfolding name_bytes_def set_map by (metis (no_types, lifting) image_iff of_char_u8_eq)
qed

lemma resolve_ok:
  assumes "dts_ok t" "set (dts_names ph t) \<subseteq> set strs"
  shows "tree_ok (map name_bytes strs) (resolve ph t)"
  using assms
proof (induction t)
  case (Dts l n ps cs)
  have "list_all (prop_ok (map name_bytes strs)) (phandle_prop ph l)"
    using Dts.prems by (auto simp: phandle_prop_def prop_ok_def split: option.splits)
  moreover have "list_all (tree_ok (map name_bytes strs)) (map (resolve ph) cs)"
    using Dts by (auto simp: list_all_iff UN_subset_iff)
  moreover have "list_all (prop_ok (map name_bytes strs)) (map (\<lambda>(k, v). (name_bytes k, value_bytes ph v)) ps)"
    using Dts.prems by (auto simp: list_all_iff prop_ok_def length_value_bytes image_subset_iff)
  ultimately show ?case using Dts.prems by (simp add: zero_name_bytes)
qed

lemma set_first_uses [simp]: "set (first_uses xs) = set xs"
  by (simp add: first_uses_def)

lemma length_names_block: "length (names_block (map name_bytes strs)) = sum_list (map (\<lambda>s. length s + 1) strs)"
  by (induction strs) (auto simp: names_block_def)

lemma block_ok_names:
  assumes "list_all (\<lambda>s. CHR 0x00 \<notin> set s) strs" "sum_list (map (\<lambda>s. length s + 1) strs) < 2 ^ 32"
  shows "block_ok (map name_bytes strs)"
  unfolding block_ok_def length_names_block using assms by (simp add: list_all_iff zero_name_bytes)

text \<open>The names of the properties of a tree that comes from a source.\<close>

lemma names_of_source:
  assumes "first_uses (dts_names ph t) = strs"
  shows "first_uses (prop_names (resolve ph t)) = map name_bytes strs"
  using first_uses_map [of name_bytes "dts_names ph t"] assms by (simp add: prop_names_resolve inj_def)

lemma blob_of_source:
  assumes "first_uses (dts_names ph t) = strs"
  shows "fdt_blob (resolve ph t) =
    (let b = names_block (map name_bytes strs); ws = node_words (map name_bytes strs) (resolve ph t) @ [9] in
     fdt_header (length b) (4 * length ws) @ [0, 0, 0, 0] @ ws @ be_words b)"
  by (simp add: fdt_blob_def names_of_source [OF assms] Let_def)

text \<open>When the words of a source are those of an image, the image holds its tree.\<close>

lemma source_read:
  assumes names: "first_uses (dts_names ph t) = strs" and "dts_ok t" "list_all (\<lambda>s. CHR 0x00 \<notin> set s) strs"
    and "sum_list (map (\<lambda>s. length s + 1) strs) < 2 ^ 32" "4 * length (fdt_blob (resolve ph t)) < 2 ^ 32"
  shows "fdt_read (fdt_blob (resolve ph t)) = Some (resolve ph t)"
proof (rule fdt_read_blob)
  have "tree_ok (map name_bytes strs) (resolve ph t)" using assms(2) names by (intro resolve_ok) auto
  moreover have "block_ok (map name_bytes strs)" using assms(3,4) by (rule block_ok_names)
  ultimately show "fdt_ok (resolve ph t)" using assms(5) by (simp add: fdt_ok_def names_of_source [OF names])
qed

end
