(* ===== verification/Boot_Image.thy ===== *)
theory Boot_Image
  imports Device_Tree
begin

text \<open>
  The device trees in the images of the boot loader: the words of \<open>bootrom_64.h\<close> and \<open>bootrom_32.h\<close> from
  the label \<open>_dtb\<close> of \<open>startup.S\<close> on, and the sources \<open>cv64a6.dts\<close> and \<open>cv32a6.dts\<close> they are made
  from.
\<close>

section \<open>Sources\<close>

definition cv64a6 :: dts where
  "cv64a6 =
    Dts None ''''
      [(''#address-cells'', Cells [Num 2]),
       (''#size-cells'', Cells [Num 2]),
       (''compatible'', Strings [''eth,ariane-bare-dev'']),
       (''model'', Strings [''eth,ariane-bare''])]
      [
        Dts None ''chosen''
          [(''stdout-path'', Strings [''/soc/uart@10000000:115200''])]
          [],
        Dts None ''cpus''
          [(''#address-cells'', Cells [Num 1]),
           (''#size-cells'', Cells [Num 0]),
           (''timebase-frequency'', Cells [Num 25000000])]
          [
            Dts (Some ''CPU0'') ''cpu@0''
              [(''clock-frequency'', Cells [Num 50000000]),
               (''device_type'', Strings [''cpu'']),
               (''reg'', Cells [Num 0]),
               (''status'', Strings [''okay'']),
               (''compatible'', Strings [''eth, ariane'', ''riscv'']),
               (''riscv,isa'', Strings [''rv64imafdc'']),
               (''mmu-type'', Strings [''riscv,sv39'']),
               (''tlb-split'', Bytes [])]
              [
                Dts (Some ''CPU0_intc'') ''interrupt-controller''
                  [(''#interrupt-cells'', Cells [Num 1]),
                   (''interrupt-controller'', Bytes []),
                   (''compatible'', Strings [''riscv,cpu-intc''])]
                  []]],
        Dts None ''memory@80000000''
          [(''device_type'', Strings [''memory'']),
           (''reg'', Cells [Num 0, Num 0x80000000, Num 0, Num 0x40000000])]
          [],
        Dts None ''leds''
          [(''compatible'', Strings [''gpio-leds''])]
          [
            Dts None ''heartbeat-led''
              [(''gpios'', Cells [Ref ''xlnx_gpio'', Num 1, Num 0]),
               (''linux,default-trigger'', Strings [''heartbeat'']),
               (''retain-state-suspended'', Bytes [])]
              []],
        Dts (Some ''L26'') ''soc''
          [(''#address-cells'', Cells [Num 2]),
           (''#size-cells'', Cells [Num 2]),
           (''compatible'', Strings [''eth,ariane-bare-soc'', ''simple-bus'']),
           (''ranges'', Bytes [])]
          [
            Dts None ''clint@2000000''
              [(''compatible'', Strings [''riscv,clint0'']),
               (''interrupts-extended'', Cells [Ref ''CPU0_intc'', Num 3, Ref ''CPU0_intc'', Num 7]),
               (''reg'', Cells [Num 0, Num 0x2000000, Num 0, Num 0xc0000]),
               (''reg-names'', Strings [''control''])]
              [],
            Dts (Some ''PLIC0'') ''interrupt-controller@c000000''
              [(''#address-cells'', Cells [Num 0]),
               (''#interrupt-cells'', Cells [Num 1]),
               (''compatible'', Strings [''riscv,plic0'']),
               (''interrupt-controller'', Bytes []),
               (''interrupts-extended'', Cells [Ref ''CPU0_intc'', Num 11, Ref ''CPU0_intc'', Num 9]),
               (''reg'', Cells [Num 0, Num 0xc000000, Num 0, Num 0x4000000]),
               (''riscv,max-priority'', Cells [Num 7]),
               (''riscv,ndev'', Cells [Num 30])]
              [],
            Dts None ''uart@10000000''
              [(''compatible'', Strings [''ns16550a'']),
               (''reg'', Cells [Num 0, Num 0x10000000, Num 0, Num 0x1000]),
               (''clock-frequency'', Cells [Num 50000000]),
               (''current-speed'', Cells [Num 115200]),
               (''interrupt-parent'', Cells [Ref ''PLIC0'']),
               (''interrupts'', Cells [Num 1]),
               (''reg-shift'', Cells [Num 2]),
               (''reg-io-width'', Cells [Num 4])]
              [],
            Dts None ''timer@18000000''
              [(''compatible'', Strings [''pulp,apb_timer'']),
               (''interrupts'', Cells [Num 0x00000004, Num 0x00000005, Num 0x00000006, Num 0x00000007]),
               (''reg'', Cells [Num 0x00000000, Num 0x18000000, Num 0x00000000, Num 0x00001000]),
               (''interrupt-parent'', Cells [Ref ''PLIC0'']),
               (''reg-names'', Strings [''control''])]
              [],
            Dts None ''xps-spi@20000000''
              [(''compatible'', Strings [''xlnx,xps-spi-2.00.b'', ''xlnx,xps-spi-2.00.a'']),
               (''#address-cells'', Cells [Num 1]),
               (''#size-cells'', Cells [Num 0]),
               (''interrupt-parent'', Cells [Ref ''PLIC0'']),
               (''interrupts'', Cells [Num 2, Num 2]),
               (''reg'', Cells [Num 0, Num 0x20000000, Num 0, Num 0x1000]),
               (''xlnx,family'', Strings [''kintex7'']),
               (''xlnx,fifo-exist'', Cells [Num 0x1]),
               (''xlnx,num-ss-bits'', Cells [Num 0x1]),
               (''xlnx,num-transfer-bits'', Cells [Num 0x8]),
               (''xlnx,sck-ratio'', Cells [Num 0x4])]
              [
                Dts None ''mmc@0''
                  [(''compatible'', Strings [''mmc-spi-slot'']),
                   (''reg'', Cells [Num 0]),
                   (''spi-max-frequency'', Cells [Num 12500000]),
                   (''voltage-ranges'', Cells [Num 3300, Num 3300]),
                   (''disable-wp'', Bytes [])]
                  []],
            Dts (Some ''eth'') ''lowrisc-eth@30000000''
              [(''compatible'', Strings [''lowrisc-eth'']),
               (''device_type'', Strings [''network'']),
               (''interrupt-parent'', Cells [Ref ''PLIC0'']),
               (''interrupts'', Cells [Num 3, Num 0]),
               (''local-mac-address'', Bytes [0x00, 0x18, 0x3e, 0x02, 0xe3, 0x7f]),
               (''reg'', Cells [Num 0, Num 0x30000000, Num 0, Num 0x8000])]
              [],
            Dts (Some ''xlnx_gpio'') ''gpio@40000000''
              [(''#gpio-cells'', Cells [Num 2]),
               (''compatible'', Strings [''xlnx,xps-gpio-1.00.a'']),
               (''gpio-controller'', Bytes []),
               (''reg'', Cells [Num 0, Num 0x40000000, Num 0, Num 0x10000]),
               (''xlnx,all-inputs'', Cells [Num 0]),
               (''xlnx,all-inputs-2'', Cells [Num 0]),
               (''xlnx,dout-default'', Cells [Num 0]),
               (''xlnx,dout-default-2'', Cells [Num 0]),
               (''xlnx,gpio-width'', Cells [Num 0x8]),
               (''xlnx,gpio2-width'', Cells [Num 0x8]),
               (''xlnx,interrupt-present'', Cells [Num 0]),
               (''xlnx,is-dual'', Cells [Num 0x1]),
               (''xlnx,tri-default'', Cells [Num 0xffffffff]),
               (''xlnx,tri-default-2'', Cells [Num 0xffffffff])]
              []]]"

definition cv32a6 :: dts where
  "cv32a6 =
    Dts None ''''
      [(''#address-cells'', Cells [Num 1]),
       (''#size-cells'', Cells [Num 1]),
       (''compatible'', Strings [''eth,ariane-bare-dev'']),
       (''model'', Strings [''eth,ariane-bare''])]
      [
        Dts None ''chosen''
          [(''stdout-path'', Strings [''/soc/uart@10000000:115200''])]
          [],
        Dts None ''cpus''
          [(''#address-cells'', Cells [Num 1]),
           (''#size-cells'', Cells [Num 0]),
           (''timebase-frequency'', Cells [Num 25000000])]
          [
            Dts (Some ''CPU0'') ''cpu@0''
              [(''clock-frequency'', Cells [Num 50000000]),
               (''device_type'', Strings [''cpu'']),
               (''reg'', Cells [Num 0]),
               (''status'', Strings [''okay'']),
               (''compatible'', Strings [''eth, ariane'', ''riscv'']),
               (''riscv,isa'', Strings [''rv32ima'']),
               (''mmu-type'', Strings [''riscv,sv32'']),
               (''tlb-split'', Bytes [])]
              [
                Dts (Some ''CPU0_intc'') ''interrupt-controller''
                  [(''#interrupt-cells'', Cells [Num 1]),
                   (''interrupt-controller'', Bytes []),
                   (''compatible'', Strings [''riscv,cpu-intc''])]
                  []]],
        Dts None ''memory@80000000''
          [(''device_type'', Strings [''memory'']),
           (''reg'', Cells [Num 0x80000000, Num 0x8000000])]
          [],
        Dts None ''leds''
          [(''compatible'', Strings [''gpio-leds''])]
          [
            Dts None ''heartbeat-led''
              [(''gpios'', Cells [Ref ''xlnx_gpio'', Num 1, Num 0]),
               (''linux,default-trigger'', Strings [''heartbeat'']),
               (''retain-state-suspended'', Bytes [])]
              []],
        Dts (Some ''L26'') ''soc''
          [(''#address-cells'', Cells [Num 1]),
           (''#size-cells'', Cells [Num 1]),
           (''compatible'', Strings [''eth,ariane-bare-soc'', ''simple-bus'']),
           (''ranges'', Bytes [])]
          [
            Dts None ''clint@2000000''
              [(''compatible'', Strings [''riscv,clint0'']),
               (''interrupts-extended'', Cells [Ref ''CPU0_intc'', Num 3, Ref ''CPU0_intc'', Num 7]),
               (''reg'', Cells [Num 0x2000000, Num 0xc0000]),
               (''reg-names'', Strings [''control''])]
              [],
            Dts (Some ''PLIC0'') ''interrupt-controller@c000000''
              [(''#address-cells'', Cells [Num 0]),
               (''#interrupt-cells'', Cells [Num 1]),
               (''compatible'', Strings [''riscv,plic0'']),
               (''interrupt-controller'', Bytes []),
               (''interrupts-extended'', Cells [Ref ''CPU0_intc'', Num 11, Ref ''CPU0_intc'', Num 9]),
               (''reg'', Cells [Num 0xc000000, Num 0x4000000]),
               (''riscv,max-priority'', Cells [Num 7]),
               (''riscv,ndev'', Cells [Num 30])]
              [],
            Dts None ''uart@10000000''
              [(''compatible'', Strings [''ns16550a'']),
               (''reg'', Cells [Num 0x10000000, Num 0x1000]),
               (''clock-frequency'', Cells [Num 50000000]),
               (''current-speed'', Cells [Num 115200]),
               (''interrupt-parent'', Cells [Ref ''PLIC0'']),
               (''interrupts'', Cells [Num 1]),
               (''reg-shift'', Cells [Num 2]),
               (''reg-io-width'', Cells [Num 4])]
              [],
            Dts None ''timer@18000000''
              [(''compatible'', Strings [''pulp,apb_timer'']),
               (''interrupts'', Cells [Num 0x00000004, Num 0x00000005, Num 0x00000006, Num 0x00000007]),
               (''reg'', Cells [Num 0x18000000, Num 0x00001000]),
               (''interrupt-parent'', Cells [Ref ''PLIC0'']),
               (''reg-names'', Strings [''control''])]
              [],
            Dts None ''xps-spi@20000000''
              [(''compatible'', Strings [''xlnx,xps-spi-2.00.b'', ''xlnx,xps-spi-2.00.a'']),
               (''#address-cells'', Cells [Num 1]),
               (''#size-cells'', Cells [Num 0]),
               (''interrupt-parent'', Cells [Ref ''PLIC0'']),
               (''interrupts'', Cells [Num 2, Num 2]),
               (''reg'', Cells [Num 0x20000000, Num 0x1000]),
               (''xlnx,family'', Strings [''kintex7'']),
               (''xlnx,fifo-exist'', Cells [Num 0x1]),
               (''xlnx,num-ss-bits'', Cells [Num 0x1]),
               (''xlnx,num-transfer-bits'', Cells [Num 0x8]),
               (''xlnx,sck-ratio'', Cells [Num 0x4])]
              [
                Dts None ''mmc@0''
                  [(''compatible'', Strings [''mmc-spi-slot'']),
                   (''reg'', Cells [Num 0]),
                   (''spi-max-frequency'', Cells [Num 12500000]),
                   (''voltage-ranges'', Cells [Num 3300, Num 3300]),
                   (''disable-wp'', Bytes [])]
                  []],
            Dts (Some ''eth'') ''lowrisc-eth@30000000''
              [(''compatible'', Strings [''lowrisc-eth'']),
               (''device_type'', Strings [''network'']),
               (''interrupt-parent'', Cells [Ref ''PLIC0'']),
               (''interrupts'', Cells [Num 3, Num 0]),
               (''local-mac-address'', Bytes [0x00, 0x18, 0x3e, 0x02, 0xe3, 0x7f]),
               (''reg'', Cells [Num 0x30000000, Num 0x8000])]
              [],
            Dts (Some ''xlnx_gpio'') ''gpio@40000000''
              [(''#gpio-cells'', Cells [Num 2]),
               (''compatible'', Strings [''xlnx,xps-gpio-1.00.a'']),
               (''gpio-controller'', Bytes []),
               (''reg'', Cells [Num 0x40000000, Num 0x10000]),
               (''xlnx,all-inputs'', Cells [Num 0]),
               (''xlnx,all-inputs-2'', Cells [Num 0]),
               (''xlnx,dout-default'', Cells [Num 0]),
               (''xlnx,dout-default-2'', Cells [Num 0]),
               (''xlnx,gpio-width'', Cells [Num 0x8]),
               (''xlnx,gpio2-width'', Cells [Num 0x8]),
               (''xlnx,interrupt-present'', Cells [Num 0]),
               (''xlnx,is-dual'', Cells [Num 0x1]),
               (''xlnx,tri-default'', Cells [Num 0xffffffff]),
               (''xlnx,tri-default-2'', Cells [Num 0xffffffff])]
              []]]"

section \<open>Images\<close>

text \<open>The words are in the byte order of the hart, little-endian.\<close>

definition dtb64_header :: "u32 list" where
  "dtb64_header =
    [0xedfe0dd0, 0xf20b0000, 0x38000000, 0x20090000, 0x28000000, 0x11000000, 0x10000000, 0x00000000,
     0xd2020000, 0xe8080000, 0x00000000, 0x00000000, 0x00000000, 0x00000000]"

definition dtb64_tree1 :: "u32 list" where
  "dtb64_tree1 =
    [0x01000000, 0x00000000, 0x03000000, 0x04000000, 0x00000000, 0x02000000, 0x03000000, 0x04000000,
     0x0f000000, 0x02000000, 0x03000000, 0x14000000, 0x1b000000, 0x2c687465, 0x61697261, 0x622d656e,
     0x2d657261, 0x00766564, 0x03000000, 0x10000000, 0x26000000, 0x2c687465, 0x61697261, 0x622d656e,
     0x00657261, 0x01000000, 0x736f6863, 0x00006e65, 0x03000000, 0x1a000000, 0x2c000000, 0x636f732f,
     0x7261752f, 0x30314074, 0x30303030, 0x313a3030, 0x30323531, 0x00000030, 0x02000000, 0x01000000,
     0x73757063, 0x00000000, 0x03000000, 0x04000000, 0x00000000, 0x01000000, 0x03000000, 0x04000000,
     0x0f000000, 0x00000000, 0x03000000, 0x04000000, 0x38000000, 0x40787d01, 0x01000000, 0x40757063,
     0x00000030, 0x03000000, 0x04000000, 0x4b000000, 0x80f0fa02, 0x03000000, 0x04000000, 0x5b000000,
     0x00757063, 0x03000000, 0x04000000, 0x67000000, 0x00000000, 0x03000000, 0x05000000, 0x6b000000,
     0x79616b6f, 0x00000000, 0x03000000, 0x12000000, 0x1b000000, 0x2c687465, 0x69726120, 0x00656e61,
     0x63736972, 0x00000076, 0x03000000, 0x0b000000, 0x72000000, 0x34367672, 0x66616d69, 0x00006364,
     0x03000000, 0x0b000000, 0x7c000000, 0x63736972, 0x76732c76, 0x00003933, 0x03000000, 0x00000000,
     0x85000000, 0x01000000, 0x65746e69, 0x70757272, 0x6f632d74, 0x6f72746e, 0x72656c6c, 0x00000000,
     0x03000000, 0x04000000, 0x8f000000, 0x01000000, 0x03000000, 0x00000000, 0xa0000000, 0x03000000,
     0x0f000000, 0x1b000000]"

definition dtb64_tree2 :: "u32 list" where
  "dtb64_tree2 =
    [0x63736972, 0x70632c76, 0x6e692d75, 0x00006374, 0x03000000, 0x04000000, 0xb5000000, 0x02000000,
     0x02000000, 0x02000000, 0x02000000, 0x01000000, 0x6f6d656d, 0x38407972, 0x30303030, 0x00303030,
     0x03000000, 0x07000000, 0x5b000000, 0x6f6d656d, 0x00007972, 0x03000000, 0x10000000, 0x67000000,
     0x00000000, 0x00000080, 0x00000000, 0x00000040, 0x02000000, 0x01000000, 0x7364656c, 0x00000000,
     0x03000000, 0x0a000000, 0x1b000000, 0x6f697067, 0x64656c2d, 0x00000073, 0x01000000, 0x72616568,
     0x61656274, 0x656c2d74, 0x00000064, 0x03000000, 0x0c000000, 0xbd000000, 0x01000000, 0x01000000,
     0x00000000, 0x03000000, 0x0a000000, 0xc3000000, 0x72616568, 0x61656274, 0x00000074, 0x03000000,
     0x00000000, 0xd9000000, 0x02000000, 0x02000000, 0x01000000, 0x00636f73, 0x03000000, 0x04000000,
     0x00000000, 0x02000000, 0x03000000, 0x04000000, 0x0f000000, 0x02000000, 0x03000000, 0x1f000000,
     0x1b000000, 0x2c687465, 0x61697261, 0x622d656e, 0x2d657261, 0x00636f73, 0x706d6973, 0x622d656c,
     0x00007375, 0x03000000, 0x00000000, 0xf0000000, 0x01000000, 0x6e696c63, 0x30324074, 0x30303030,
     0x00000030, 0x03000000, 0x0d000000, 0x1b000000, 0x63736972, 0x6c632c76, 0x30746e69, 0x00000000,
     0x03000000, 0x10000000, 0xf7000000, 0x02000000, 0x03000000, 0x02000000, 0x07000000, 0x03000000,
     0x10000000, 0x67000000, 0x00000000, 0x00000002, 0x00000000, 0x00000c00, 0x03000000, 0x08000000,
     0x0b010000, 0x746e6f63]"

definition dtb64_tree3 :: "u32 list" where
  "dtb64_tree3 =
    [0x006c6f72, 0x02000000, 0x01000000, 0x65746e69, 0x70757272, 0x6f632d74, 0x6f72746e, 0x72656c6c,
     0x30306340, 0x30303030, 0x00000000, 0x03000000, 0x04000000, 0x00000000, 0x00000000, 0x03000000,
     0x04000000, 0x8f000000, 0x01000000, 0x03000000, 0x0c000000, 0x1b000000, 0x63736972, 0x6c702c76,
     0x00306369, 0x03000000, 0x00000000, 0xa0000000, 0x03000000, 0x10000000, 0xf7000000, 0x02000000,
     0x0b000000, 0x02000000, 0x09000000, 0x03000000, 0x10000000, 0x67000000, 0x00000000, 0x0000000c,
     0x00000000, 0x00000004, 0x03000000, 0x04000000, 0x15010000, 0x07000000, 0x03000000, 0x04000000,
     0x28010000, 0x1e000000, 0x03000000, 0x04000000, 0xb5000000, 0x03000000, 0x02000000, 0x01000000,
     0x74726175, 0x30303140, 0x30303030, 0x00000030, 0x03000000, 0x09000000, 0x1b000000, 0x3631736e,
     0x61303535, 0x00000000, 0x03000000, 0x10000000, 0x67000000, 0x00000000, 0x00000010, 0x00000000,
     0x00100000, 0x03000000, 0x04000000, 0x4b000000, 0x80f0fa02, 0x03000000, 0x04000000, 0x33010000,
     0x00c20100, 0x03000000, 0x04000000, 0x41010000, 0x03000000, 0x03000000, 0x04000000, 0x52010000,
     0x01000000, 0x03000000, 0x04000000, 0x5d010000, 0x02000000, 0x03000000, 0x04000000, 0x67010000,
     0x04000000, 0x02000000, 0x01000000, 0x656d6974, 0x38314072, 0x30303030, 0x00003030, 0x03000000,
     0x0f000000, 0x1b000000, 0x706c7570, 0x6270612c, 0x6d69745f, 0x00007265, 0x03000000, 0x10000000,
     0x52010000, 0x04000000]"

definition dtb64_tree4 :: "u32 list" where
  "dtb64_tree4 =
    [0x05000000, 0x06000000, 0x07000000, 0x03000000, 0x10000000, 0x67000000, 0x00000000, 0x00000018,
     0x00000000, 0x00100000, 0x03000000, 0x04000000, 0x41010000, 0x03000000, 0x03000000, 0x08000000,
     0x0b010000, 0x746e6f63, 0x006c6f72, 0x02000000, 0x01000000, 0x2d737078, 0x40697073, 0x30303032,
     0x30303030, 0x00000000, 0x03000000, 0x28000000, 0x1b000000, 0x786e6c78, 0x7370782c, 0x6970732d,
     0x302e322d, 0x00622e30, 0x786e6c78, 0x7370782c, 0x6970732d, 0x302e322d, 0x00612e30, 0x03000000,
     0x04000000, 0x00000000, 0x01000000, 0x03000000, 0x04000000, 0x0f000000, 0x00000000, 0x03000000,
     0x04000000, 0x41010000, 0x03000000, 0x03000000, 0x08000000, 0x52010000, 0x02000000, 0x02000000,
     0x03000000, 0x10000000, 0x67000000, 0x00000000, 0x00000020, 0x00000000, 0x00100000, 0x03000000,
     0x08000000, 0x74010000, 0x746e696b, 0x00377865, 0x03000000, 0x04000000, 0x80010000, 0x01000000,
     0x03000000, 0x04000000, 0x90010000, 0x01000000, 0x03000000, 0x04000000, 0xa1010000, 0x08000000,
     0x03000000, 0x04000000, 0xb8010000, 0x04000000, 0x01000000, 0x40636d6d, 0x00000030, 0x03000000,
     0x0d000000, 0x1b000000, 0x2d636d6d, 0x2d697073, 0x746f6c73, 0x00000000, 0x03000000, 0x04000000,
     0x67000000, 0x00000000, 0x03000000, 0x04000000, 0xc7010000, 0x20bcbe00, 0x03000000, 0x08000000,
     0xd9010000, 0xe40c0000, 0xe40c0000, 0x03000000, 0x00000000, 0xe8010000, 0x02000000, 0x02000000,
     0x01000000, 0x72776f6c]"

definition dtb64_tree5 :: "u32 list" where
  "dtb64_tree5 =
    [0x2d637369, 0x40687465, 0x30303033, 0x30303030, 0x00000000, 0x03000000, 0x0c000000, 0x1b000000,
     0x72776f6c, 0x2d637369, 0x00687465, 0x03000000, 0x08000000, 0x5b000000, 0x7774656e, 0x006b726f,
     0x03000000, 0x04000000, 0x41010000, 0x03000000, 0x03000000, 0x08000000, 0x52010000, 0x03000000,
     0x00000000, 0x03000000, 0x06000000, 0xf3010000, 0x023e1800, 0x00007fe3, 0x03000000, 0x10000000,
     0x67000000, 0x00000000, 0x00000030, 0x00000000, 0x00800000, 0x02000000, 0x01000000, 0x6f697067,
     0x30303440, 0x30303030, 0x00000030, 0x03000000, 0x04000000, 0x05020000, 0x02000000, 0x03000000,
     0x15000000, 0x1b000000, 0x786e6c78, 0x7370782c, 0x6970672d, 0x2e312d6f, 0x612e3030, 0x00000000,
     0x03000000, 0x00000000, 0x11020000, 0x03000000, 0x10000000, 0x67000000, 0x00000000, 0x00000040,
     0x00000000, 0x00000100, 0x03000000, 0x04000000, 0x21020000, 0x00000000, 0x03000000, 0x04000000,
     0x31020000, 0x00000000, 0x03000000, 0x04000000, 0x43020000, 0x00000000, 0x03000000, 0x04000000,
     0x55020000, 0x00000000, 0x03000000, 0x04000000, 0x69020000, 0x08000000, 0x03000000, 0x04000000,
     0x79020000, 0x08000000, 0x03000000, 0x04000000, 0x8a020000, 0x00000000, 0x03000000, 0x04000000,
     0xa1020000, 0x01000000, 0x03000000, 0x04000000, 0xae020000, 0xffffffff, 0x03000000, 0x04000000,
     0xbf020000, 0xffffffff, 0x03000000, 0x04000000, 0xb5000000, 0x01000000, 0x02000000, 0x02000000,
     0x02000000, 0x09000000]"

definition dtb64_names1 :: "u32 list" where
  "dtb64_names1 =
    [0x64646123, 0x73736572, 0x6c65632d, 0x2300736c, 0x657a6973, 0x6c65632d, 0x6300736c, 0x61706d6f,
     0x6c626974, 0x6f6d0065, 0x006c6564, 0x6f647473, 0x702d7475, 0x00687461, 0x656d6974, 0x65736162,
     0x6572662d, 0x6e657571, 0x63007963, 0x6b636f6c, 0x6572662d, 0x6e657571, 0x64007963, 0x63697665,
     0x79745f65, 0x72006570, 0x73006765, 0x75746174, 0x69720073, 0x2c766373, 0x00617369, 0x2d756d6d,
     0x65707974, 0x626c7400, 0x6c70732d, 0x23007469, 0x65746e69, 0x70757272, 0x65632d74, 0x00736c6c,
     0x65746e69, 0x70757272, 0x6f632d74, 0x6f72746e, 0x72656c6c, 0x61687000, 0x656c646e, 0x69706700,
     0x6c00736f, 0x78756e69, 0x6665642c, 0x746c7561, 0x6972742d, 0x72656767, 0x74657200, 0x2d6e6961,
     0x74617473, 0x75732d65, 0x6e657073, 0x00646564, 0x676e6172, 0x69007365, 0x7265746e, 0x74707572,
     0x78652d73, 0x646e6574, 0x72006465, 0x6e2d6765, 0x73656d61, 0x73697200, 0x6d2c7663, 0x702d7861,
     0x726f6972, 0x00797469, 0x63736972, 0x646e2c76, 0x63007665, 0x65727275, 0x732d746e, 0x64656570,
     0x746e6900, 0x75727265, 0x702d7470, 0x6e657261, 0x6e690074, 0x72726574, 0x73747075, 0x67657200,
     0x6968732d, 0x72007466, 0x692d6765]"

definition dtb64_names2 :: "u32 list" where
  "dtb64_names2 =
    [0x69772d6f, 0x00687464, 0x786e6c78, 0x6d61662c, 0x00796c69, 0x786e6c78, 0x6669662c, 0x78652d6f,
     0x00747369, 0x786e6c78, 0x6d756e2c, 0x2d73732d, 0x73746962, 0x6e6c7800, 0x756e2c78, 0x72742d6d,
     0x66736e61, 0x622d7265, 0x00737469, 0x786e6c78, 0x6b63732c, 0x7461722d, 0x73006f69, 0x6d2d6970,
     0x662d7861, 0x75716572, 0x79636e65, 0x6c6f7600, 0x65676174, 0x6e61722d, 0x00736567, 0x61736964,
     0x2d656c62, 0x6c007077, 0x6c61636f, 0x63616d2d, 0x6464612d, 0x73736572, 0x70672300, 0x632d6f69,
     0x736c6c65, 0x69706700, 0x6f632d6f, 0x6f72746e, 0x72656c6c, 0x6e6c7800, 0x6c612c78, 0x6e692d6c,
     0x73747570, 0x6e6c7800, 0x6c612c78, 0x6e692d6c, 0x73747570, 0x7800322d, 0x2c786e6c, 0x74756f64,
     0x6665642d, 0x746c7561, 0x6e6c7800, 0x6f642c78, 0x642d7475, 0x75616665, 0x322d746c, 0x6e6c7800,
     0x70672c78, 0x772d6f69, 0x68746469, 0x6e6c7800, 0x70672c78, 0x2d326f69, 0x74646977, 0x6c780068,
     0x692c786e, 0x7265746e, 0x74707572, 0x6572702d, 0x746e6573, 0x6e6c7800, 0x73692c78, 0x6175642d,
     0x6c78006c, 0x742c786e, 0x642d6972, 0x75616665, 0x7800746c, 0x2c786e6c, 0x2d697274, 0x61666564,
     0x2d746c75, 0x00000032]"

definition dtb64_tree :: "u32 list" where
  "dtb64_tree = dtb64_tree1 @ dtb64_tree2 @ dtb64_tree3 @ dtb64_tree4 @ dtb64_tree5"

definition boot_dtb64 :: "u32 list" where
  "boot_dtb64 = dtb64_header @ dtb64_tree @ dtb64_names1 @ dtb64_names2"

definition dtb32_header :: "u32 list" where
  "dtb32_header =
    [0xedfe0dd0, 0x1e0c0000, 0x38000000, 0x4c090000, 0x28000000, 0x11000000, 0x10000000, 0x00000000,
     0xd2020000, 0x14090000, 0x00000000, 0x00000000, 0x00000000, 0x00000000]"

definition dtb32_tree1 :: "u32 list" where
  "dtb32_tree1 =
    [0x01000000, 0x00000000, 0x03000000, 0x04000000, 0x00000000, 0x01000000, 0x03000000, 0x04000000,
     0x0f000000, 0x01000000, 0x03000000, 0x14000000, 0x1b000000, 0x2c687465, 0x61697261, 0x622d656e,
     0x2d657261, 0x00766564, 0x03000000, 0x10000000, 0x26000000, 0x2c687465, 0x61697261, 0x622d656e,
     0x00657261, 0x01000000, 0x736f6863, 0x00006e65, 0x03000000, 0x1a000000, 0x2c000000, 0x636f732f,
     0x7261752f, 0x30314074, 0x30303030, 0x313a3030, 0x30323531, 0x00000030, 0x02000000, 0x01000000,
     0x73757063, 0x00000000, 0x03000000, 0x04000000, 0x00000000, 0x01000000, 0x03000000, 0x04000000,
     0x0f000000, 0x00000000, 0x03000000, 0x04000000, 0x38000000, 0x40787d01, 0x01000000, 0x40757063,
     0x00000030, 0x03000000, 0x04000000, 0x4b000000, 0x80f0fa02, 0x03000000, 0x04000000, 0x5b000000,
     0x00757063, 0x03000000, 0x04000000, 0x67000000, 0x00000000, 0x03000000, 0x05000000, 0x6b000000,
     0x79616b6f, 0x00000000, 0x03000000, 0x12000000, 0x1b000000, 0x2c687465, 0x69726120, 0x00656e61,
     0x63736972, 0x00000076, 0x03000000, 0x08000000, 0x72000000, 0x32337672, 0x00616d69, 0x03000000,
     0x0b000000, 0x7c000000, 0x63736972, 0x76732c76, 0x00003233, 0x03000000, 0x00000000, 0x85000000,
     0x01000000, 0x65746e69, 0x70757272, 0x6f632d74, 0x6f72746e, 0x72656c6c, 0x00000000, 0x03000000,
     0x04000000, 0x8f000000, 0x01000000, 0x03000000, 0x00000000, 0xa0000000, 0x03000000, 0x0f000000,
     0x1b000000, 0x63736972, 0x70632c76, 0x6e692d75, 0x00006374]"

definition dtb32_tree2 :: "u32 list" where
  "dtb32_tree2 =
    [0x03000000, 0x04000000, 0xb5000000, 0x02000000, 0x02000000, 0x02000000, 0x02000000, 0x01000000,
     0x6f6d656d, 0x38407972, 0x30303030, 0x00303030, 0x03000000, 0x07000000, 0x5b000000, 0x6f6d656d,
     0x00007972, 0x03000000, 0x08000000, 0x67000000, 0x00000080, 0x00000008, 0x02000000, 0x01000000,
     0x7364656c, 0x00000000, 0x03000000, 0x0a000000, 0x1b000000, 0x6f697067, 0x64656c2d, 0x00000073,
     0x01000000, 0x72616568, 0x61656274, 0x656c2d74, 0x00000064, 0x03000000, 0x0c000000, 0xbd000000,
     0x01000000, 0x01000000, 0x00000000, 0x03000000, 0x0a000000, 0xc3000000, 0x72616568, 0x61656274,
     0x00000074, 0x03000000, 0x00000000, 0xd9000000, 0x02000000, 0x02000000, 0x01000000, 0x00636f73,
     0x03000000, 0x04000000, 0x00000000, 0x01000000, 0x03000000, 0x04000000, 0x0f000000, 0x01000000,
     0x03000000, 0x1f000000, 0x1b000000, 0x2c687465, 0x61697261, 0x622d656e, 0x2d657261, 0x00636f73,
     0x706d6973, 0x622d656c, 0x00007375, 0x03000000, 0x00000000, 0xf0000000, 0x01000000, 0x6e696c63,
     0x30324074, 0x30303030, 0x00000030, 0x03000000, 0x0d000000, 0x1b000000, 0x63736972, 0x6c632c76,
     0x30746e69, 0x00000000, 0x03000000, 0x10000000, 0xf7000000, 0x02000000, 0x03000000, 0x02000000,
     0x07000000, 0x03000000, 0x08000000, 0x67000000, 0x00000002, 0x00000c00, 0x03000000, 0x08000000,
     0x0b010000, 0x746e6f63, 0x006c6f72, 0x02000000, 0x01000000, 0x65746e69, 0x70757272, 0x6f632d74,
     0x6f72746e, 0x72656c6c, 0x30306340, 0x30303030, 0x00000000]"

definition dtb32_tree3 :: "u32 list" where
  "dtb32_tree3 =
    [0x03000000, 0x04000000, 0x00000000, 0x00000000, 0x03000000, 0x04000000, 0x8f000000, 0x01000000,
     0x03000000, 0x0c000000, 0x1b000000, 0x63736972, 0x6c702c76, 0x00306369, 0x03000000, 0x00000000,
     0xa0000000, 0x03000000, 0x10000000, 0xf7000000, 0x02000000, 0x0b000000, 0x02000000, 0x09000000,
     0x03000000, 0x08000000, 0x67000000, 0x0000000c, 0x00000004, 0x03000000, 0x04000000, 0x15010000,
     0x07000000, 0x03000000, 0x04000000, 0x28010000, 0x1e000000, 0x03000000, 0x04000000, 0xb5000000,
     0x03000000, 0x02000000, 0x01000000, 0x75626564, 0x6f632d67, 0x6f72746e, 0x72656c6c, 0x00003040,
     0x03000000, 0x10000000, 0x1b000000, 0x63736972, 0x65642c76, 0x2d677562, 0x00333130, 0x03000000,
     0x08000000, 0xf7000000, 0x02000000, 0xffff0000, 0x03000000, 0x08000000, 0x67000000, 0x00000000,
     0x00100000, 0x03000000, 0x08000000, 0x0b010000, 0x746e6f63, 0x006c6f72, 0x02000000, 0x01000000,
     0x74726175, 0x30303140, 0x30303030, 0x00000030, 0x03000000, 0x08000000, 0x1b000000, 0x3631736e,
     0x00303537, 0x03000000, 0x08000000, 0x67000000, 0x00000010, 0x00100000, 0x03000000, 0x04000000,
     0x4b000000, 0x80f0fa02, 0x03000000, 0x04000000, 0x33010000, 0x00c20100, 0x03000000, 0x04000000,
     0x41010000, 0x03000000, 0x03000000, 0x04000000, 0x52010000, 0x01000000, 0x03000000, 0x04000000,
     0x5d010000, 0x02000000, 0x03000000, 0x04000000, 0x67010000, 0x04000000, 0x02000000, 0x01000000,
     0x656d6974, 0x38314072, 0x30303030, 0x00003030, 0x03000000]"

definition dtb32_tree4 :: "u32 list" where
  "dtb32_tree4 =
    [0x0f000000, 0x1b000000, 0x706c7570, 0x6270612c, 0x6d69745f, 0x00007265, 0x03000000, 0x10000000,
     0x52010000, 0x04000000, 0x05000000, 0x06000000, 0x07000000, 0x03000000, 0x08000000, 0x67000000,
     0x00000018, 0x00100000, 0x03000000, 0x04000000, 0x41010000, 0x03000000, 0x03000000, 0x08000000,
     0x0b010000, 0x746e6f63, 0x006c6f72, 0x02000000, 0x01000000, 0x2d737078, 0x40697073, 0x30303032,
     0x30303030, 0x00000000, 0x03000000, 0x28000000, 0x1b000000, 0x786e6c78, 0x7370782c, 0x6970732d,
     0x302e322d, 0x00622e30, 0x786e6c78, 0x7370782c, 0x6970732d, 0x302e322d, 0x00612e30, 0x03000000,
     0x04000000, 0x00000000, 0x01000000, 0x03000000, 0x04000000, 0x0f000000, 0x00000000, 0x03000000,
     0x04000000, 0x41010000, 0x03000000, 0x03000000, 0x08000000, 0x52010000, 0x02000000, 0x02000000,
     0x03000000, 0x08000000, 0x67000000, 0x00000020, 0x00100000, 0x03000000, 0x08000000, 0x74010000,
     0x746e696b, 0x00377865, 0x03000000, 0x04000000, 0x80010000, 0x01000000, 0x03000000, 0x04000000,
     0x90010000, 0x01000000, 0x03000000, 0x04000000, 0xa1010000, 0x08000000, 0x03000000, 0x04000000,
     0xb8010000, 0x04000000, 0x01000000, 0x40636d6d, 0x00000030, 0x03000000, 0x0d000000, 0x1b000000,
     0x2d636d6d, 0x2d697073, 0x746f6c73, 0x00000000, 0x03000000, 0x04000000, 0x67000000, 0x00000000,
     0x03000000, 0x04000000, 0xc7010000, 0x20bcbe00, 0x03000000, 0x08000000, 0xd9010000, 0xe40c0000,
     0xe40c0000, 0x03000000, 0x00000000, 0xe8010000, 0x02000000]"

definition dtb32_tree5 :: "u32 list" where
  "dtb32_tree5 =
    [0x02000000, 0x01000000, 0x72776f6c, 0x2d637369, 0x40687465, 0x30303033, 0x30303030, 0x00000000,
     0x03000000, 0x0c000000, 0x1b000000, 0x72776f6c, 0x2d637369, 0x00687465, 0x03000000, 0x08000000,
     0x5b000000, 0x7774656e, 0x006b726f, 0x03000000, 0x04000000, 0x41010000, 0x03000000, 0x03000000,
     0x08000000, 0x52010000, 0x03000000, 0x00000000, 0x03000000, 0x06000000, 0xf3010000, 0x023e1800,
     0x00007fe3, 0x03000000, 0x08000000, 0x67000000, 0x00000030, 0x00800000, 0x02000000, 0x01000000,
     0x6f697067, 0x30303440, 0x30303030, 0x00000030, 0x03000000, 0x04000000, 0x05020000, 0x02000000,
     0x03000000, 0x15000000, 0x1b000000, 0x786e6c78, 0x7370782c, 0x6970672d, 0x2e312d6f, 0x612e3030,
     0x00000000, 0x03000000, 0x00000000, 0x11020000, 0x03000000, 0x08000000, 0x67000000, 0x00000040,
     0x00000100, 0x03000000, 0x04000000, 0x21020000, 0x00000000, 0x03000000, 0x04000000, 0x31020000,
     0x00000000, 0x03000000, 0x04000000, 0x43020000, 0x00000000, 0x03000000, 0x04000000, 0x55020000,
     0x00000000, 0x03000000, 0x04000000, 0x69020000, 0x08000000, 0x03000000, 0x04000000, 0x79020000,
     0x08000000, 0x03000000, 0x04000000, 0x8a020000, 0x00000000, 0x03000000, 0x04000000, 0xa1020000,
     0x01000000, 0x03000000, 0x04000000, 0xae020000, 0xffffffff, 0x03000000, 0x04000000, 0xbf020000,
     0xffffffff, 0x03000000, 0x04000000, 0xb5000000, 0x01000000, 0x02000000, 0x02000000, 0x02000000,
     0x09000000]"

definition dtb32_names1 :: "u32 list" where
  "dtb32_names1 =
    [0x64646123, 0x73736572, 0x6c65632d, 0x2300736c, 0x657a6973, 0x6c65632d, 0x6300736c, 0x61706d6f,
     0x6c626974, 0x6f6d0065, 0x006c6564, 0x6f647473, 0x702d7475, 0x00687461, 0x656d6974, 0x65736162,
     0x6572662d, 0x6e657571, 0x63007963, 0x6b636f6c, 0x6572662d, 0x6e657571, 0x64007963, 0x63697665,
     0x79745f65, 0x72006570, 0x73006765, 0x75746174, 0x69720073, 0x2c766373, 0x00617369, 0x2d756d6d,
     0x65707974, 0x626c7400, 0x6c70732d, 0x23007469, 0x65746e69, 0x70757272, 0x65632d74, 0x00736c6c,
     0x65746e69, 0x70757272, 0x6f632d74, 0x6f72746e, 0x72656c6c, 0x61687000, 0x656c646e, 0x69706700,
     0x6c00736f, 0x78756e69, 0x6665642c, 0x746c7561, 0x6972742d, 0x72656767, 0x74657200, 0x2d6e6961,
     0x74617473, 0x75732d65, 0x6e657073, 0x00646564, 0x676e6172, 0x69007365, 0x7265746e, 0x74707572,
     0x78652d73, 0x646e6574, 0x72006465, 0x6e2d6765, 0x73656d61, 0x73697200, 0x6d2c7663, 0x702d7861,
     0x726f6972, 0x00797469, 0x63736972, 0x646e2c76, 0x63007665, 0x65727275, 0x732d746e, 0x64656570,
     0x746e6900, 0x75727265, 0x702d7470, 0x6e657261, 0x6e690074, 0x72726574, 0x73747075, 0x67657200,
     0x6968732d, 0x72007466, 0x692d6765]"

definition dtb32_names2 :: "u32 list" where
  "dtb32_names2 =
    [0x69772d6f, 0x00687464, 0x786e6c78, 0x6d61662c, 0x00796c69, 0x786e6c78, 0x6669662c, 0x78652d6f,
     0x00747369, 0x786e6c78, 0x6d756e2c, 0x2d73732d, 0x73746962, 0x6e6c7800, 0x756e2c78, 0x72742d6d,
     0x66736e61, 0x622d7265, 0x00737469, 0x786e6c78, 0x6b63732c, 0x7461722d, 0x73006f69, 0x6d2d6970,
     0x662d7861, 0x75716572, 0x79636e65, 0x6c6f7600, 0x65676174, 0x6e61722d, 0x00736567, 0x61736964,
     0x2d656c62, 0x6c007077, 0x6c61636f, 0x63616d2d, 0x6464612d, 0x73736572, 0x70672300, 0x632d6f69,
     0x736c6c65, 0x69706700, 0x6f632d6f, 0x6f72746e, 0x72656c6c, 0x6e6c7800, 0x6c612c78, 0x6e692d6c,
     0x73747570, 0x6e6c7800, 0x6c612c78, 0x6e692d6c, 0x73747570, 0x7800322d, 0x2c786e6c, 0x74756f64,
     0x6665642d, 0x746c7561, 0x6e6c7800, 0x6f642c78, 0x642d7475, 0x75616665, 0x322d746c, 0x6e6c7800,
     0x70672c78, 0x772d6f69, 0x68746469, 0x6e6c7800, 0x70672c78, 0x2d326f69, 0x74646977, 0x6c780068,
     0x692c786e, 0x7265746e, 0x74707572, 0x6572702d, 0x746e6573, 0x6e6c7800, 0x73692c78, 0x6175642d,
     0x6c78006c, 0x742c786e, 0x642d6972, 0x75616665, 0x7800746c, 0x2c786e6c, 0x2d697274, 0x61666564,
     0x2d746c75, 0x00000032]"

definition dtb32_tree :: "u32 list" where
  "dtb32_tree = dtb32_tree1 @ dtb32_tree2 @ dtb32_tree3 @ dtb32_tree4 @ dtb32_tree5"

definition boot_dtb32 :: "u32 list" where
  "boot_dtb32 = dtb32_header @ dtb32_tree @ dtb32_names1 @ dtb32_names2"

text \<open>What a big-endian reader sees.\<close>

definition bswap :: "u32 \<Rightarrow> u32" where
  "bswap w = push_bit 24 w OR (push_bit 8 w AND 0xff0000) OR (drop_bit 8 w AND 0xff00) OR drop_bit 24 w"

definition fdt_at :: "u32 list \<Rightarrow> fdt option" where
  "fdt_at ws = fdt_read (map bswap ws)"

text \<open>
  The tree in the 32-bit image: that of \<open>cv32a6.dts\<close> with a node for the debug module, which the source
  has only in a comment, and another type of UART.
\<close>

definition dts_name :: "dts \<Rightarrow> string" where
  "dts_name t = (case t of Dts l n ps cs \<Rightarrow> n)"

primrec edit_node :: "string \<Rightarrow> (dts \<Rightarrow> dts list) \<Rightarrow> dts \<Rightarrow> dts" where
  "edit_node n f (Dts l m ps cs) =
     Dts l m ps (concat (map (\<lambda>c. if dts_name c = n then f c else [edit_node n f c]) cs))"

definition debug_controller :: dts where
  "debug_controller =
     Dts None ''debug-controller@0''
       [(''compatible'', Strings [''riscv,debug-013'']),
        (''interrupts-extended'', Cells [Ref ''CPU0_intc'', Num 65535]),
        (''reg'', Cells [Num 0, Num 0x1000]),
        (''reg-names'', Strings [''control''])] []"

definition uart_type :: "string \<Rightarrow> dts \<Rightarrow> dts" where
  "uart_type s t =
     (case t of Dts l n ps cs \<Rightarrow> Dts l n (map (\<lambda>(k, v). (k, if k = ''compatible'' then Strings [s] else v)) ps) cs)"

definition cv32a6_old :: dts where
  "cv32a6_old =
     edit_node ''interrupt-controller@c000000'' (\<lambda>t. [t, debug_controller])
       (edit_node ''uart@10000000'' (\<lambda>t. [uart_type ''ns16750'' t]) cv32a6)"

section \<open>The names and numbers of the trees\<close>

definition boot_phandles :: "string \<Rightarrow> u32 option" where
  "boot_phandles = map_of [(''xlnx_gpio'', 1), (''CPU0_intc'', 2), (''PLIC0'', 3)]"

lemma boot_refs:
  "first_uses (dts_refs cv64a6) = [''xlnx_gpio'', ''CPU0_intc'', ''PLIC0'']"
  "first_uses (dts_refs cv32a6) = [''xlnx_gpio'', ''CPU0_intc'', ''PLIC0'']"
  "first_uses (dts_refs cv32a6_old) = [''xlnx_gpio'', ''CPU0_intc'', ''PLIC0'']"
  by code_simp+

lemma phandles_of_refs: "first_uses (dts_refs t) = [''xlnx_gpio'', ''CPU0_intc'', ''PLIC0''] \<Longrightarrow> phandles t = boot_phandles"
  by (simp add: phandles_def fun_eq_iff boot_phandles_def)

lemmas boot_tree_defs = dts_tree_def boot_refs [THEN phandles_of_refs]

definition prop_strings :: "string list" where
  "prop_strings =
    [''#address-cells'', ''#size-cells'', ''compatible'', ''model'', ''stdout-path'', ''timebase-frequency'',
     ''clock-frequency'', ''device_type'', ''reg'', ''status'', ''riscv,isa'', ''mmu-type'', ''tlb-split'',
     ''#interrupt-cells'', ''interrupt-controller'', ''phandle'', ''gpios'', ''linux,default-trigger'',
     ''retain-state-suspended'', ''ranges'', ''interrupts-extended'', ''reg-names'', ''riscv,max-priority'',
     ''riscv,ndev'', ''current-speed'', ''interrupt-parent'', ''interrupts'', ''reg-shift'',
     ''reg-io-width'', ''xlnx,family'', ''xlnx,fifo-exist'', ''xlnx,num-ss-bits'',
     ''xlnx,num-transfer-bits'', ''xlnx,sck-ratio'', ''spi-max-frequency'', ''voltage-ranges'',
     ''disable-wp'', ''local-mac-address'', ''#gpio-cells'', ''gpio-controller'', ''xlnx,all-inputs'',
     ''xlnx,all-inputs-2'', ''xlnx,dout-default'', ''xlnx,dout-default-2'', ''xlnx,gpio-width'',
     ''xlnx,gpio2-width'', ''xlnx,interrupt-present'', ''xlnx,is-dual'', ''xlnx,tri-default'',
     ''xlnx,tri-default-2'']"

lemma prop_offsets:
  "str_offset prop_strings ''#address-cells'' = 0" "str_offset prop_strings ''#size-cells'' = 15"
  "str_offset prop_strings ''compatible'' = 27" "str_offset prop_strings ''model'' = 38"
  "str_offset prop_strings ''stdout-path'' = 44" "str_offset prop_strings ''timebase-frequency'' = 56"
  "str_offset prop_strings ''clock-frequency'' = 75" "str_offset prop_strings ''device_type'' = 91"
  "str_offset prop_strings ''reg'' = 103" "str_offset prop_strings ''status'' = 107"
  "str_offset prop_strings ''riscv,isa'' = 114" "str_offset prop_strings ''mmu-type'' = 124"
  "str_offset prop_strings ''tlb-split'' = 133" "str_offset prop_strings ''#interrupt-cells'' = 143"
  "str_offset prop_strings ''interrupt-controller'' = 160" "str_offset prop_strings ''phandle'' = 181"
  "str_offset prop_strings ''gpios'' = 189" "str_offset prop_strings ''linux,default-trigger'' = 195"
  "str_offset prop_strings ''retain-state-suspended'' = 217" "str_offset prop_strings ''ranges'' = 240"
  "str_offset prop_strings ''interrupts-extended'' = 247" "str_offset prop_strings ''reg-names'' = 267"
  "str_offset prop_strings ''riscv,max-priority'' = 277" "str_offset prop_strings ''riscv,ndev'' = 296"
  "str_offset prop_strings ''current-speed'' = 307" "str_offset prop_strings ''interrupt-parent'' = 321"
  "str_offset prop_strings ''interrupts'' = 338" "str_offset prop_strings ''reg-shift'' = 349"
  "str_offset prop_strings ''reg-io-width'' = 359" "str_offset prop_strings ''xlnx,family'' = 372"
  "str_offset prop_strings ''xlnx,fifo-exist'' = 384" "str_offset prop_strings ''xlnx,num-ss-bits'' = 400"
  "str_offset prop_strings ''xlnx,num-transfer-bits'' = 417" "str_offset prop_strings ''xlnx,sck-ratio'' = 440"
  "str_offset prop_strings ''spi-max-frequency'' = 455" "str_offset prop_strings ''voltage-ranges'' = 473"
  "str_offset prop_strings ''disable-wp'' = 488" "str_offset prop_strings ''local-mac-address'' = 499"
  "str_offset prop_strings ''#gpio-cells'' = 517" "str_offset prop_strings ''gpio-controller'' = 529"
  "str_offset prop_strings ''xlnx,all-inputs'' = 545" "str_offset prop_strings ''xlnx,all-inputs-2'' = 561"
  "str_offset prop_strings ''xlnx,dout-default'' = 579" "str_offset prop_strings ''xlnx,dout-default-2'' = 597"
  "str_offset prop_strings ''xlnx,gpio-width'' = 617" "str_offset prop_strings ''xlnx,gpio2-width'' = 633"
  "str_offset prop_strings ''xlnx,interrupt-present'' = 650" "str_offset prop_strings ''xlnx,is-dual'' = 673"
  "str_offset prop_strings ''xlnx,tri-default'' = 686" "str_offset prop_strings ''xlnx,tri-default-2'' = 703"
  by code_simp+

lemma boot_names64: "first_uses (dts_names boot_phandles cv64a6) = prop_strings"
  by code_simp

lemma boot_names32: "first_uses (dts_names boot_phandles cv32a6_old) = prop_strings"
  by code_simp

lemmas boot_names = boot_names64 boot_names32

lemma prop_strings_ok:
  "list_all (\<lambda>s. CHR 0x00 \<notin> set s) prop_strings" "''phandle'' \<in> set prop_strings"
  "sum_list (map (\<lambda>s. Suc (length s)) prop_strings) = 722"
  by (simp_all add: prop_strings_def)

lemma boot_dts_ok: "dts_ok cv64a6" "dts_ok cv32a6_old"
  by (simp_all add: cv64a6_def cv32a6_old_def cv32a6_def debug_controller_def uart_type_def dts_name_def)

section \<open>The images\<close>

lemma prop_words_named:
  "prop_words (map name_bytes prop_strings) (name_bytes k, v) =
     [3, of_nat (length v), of_nat (str_offset prop_strings k)] @ be_words v"
  by (simp add: prop_words_def name_offset_bytes)

lemma names_words:
  "be_words (names_block (map name_bytes prop_strings)) = map bswap (dtb64_names1 @ dtb64_names2)"
  by (simp add: names_block_def prop_strings_def name_bytes_def pack_def dtb64_names1_def dtb64_names2_def bswap_def)

lemma same_names: "dtb32_names1 = dtb64_names1" "dtb32_names2 = dtb64_names2"
  by (simp_all only: dtb32_names1_def dtb32_names2_def dtb64_names1_def dtb64_names2_def)

lemma tree64:
  "node_words (map name_bytes prop_strings) (resolve boot_phandles cv64a6) @ [9] = map bswap dtb64_tree"
  apply (simp add: cv64a6_def phandle_prop_def boot_phandles_def prop_words_named prop_offsets)
  apply (simp add: name_bytes_def pack_def bswap_def dtb64_tree_def dtb64_tree1_def dtb64_tree2_def
    dtb64_tree3_def dtb64_tree4_def dtb64_tree5_def)
  done

lemma tree32:
  "node_words (map name_bytes prop_strings) (resolve boot_phandles cv32a6_old) @ [9] = map bswap dtb32_tree"
  apply (simp add: cv32a6_old_def cv32a6_def debug_controller_def uart_type_def dts_name_def
    phandle_prop_def boot_phandles_def prop_words_named prop_offsets)
  apply (simp add: name_bytes_def pack_def bswap_def dtb32_tree_def dtb32_tree1_def dtb32_tree2_def
    dtb32_tree3_def dtb32_tree4_def dtb32_tree5_def)
  done

lemma tree_lengths: "length dtb64_tree = 570" "length dtb32_tree = 581"
  by (simp_all add: dtb64_tree_def dtb64_tree1_def dtb64_tree2_def dtb64_tree3_def dtb64_tree4_def dtb64_tree5_def
    dtb32_tree_def dtb32_tree1_def dtb32_tree2_def dtb32_tree3_def dtb32_tree4_def dtb32_tree5_def)

lemma headers:
  "map bswap dtb64_header = fdt_header 722 2280 @ [0, 0, 0, 0]"
  "map bswap dtb32_header = fdt_header 722 2324 @ [0, 0, 0, 0]"
  by (simp_all add: dtb64_header_def dtb32_header_def bswap_def fdt_header_def)

text \<open>An image is the compiled tree of a source if its three parts are.\<close>

lemma image_is_blob:
  assumes "first_uses (dts_names boot_phandles t) = prop_strings"
    and "node_words (map name_bytes prop_strings) (resolve boot_phandles t) @ [9] = map bswap ws"
    and "map bswap h = fdt_header 722 (4 * length ws) @ [0, 0, 0, 0]"
  shows "map bswap (h @ ws @ dtb64_names1 @ dtb64_names2) = fdt_blob (resolve boot_phandles t)"
  using assms(2,3)
  by (simp add: blob_of_source [OF assms(1)] names_words length_names_block prop_strings_ok Let_def del: append_assoc flip: append_assoc)

lemma source_read_boot:
  assumes "first_uses (dts_names boot_phandles t) = prop_strings" "dts_ok t" "4 * length (fdt_blob (resolve boot_phandles t)) < 2 ^ 32"
  shows "fdt_read (fdt_blob (resolve boot_phandles t)) = Some (resolve boot_phandles t)"
  by (rule source_read [OF assms(1,2) prop_strings_ok(1) _ assms(3)]) (simp add: prop_strings_ok)

lemma image64: "map bswap boot_dtb64 = fdt_blob (resolve boot_phandles cv64a6)"
  unfolding boot_dtb64_def by (rule image_is_blob [OF boot_names(1) tree64]) (simp add: headers tree_lengths)

lemma image32: "map bswap boot_dtb32 = fdt_blob (resolve boot_phandles cv32a6_old)"
  unfolding boot_dtb32_def same_names by (rule image_is_blob [OF boot_names(2) tree32]) (simp add: headers tree_lengths)

lemma image_lengths: "length boot_dtb64 = 765" "length boot_dtb32 = 776"
  by (simp_all add: boot_dtb64_def boot_dtb32_def tree_lengths dtb64_header_def dtb64_names1_def dtb64_names2_def
    dtb32_header_def dtb32_names1_def dtb32_names2_def)

lemma images_read: "fdt_at boot_dtb64 = Some (dts_tree cv64a6)" "fdt_at boot_dtb32 = Some (dts_tree cv32a6_old)"
proof -
  have "length (fdt_blob (resolve boot_phandles cv64a6)) = 765" "length (fdt_blob (resolve boot_phandles cv32a6_old)) = 776"
    by (simp_all add: image_lengths flip: image64 image32)
  then show "fdt_at boot_dtb64 = Some (dts_tree cv64a6)" "fdt_at boot_dtb32 = Some (dts_tree cv32a6_old)"
    by (simp_all add: fdt_at_def image64 image32 boot_tree_defs source_read_boot boot_names boot_dts_ok)
qed

text \<open>
  Claim C13: the device tree in the 64-bit image is, word for word, the compiled form of the source
  \<open>cv64a6.dts\<close> in the repository, and a reader of the format gets that tree back from the image.
\<close>

theorem boot_dtb64_is_cv64a6:
  "map bswap boot_dtb64 = fdt_blob (dts_tree cv64a6) \<and> fdt_at boot_dtb64 = Some (dts_tree cv64a6)"
  by (simp add: image64 images_read boot_tree_defs)

text \<open>
  Claim C39: the 32-bit image is out of date. It holds a tree that is not that of \<open>cv32a6.dts\<close>: it has
  the node of the debug module, with the interrupt 65535 that the source's comment says breaks the
  boot of Linux, and the UART is of the type \<open>ns16750\<close> instead of \<open>ns16550a\<close>.
\<close>

theorem boot_dtb32_out_of_date:
  "fdt_at boot_dtb32 = Some (dts_tree cv32a6_old) \<and>
   fdt_cells [''soc'', ''debug-controller@0''] ''interrupts-extended'' (dts_tree cv32a6_old) = Some [2, 65535] \<and>
   fdt_find [''soc'', ''debug-controller@0''] (dts_tree cv32a6) = None \<and>
   fdt_at boot_dtb32 \<noteq> Some (dts_tree cv32a6)"
proof -
  have old: "fdt_cells [''soc'', ''debug-controller@0''] ''interrupts-extended'' (dts_tree cv32a6_old) = Some [2, 65535]"
    unfolding boot_tree_defs
    by (simp add: cv32a6_old_def cv32a6_def debug_controller_def uart_type_def dts_name_def fdt_cells_def fdt_name_def
      phandle_prop_def boot_phandles_def)
  have new: "fdt_find [''soc'', ''debug-controller@0''] (dts_tree cv32a6) = None"
    unfolding boot_tree_defs by (simp add: cv32a6_def fdt_name_def)
  have "dts_tree cv32a6_old \<noteq> dts_tree cv32a6"
  proof
    assume "dts_tree cv32a6_old = dts_tree cv32a6"
    with old new show False by (simp add: fdt_cells_def)
  qed
  with images_read(2) old new show ?thesis by simp
qed

text \<open>Where the 64-bit tree says the devices are.\<close>

lemma cv64a6_devices:
  "fdt_cells [''soc'', ''uart@10000000''] ''reg'' (dts_tree cv64a6) = Some [0, 0x10000000, 0, 0x1000]"
  "fdt_cells [''soc'', ''uart@10000000''] ''reg-shift'' (dts_tree cv64a6) = Some [2]"
  "fdt_cells [''soc'', ''uart@10000000''] ''clock-frequency'' (dts_tree cv64a6) = Some [50000000]"
  "fdt_cells [''soc'', ''uart@10000000''] ''current-speed'' (dts_tree cv64a6) = Some [115200]"
  "fdt_cells [''soc'', ''xps-spi@20000000''] ''reg'' (dts_tree cv64a6) = Some [0, 0x20000000, 0, 0x1000]"
  "fdt_cells [''soc'', ''clint@2000000''] ''reg'' (dts_tree cv64a6) = Some [0, 0x2000000, 0, 0xc0000]"
  "fdt_cells [''memory@80000000''] ''reg'' (dts_tree cv64a6) = Some [0, 0x80000000, 0, 0x40000000]"
  unfolding boot_tree_defs
  by (simp_all add: cv64a6_def fdt_cells_def fdt_name_def)

end
