(* ===== verification/Soc_Map.thy ===== *)
theory Soc_Map
  imports Boot_Prelude
begin

text \<open>
  The address map of the system on chip, from \<open>corev_apu/tb/ariane_soc_pkg.sv\<close>: the windows of the bus
  with their start (\<open>soc_bus_start_t\<close>) and their length.
\<close>

definition soc_bus :: "(string \<times> u64 \<times> u64) list" where
  "soc_bus =
    [(''Debug'', 0x00000000, 0x1000), (''ROM'', 0x00010000, 0x10000), (''CLINT'', 0x02000000, 0xc0000),
     (''PLIC'', 0x0c000000, 0x3ffffff), (''UART'', 0x10000000, 0x1000), (''Timer'', 0x18000000, 0x1000),
     (''CIM_Core_regbus'', 0x20000000, 0x8000000), (''CIM_Core_sram'', 0x28000000, 0x8000000),
     (''CIM_Core_macro'', 0x30000000, 0x20000000), (''CIM_Core_eDRAM'', 0x50000000, 0x20000000),
     (''Top_Ctrl'', 0x70000000, 0x8000000), (''Main_Mem'', 0x80000000, 0x40000000)]"

definition in_window :: "u64 \<Rightarrow> string \<times> u64 \<times> u64 \<Rightarrow> bool" where
  "in_window a = (\<lambda>(n, b, l). b \<le> a \<and> a < b + l)"

definition window_of :: "u64 \<Rightarrow> string option" where
  "window_of a = map_option fst (List.find (in_window a) soc_bus)"

text \<open>The windows are in ascending order and do not overlap, so an address is in at most one of them.\<close>

fun apart :: "(string \<times> u64 \<times> u64) list \<Rightarrow> bool" where
  "apart ((n, b, l) # (m, c, k) # ws) \<longleftrightarrow> b \<le> b + l \<and> b + l \<le> c \<and> apart ((m, c, k) # ws)"
| "apart [(n, b, l)] \<longleftrightarrow> b \<le> b + l"
| "apart [] \<longleftrightarrow> True"

lemma apart_above: "apart ((n, b, l) # ws) \<Longrightarrow> (m, c, k) \<in> set ws \<Longrightarrow> b + l \<le> c"
proof (induction ws arbitrary: n b l)
  case (Cons w ws)
  obtain n' b' l' where w: "w = (n', b', l')" by (metis prod_cases3)
  from Cons.prems have *: "b + l \<le> b'" "apart ((n', b', l') # ws)" by (auto simp: w)
  then have "b' \<le> b' + l'" by (cases ws) auto
  with * Cons show ?case by (auto simp: w intro: order_trans)
qed simp

lemma window_unique:
  assumes "apart ws" "w \<in> set ws" "w' \<in> set ws" "in_window a w" "in_window a w'"
  shows "w = w'"
  using assms
proof (induction ws)
  case (Cons v ws)
  obtain n b l where v: "v = (n, b, l)" by (metis prod_cases3)
  have "apart ws" using Cons.prems(1) by (cases ws) (auto simp: v)
  moreover have "\<not> in_window a u" if "in_window a v" "u \<in> set ws" for u
    using apart_above [of n b l ws "fst u" "fst (snd u)" "snd (snd u)"] that Cons.prems(1)
    by (auto simp: v in_window_def)
  ultimately show ?case using Cons.IH Cons.prems unfolding list.set insert_iff by blast
qed simp

lemma soc_bus_apart: "apart soc_bus"
  by (simp add: soc_bus_def)

lemma window_ofI:
  assumes "(n, b, l) \<in> set soc_bus" "b \<le> a" "a < b + l"
  shows "window_of a = Some n"
proof -
  have "List.find (in_window a) soc_bus \<noteq> None" using assms by (auto simp: find_None_iff in_window_def)
  then obtain w where w: "List.find (in_window a) soc_bus = Some w" by auto
  then have "w \<in> set soc_bus" "in_window a w" by (auto simp: find_Some_iff)
  with window_unique [OF soc_bus_apart] assms have "w = (n, b, l)" by (auto simp: in_window_def)
  with w show ?thesis by (simp add: window_of_def)
qed

end
