(* ===== verification/Test_Code.thy ===== *)
theory Test_Code
  imports Riscv_Core Soc_Map
begin

text \<open>
  \<open>func\<close> of \<open>corev_apu/test_code/test_code.c\<close>, which writes words to main memory and to four
  windows of the compute-in-memory unit and reads some of them back. It is assembly, so the
  model is its list of instructions, run one after the other. The assembler's \<open>li\<close> of a small number
  is an \<open>addi\<close> from \<open>zero\<close>, and \<open>sll\<close> and \<open>add\<close> with a number are \<open>slli\<close> and \<open>addi\<close>.
\<close>

section \<open>The program\<close>

definition func :: "insn list" where
  "func =
    [Addi 11 0 0x111, Addi 12 0 0x222, Addi 13 0 0x333, Addi 14 0 0x444, Addi 15 0 0x555, Addi 16 0 0x666,
     Addi 17 0 0x777,
     Addi 10 0 1, Slli 10 10 0x1f, Addi 10 10 256,
     Sw 11 10 0, Sw 12 10 4, Sw 13 10 8, Lw 5 10 0, Lw 6 10 4, Lw 7 10 8,
     Lui 10 0x20000000, Sw 11 10 0, Sw 12 10 80, Sw 13 10 84, Sw 14 10 88, Lw 18 10 0,
     Lui 10 0x28000000, Sw 11 10 0, Sw 12 10 32, Sw 13 10 8, Lw 19 10 8, Lw 20 10 32,
     Lui 10 0x50000000, Sw 11 10 0, Sw 12 10 32, Sw 13 10 8, Lw 21 10 8, Lw 22 10 32,
     Lui 10 0x56000000, Sw 11 10 0, Sw 12 10 32, Sw 13 10 128, Lw 23 10 128, Lw 24 10 0,
     Lui 10 0x32800000, Sw 17 10 64, Lw 25 10 64]"

fun exec_all :: "'d bus \<Rightarrow> insn list \<Rightarrow> hart \<times> 'd \<Rightarrow> hart \<times> 'd" where
  "exec_all b [] x = x"
| "exec_all b (i # is) x = exec_all b is (snd (exec b i x))"

section \<open>On memories\<close>

text \<open>A bus on which every word keeps what was last stored to it.\<close>

definition word_bus :: "(u64 \<Rightarrow> u32) bus" where
  "word_bus = \<lparr>bus_lbu = \<lambda>a m. (0, m), bus_lw = \<lambda>a m. (m a, m), bus_sw = \<lambda>a v m. m(a := v), bus_mip = \<lambda>_ _. 0\<rparr>"

definition func_stores :: "u64 list" where
  "func_stores =
    [0x80000100, 0x80000104, 0x80000108, 0x20000000, 0x20000050, 0x20000054, 0x20000058,
     0x28000000, 0x28000020, 0x28000008, 0x50000000, 0x50000020, 0x50000008,
     0x56000000, 0x56000020, 0x56000080, 0x32800040]"

lemma func_run:
  "(case exec_all word_bus func (h, m) of (h', m') \<Rightarrow>
     map (xregs h') [5, 6, 7] = [0x111, 0x222, 0x333] \<and>
     map (xregs h') [18, 19, 20, 21, 22, 23, 24, 25] =
       [0x111, 0x333, 0x222, 0x333, 0x222, 0x333, 0x111, 0x777] \<and>
     (\<forall>a. a \<notin> set func_stores \<longrightarrow> m' a = m a))"
  by (simp add: func_def func_stores_def word_bus_def getx_def setx_def next_pc_def)

lemma func_windows:
  "map window_of func_stores =
     replicate 3 (Some ''Main_Mem'') @ replicate 4 (Some ''CIM_Core_regbus'') @ replicate 3 (Some ''CIM_Core_sram'') @
     replicate 6 (Some ''CIM_Core_eDRAM'') @ [Some ''CIM_Core_macro'']"
  by code_simp

text \<open>
  On memories the words read back are those written, in every window, whatever was there before. The
  stores stay in main memory and in the windows of the compute-in-memory unit, and the registers \<open>s2\<close> to
  \<open>s9\<close>, which belong to the caller, are overwritten.
\<close>

theorem func_reads_back:
  "(case exec_all word_bus func (h, m) of (h', m') \<Rightarrow>
     map (xregs h') [5, 6, 7] = [0x111, 0x222, 0x333] \<and>
     map (xregs h') [18, 19, 20, 21, 22, 23, 24, 25] =
       [0x111, 0x333, 0x222, 0x333, 0x222, 0x333, 0x111, 0x777] \<and>
     (\<forall>a. a \<notin> set func_stores \<longrightarrow> m' a = m a)) \<and>
   map window_of func_stores =
     replicate 3 (Some ''Main_Mem'') @ replicate 4 (Some ''CIM_Core_regbus'') @ replicate 3 (Some ''CIM_Core_sram'') @
     replicate 6 (Some ''CIM_Core_eDRAM'') @ [Some ''CIM_Core_macro'']"
  by (rule conjI [OF func_run func_windows])

end
