(* ===== verification/Spec2Isabelle.thy ===== *)
theory Spec2Isabelle
  imports Boot Sd_Props Gpt_Layout Piton_Boot Piton_Spi Smp Bitbang_Safety Syscalls Debug_Park Elf_Props
    Msim_Args Ariane_Sim_Props Tb_Top Boot_Start Boot_Image Soc_Map Test_Code
begin

text \<open>
  \<^bold>\<open>The boot code of the CVA6 APU, verified.\<close>

  The repository is a RISC-V system on chip: the CVA6 core with a compute-in-memory extension and
  its peripherals in SystemVerilog, and, in C, the two zero-stage boot loaders that run on it before
  anything else, the headers they and the debug module share, and test programs. This development
  models the C code: the FPGA boot loader (\<open>corev_apu/fpga/src/bootrom/src\<close>), the OpenPiton boot
  loader (\<open>corev_apu/openpiton/bootrom/linux/src\<close>), the debug side (\<open>corev_apu/riscv-dbg\<close>): the
  encoding tables \<open>debug_rom/encoding.h\<close>, the debug ROM images, the JTAG server
  \<open>tb/remote_bitbang\<close> and the C runtime \<open>tb/prog/syscalls.c\<close>; and the C++ code
  of the simulation: in \<open>corev_apu/tb/dpi\<close> another version of the JTAG server, the ELF loader and the
  filter of the simulator's arguments, and the two main programs \<open>corev_apu/tb/ariane_tb.cpp\<close> and
  \<open>corev_apu/riscv-dbg/tb/tb_top_verilator.cpp\<close>. Of the compiled boot loader (\<open>bootrom_64.h\<close>,
  \<open>bootrom_32.h\<close>) it models the start code and the device trees.

  \<^bold>\<open>The program.\<close> A boot loader sets up the UART, brings up the SD card over a Xilinx AXI Quad SPI
  core (FPGA) or reads it through a memory window (OpenPiton), reads the GUID partition table in
  blocks 1 and following, copies the first partition to DRAM at \<open>0x80000000\<close> and jumps there.
  \<open>main\<close> calls \<open>gpt_find_boot_partition\<close> (gpt.c), which calls \<open>init_sd\<close> and \<open>sd_copy\<close> (sd.c),
  which call \<open>spi_init\<close>, \<open>spi_txrx\<close> and \<open>spi_write_bytes\<close> (spi.c); all of them print through uart.c.
  The start code around \<open>main\<close> parks and releases the other harts (smp.h).

  In simulation a debugger connects to the JTAG server, which executes one of its commands per tick
  (\<open>jtag_tick\<close>) and drives the JTAG pins of the debug module. A hart that the module halts runs the
  debug ROM, a polling loop on the module's flags. The programs that the test bench runs
  are linked with syscalls.c, which writes their output to a register; elfloader.cc reads
  them from their files and hands their segments to the bench. The main program of the bench sorts its
  arguments, resets the simulated system, puts the program's segment into memory and drives the clock
  until the system or the host interface says that it is done.

  \<^bold>\<open>The model.\<close> A C function is a function from its arguments and a state to an option; \<open>None\<close> means
  that the call does not return. The state (\<open>cstate\<close>) has memory, the devices and the trace of
  volatile accesses. The devices are not part of the program: an \<open>env\<close> says how they answer and what
  they do during a \<open>nop\<close>, and every theorem that depends on their behaviour says so in named hypotheses:
  \<open>uart_live\<close> (the transmitter empties), \<open>quad_spi\<close> (the documented behaviour of the SPI core: while
  bit 8 of its control register is clear the master shifts bytes from the transmit FIFO at its own pace,
  while it is set nothing is sent), \<open>spi_timing\<close> (this board sends the bytes within the
  delays of the driver), \<open>sd_card\<close> (the SPI mode of the SD specification; after a stop command the
  card may be busy), \<open>stop_prompt\<close> (it is not), \<open>sd_window\<close> (the OpenPiton memory window). Where local
  arrays and return addresses matter, the hypotheses \<open>boot_layout\<close> and \<open>piton_layout\<close> place the frames
  below the initial stack pointer \<open>0x84000000\<close> and keep the image off them; the conclusions then say
  that the frames are as they were. Polling loops are
  \<open>partial_function (option)\<close>, so that theorems of the form \<open>tw p Q\<close> say that the code returns, and
  \<open>ifret p Q\<close> that a result, if there is one, is right; for the JTAG servers, whose environment is the
  operating system (\<open>sys\<close>) and which may also abort, the contracts are \<open>okw\<close>, \<open>ifok\<close> and \<open>ends\<close>. The ROM
  images are run instruction by instruction on a hart, with the debug module as a parameter; the start
  code of the boot loader is run by several harts in any order, on the CLINT of \<open>clint.sv\<close>, with
  arbitrary steps of the loaded program once hart 0 has jumped to it. The simulated
  hardware, \<open>getopt_long\<close> and the host interface of the test benches are parameters or models of
  documented library behaviour (\<open>Getopt\<close>). No fuel is used anywhere. Machine integers
  keep their width (\<open>u8\<close>, \<open>u16\<close>, \<open>u32\<close>, \<open>u64\<close>), memory is byte-addressed with 64-bit wrapping addresses.
  Functions on local arrays take the address of the array as an argument.

  \<^bold>\<open>The theories.\<close>
  \<^item> \<open>Boot_Prelude\<close>: integers, state, contracts \<open>tw\<close> and \<open>ifret\<close>, memory lemmas; the interfaces
    \<open>serial_port\<close> (a port that sends bytes) and \<open>byte_link\<close> (full-duplex byte exchange).
  \<^item> \<open>Console_Spec\<close>: what a 16550 UART sees of a trace, pacing, hexadecimal text; the register access
    functions and the polled transmission that both uart.c share; interface \<open>polled_port\<close>.
  \<^item> \<open>Uart\<close>: fpga uart.c and uart.h, one definition per function. Configuration after \<open>init_uart\<close>,
    the bytes each printing function sends, that each byte waits for the transmitter, read-back.
  \<^item> \<open>Spi\<close>: fpga spi.c and spi.h. Against the documented core, if it is fast enough for the delays of the
    driver, \<open>spi_txrx\<close> and \<open>spi_write_bytes\<close> are exchanges with the card; against any core, which registers they touch and where they write.
  \<^item> \<open>Crc\<close>: \<open>crc7\<close> and \<open>crc16\<close> of sd.c; equivalence with a bit-serial CRC, error detection, residue.
  \<^item> \<open>Sd\<close>, \<open>Sd_Props\<close>: the rest of fpga sd.c and sd.h, the dialogue with the card as functions on the
    card's side (\<open>card_init\<close>, \<open>card_copy\<close>), and the refinement between the two; integrity and memory
    safety against any card; correctness of the read against a compliant one.
  \<^item> \<open>Gpt_Format\<close>, \<open>Gpt_Layout\<close>: the structures of gpt.h, their bytes, round trips, disks with a
    partition table, and the interface \<open>block_device\<close>, in which the three reads of the partition
    search are proved once for both loaders.
  \<^item> \<open>Gpt\<close>, \<open>Boot\<close>: fpga gpt.c and main.c; the whole loader puts the boot partition into memory and
    jumps, and does not jump when the card does not come up.
  \<^item> \<open>Piton_Uart\<close>, \<open>Piton_Sd\<close>, \<open>Piton_Boot\<close>, \<open>Piton_Spi\<close>: the OpenPiton loader, file by file; decimal
    printing, the copy loop by 64-bit words, the whole loader, and its SPI driver, which nothing
    calls and which does the same as the FPGA one.
  \<^item> \<open>Smp\<close>: \<open>smp_pause\<close> and \<open>smp_resume\<close> of both smp.h as step relations of interleaved harts, with
    the interface \<open>start_barrier\<close>, and the software interrupt registers of \<open>clint.sv\<close>. No hart
    leaves before those that the code can wait for (on this CLINT the even ones; in the OpenPiton code
    all, if the barrier word starts as 0), and the barrier opens; how an odd hart and a barrier word with
    other contents break it.
  \<^item> \<open>Boot_Start\<close>: the 36 instructions at the head of \<open>bootrom_64.h\<close>, the assembled \<open>startup.S\<close>. Every
    step of the harts that run them is simulated by a step of \<open>Smp\<close> or none. With the \<open>main\<close> of the
    repository, which jumps, the start code never releases the other harts; one that the loaded program
    wakes arrives with its number and the device tree.
  \<^item> \<open>Device_Tree\<close>, \<open>Boot_Image\<close>: device tree sources, the compiled format and a reader that is
    shown to invert the compiler; the trees in the two images word by word, and what they are
    compiled from. \<open>Soc_Map\<close>: the windows of the bus, from \<open>ariane_soc_pkg.sv\<close>.
  \<^item> \<open>Riscv_Encoding\<close>: the tables of encoding.h: instruction patterns and masks, CSR numbers, causes,
    fields; decoding is unambiguous, the declaration lists are complete, fields do not overlap.
  \<^item> \<open>Riscv_Core\<close>, \<open>Debug_Rom\<close>, \<open>Debug_Park\<close>: the instructions that the ROM images use, recognised
    with the tables of encoding.h; the words of \<open>debug_rom.h\<close>, \<open>debug_rom_one_scratch.h\<close> and
    \<open>bootrom.h\<close> and their decoding; and what they do. The interface \<open>park_loop\<close> lifts one turn of
    the polling loop to the whole wait, for both debug ROMs.
  \<^item> \<open>Bitbang\<close>, \<open>Bitbang_Dpi\<close>, \<open>Bitbang_Props\<close>, \<open>Bitbang_Safety\<close>: \<open>remote_bitbang.c\<close> with \<open>sim_jtag.c\<close>
    and \<open>rbs_test.c\<close>, and the C++ class with \<open>SimJTAG.cc\<close>, one definition per function. A session
    against a connected client, whose \<open>write\<close> may fail, the interface \<open>pin_server\<close> with what holds of the pins whatever
    the operating system does, equivalence of the two, and where they differ.
  \<^item> \<open>Syscalls\<close>: syscalls.c, one definition per system call. What \<open>_write\<close> shows, where \<open>_sbrk\<close>
    puts the break, and what leaves the processor in any sequence of calls, in the address map of
    the test bench (\<open>mm_ram.sv\<close>).
  \<^item> \<open>Elf_Loader\<close>, \<open>Elf_Props\<close>: elfloader.cc, with the structures of ELF as a parameter. What a
    well-formed file delivers, and a bounds check that wraps around.
  \<^item> \<open>Msim_Args\<close>: \<open>sanitize_args\<close> of msim_helper.cc and \<open>debug_tick\<close> of SimDTM.cc; the shift in place,
    which arguments are kept.
  \<^item> \<open>Getopt\<close>, \<open>Ariane_Args\<close>, \<open>Ariane_Args_Props\<close>: the command line of ariane_tb.cpp: \<open>getopt_long\<close> in
    its in-order mode and \<open>atoi\<close> as the library documents them, the switch with its jumps, the loop
    and the arguments that are handed on; every spelling of an option, where the command line is
    split, and two faults.
  \<^item> \<open>Ariane_Sim\<close>, \<open>Ariane_Sim_Props\<close>: the rest of its \<open>main\<close>: reset, preload, clock loop and verdict,
    against the sequence of pin values that the hardware sees.
  \<^item> \<open>Tb_Top\<close>: tb_top_verilator.cpp: the memory dump reads back, and \<open>main\<close> drives the pins until
    the hardware finishes.
  \<^item> \<open>Test_Code\<close>: \<open>func\<close> of test_code.c as a list of instructions; what it reads back and which
    windows of the bus it writes to.
  \<^item> \<open>Bench\<close>, \<open>Card_Sim\<close>, \<open>Demo_Disk\<close>: a concrete board, card and disk, on which the hypotheses of
    the theorems are shown to hold.

  \<^bold>\<open>Bounds.\<close> \<open>sd_cmd\<close> polls at most 100 times and \<open>sd_cmd0\<close> tries at most 10000 times, as in the source.
  The card and the disk image have fewer than \<open>2 ^ 32\<close> blocks in \<open>gpt_disk\<close>, because the block
  numbers of the table are 64 bits wide and \<open>sd_copy\<close> takes 32. The FPGA driver never queues more than
  64 bytes for the SPI core (\<open>spi_timing env V 64\<close>); the theorem on \<open>spi_write_bytes\<close> alone is for the number of
  bytes of the call.

  \<^bold>\<open>Not modelled.\<close> The SystemVerilog and VHDL hardware except the software interrupt registers of the CLINT; in the boot loader images the compiled \<open>main\<close>
  between the start code and the device tree, whose C source is modelled (it uses compressed
  instructions), and the start code of the 32-bit image; the helper macros for
  inline assembly in encoding.h; asynchronous signals to the test bench (its \<open>SIGTERM\<close> handler is a
  definition that no step calls); the receive buffer of the JTAG servers, which their code never uses; the
  wave dump of the benches beyond its time stamps; of the start code in \<open>startup.S\<close> of the OpenPiton loader
  only the macros of smp.h.

  \<^bold>\<open>Plan.\<close> Next come the 32-bit start code on a hart with 32-bit registers, the compressed
  instructions that the compiled drivers use, and the complete text of the boot log.
\<close>

section \<open>The addresses of the devices\<close>

text \<open>
  What the drivers, the start code, the device tree in the image and the bus say about the
  devices. They agree on the UART (its address, registers four bytes apart, clock and speed as \<open>main\<close>
  passes them to \<open>init_uart\<close>; not on the width of accesses, where the device tree asks for 32 bits), on the CLINT registers of all 256 harts and on the memory that the program is
  loaded to. The driver and the device tree agree on the SPI core as well, but the bus of this system
  has the registers of the compute-in-memory unit there.
\<close>

theorem boot_addresses:
  "\<exists>t. fdt_at boot_dtb64 = Some t \<and>
    fdt_cells [''soc'', ''uart@10000000''] ''reg'' t = Some [0, ucast UART_BASE, 0, 0x1000] \<and>
    fdt_cells [''soc'', ''uart@10000000''] ''reg-shift'' t = Some [2] \<and>
    UART_LINE_STATUS = UART_BASE + push_bit 2 5 \<and> window_of UART_BASE = Some ''UART'' \<and>
    fdt_cells [''soc'', ''uart@10000000''] ''clock-frequency'' t = Some [50000000] \<and>
    fdt_cells [''soc'', ''uart@10000000''] ''current-speed'' t = Some [115200] \<and>
    fdt_cells [''soc'', ''clint@2000000''] ''reg'' t = Some [0, ucast (clint_addr 0), 0, 0xc0000] \<and>
    window_of (clint_addr 0) = Some ''CLINT'' \<and> window_of (clint_addr 255) = Some ''CLINT'' \<and>
    fdt_cells [''memory@80000000''] ''reg'' t = Some [0, 0x80000000, 0, 0x40000000] \<and>
    window_of 0x80000000 = Some ''Main_Mem'' \<and>
    fdt_cells [''soc'', ''xps-spi@20000000''] ''reg'' t = Some [0, ucast SPI_BASE, 0, 0x1000] \<and>
    window_of SPI_BASE = Some ''CIM_Core_regbus''"
proof -
  have "window_of UART_BASE = Some ''UART''" "window_of (clint_addr 0) = Some ''CLINT''"
    "window_of (clint_addr 255) = Some ''CLINT''" "window_of 0x80000000 = Some ''Main_Mem''"
    "window_of SPI_BASE = Some ''CIM_Core_regbus''"
    by (simp_all add: window_of_def soc_bus_def in_window_def UART_BASE_def SPI_BASE_def clint_addr_def
      del: clint_addr_simps)
  then show ?thesis
    by (simp add: images_read cv64a6_devices UART_LINE_STATUS_def UART_BASE_def SPI_BASE_def clint_addr_def
      del: clint_addr_simps)
qed

end
